theory Spec2Isabelle
  imports Complex_Main "HOL-Library.Multiset"
begin

section \<open>Set/vector utilities (Fncs.cpp)\<close>

subsection \<open>intersectAndDiff\<close>

text \<open>
  \<^verbatim>\<open>intersectAndDiff(origVec, newVec)\<close> walks two \<^verbatim>\<open>std::vector<int>\<close> with the indices
  \<open>i\<close> and \<open>j\<close> in a \<^verbatim>\<open>do { ... } while (i < origVec.size())\<close> loop. The elements are
  only compared, never added, so C++ \<^verbatim>\<open>int\<close> is modelled by \<open>int\<close>. Indexing a vector
  past its end is undefined in C++; the model returns \<open>None\<close> there, so that every result
  \<open>Some\<close> is a run in which all element accesses were in range.
\<close>

function iad_loop ::
  "int list \<Rightarrow> int list \<Rightarrow> nat \<Rightarrow> nat \<Rightarrow> int list \<Rightarrow> int list \<Rightarrow> (int list \<times> int list) option"
where
  "iad_loop origVec newVec i j intVec diffVec =
     (if length origVec \<le> i \<or> length newVec \<le> j then None
      else if origVec ! i < newVec ! j then
        \<comment> \<open>difference; \<^verbatim>\<open>continue\<close> jumps to the loop condition\<close>
        (if i + 1 < length origVec
         then iad_loop origVec newVec (i + 1) j intVec (diffVec @ [origVec ! i])
         else Some (intVec, diffVec @ [origVec ! i]))
      else if origVec ! i = newVec ! j then
        \<comment> \<open>intersection\<close>
        (if j + 1 = length newVec
         then Some (intVec @ [origVec ! i], diffVec @ drop (i + 1) origVec)
         else if i + 1 < length origVec
         then iad_loop origVec newVec (i + 1) (j + 1) (intVec @ [origVec ! i]) diffVec
         else Some (intVec @ [origVec ! i], diffVec))
      else
        \<comment> \<open>\<^verbatim>\<open>origVec[i] > newVec[j]\<close>\<close>
        (if j + 1 = length newVec
         then Some (intVec, diffVec @ drop i origVec)
         else if i < length origVec
         then iad_loop origVec newVec i (j + 1) intVec diffVec
         else Some (intVec, diffVec)))"
  by pat_completeness auto
termination
  by (relation "measure (\<lambda>(origVec, newVec, i, j, intVec, diffVec).
        (length origVec - i) + (length newVec - j))") auto

declare iad_loop.simps [simp del]

definition intersectAndDiff :: "int list \<Rightarrow> int list \<Rightarrow> (int list \<times> int list) option" where
  "intersectAndDiff origVec newVec =
     (if length origVec = 0 then Some (origVec, origVec)
      else if length newVec = 0 then Some (newVec, origVec)
      else iad_loop origVec newVec 0 0 [] [])"


subsection \<open>The random-number stream\<close>

text \<open>
  All randomness comes from R's generator through \<^verbatim>\<open>R::runif\<close>, \<^verbatim>\<open>R::rgamma\<close> and
  \<^verbatim>\<open>rnorm\<close>, which are not part of this repository. A call is modelled as a request
  \<open>law\<close> handed to a sampler \<open>S\<close>, a parameter of every function that draws: \<open>S\<close> takes
  the request and the generator state and returns the variate and the next state.
  \<open>Runif a b\<close> is \<^verbatim>\<open>R::runif(a, b)\<close>; \<open>Rgamma a scale\<close> is \<^verbatim>\<open>R::rgamma(a, scale)\<close>, whose
  arguments in R's C interface are the shape and the scale of the Gamma law;
  \<open>Rnorm mu sd\<close> is one variate of \<^verbatim>\<open>rnorm(n, mu, sd)\<close>.
  \<^verbatim>\<open>double\<close> is modelled by \<open>real\<close>. In the scan of \<^verbatim>\<open>sampleInt\<close>, where the comparison
  of a rounded running sum with the draw picks the index returned, each addition is
  rounded as the machine rounds it; elsewhere the arithmetic is exact, and rounding,
  infinities and NaN are outside the model.
\<close>

datatype law = Runif real real | Rgamma real real | Rnorm real real

type_synonym 'g sampler = "law \<Rightarrow> 'g \<Rightarrow> real \<times> 'g"

definition forced :: "real \<Rightarrow> 'g sampler" where
  \<comment> \<open>the sampler that answers every request with the forced variate \<open>u\<close>\<close>
  "forced u = (\<lambda>law g. (u, g))"

subsection \<open>Double-precision addition\<close>

text \<open>
  \<^verbatim>\<open>sum += probs[i]\<close> adds two \<^verbatim>\<open>double\<close>s: the result is the exact sum rounded to the
  nearest double, ties to the even significand (IEEE 754 binary64, the arithmetic of
  \<^verbatim>\<open>double\<close> on the platforms R runs on). \<open>dbl x\<close> is that rounding of the real \<open>x\<close>:
  the doubles around \<open>x\<close> are the integer multiples of \<open>2\<close> to the power \<open>ulp_exp x\<close>
  (\<open>52\<close> below the binade of \<open>x\<close>, and \<open>- 1074\<close> throughout the subnormal range), and
  \<open>round_even\<close> rounds the quotient to the nearest integer, a tie to the even one. A real
  \<open>x\<close> is a double when \<open>dbl x = x\<close>. Overflow to infinity is outside the model.
\<close>

definition round_even :: "real \<Rightarrow> int" where
  "round_even q =
     (let f = \<lfloor>q\<rfloor>; r = q - of_int f
      in if r < 1/2 then f else if 1/2 < r then f + 1 else if even f then f else f + 1)"

definition ulp_exp :: "real \<Rightarrow> int" where
  "ulp_exp x = max \<lfloor>log 2 \<bar>x\<bar>\<rfloor> (- 1022) - 52"

definition dbl :: "real \<Rightarrow> real" where
  "dbl x = (if x = 0 then 0 else of_int (round_even (x / 2 powi ulp_exp x)) * 2 powi ulp_exp x)"

subsection \<open>sampleInt\<close>

text \<open>
  Both overloads draw \<open>u\<close> and scan the running sum \<^verbatim>\<open>sum\<close> (here \<open>csum\<close>) with
  \<^verbatim>\<open>while (sum < u) { ++i; sum += probs[i]; }\<close>; the sum is a \<^verbatim>\<open>double\<close>, rounded after
  each addition, and the entries of \<open>probs\<close> and the draw \<open>u\<close> are doubles. Reading
  \<^verbatim>\<open>probs[i]\<close> with \<open>i\<close> past the end (or \<^verbatim>\<open>probs[0]\<close> of an empty vector) is undefined in
  C++; the model returns \<open>None\<close> there. The second overload takes its total from
  \<^verbatim>\<open>probs.sum()\<close> of Eigen, which adds the entries in an order of its own: it is the
  parameter \<open>esum\<close>.
\<close>

function sampleInt_scan :: "real list \<Rightarrow> real \<Rightarrow> real \<Rightarrow> nat \<Rightarrow> nat option" where
  "sampleInt_scan probs u csum i =
     (if csum < u
      then (if i + 1 < length probs
            then sampleInt_scan probs u (dbl (csum + probs ! (i + 1))) (i + 1)
            else None)
      else Some i)"
  by pat_completeness auto
termination
  by (relation "measure (\<lambda>(probs, u, csum, i). length probs - i)") auto

declare sampleInt_scan.simps [simp del]

definition sampleInt :: "'g sampler \<Rightarrow> real list \<Rightarrow> real \<Rightarrow> 'g \<Rightarrow> nat option \<times> 'g" where
  "sampleInt S probs totP g =
     (let (u, g') = S (Runif 0 totP) g
      in (if probs = [] then None else sampleInt_scan probs u (probs ! 0) 0, g'))"

definition sampleInt_Eigen ::
  "'g sampler \<Rightarrow> (real list \<Rightarrow> real) \<Rightarrow> real list \<Rightarrow> 'g \<Rightarrow> nat option \<times> 'g" where
  "sampleInt_Eigen S esum probs g =
     (let totP = esum probs;
          (u, g') = S (Runif 0 totP) g
      in (if probs = [] then None else sampleInt_scan probs u (probs ! 0) 0, g'))"

text \<open>
  \<open>run_sum probs k\<close> is the content of \<^verbatim>\<open>sum\<close> once \<^verbatim>\<open>probs[k]\<close> has been added: the sum
  of the first \<open>k + 1\<close> entries as the loop accumulates it, left to right and rounded
  after each addition.
\<close>

fun run_sum :: "real list \<Rightarrow> nat \<Rightarrow> real" where
  "run_sum probs 0 = probs ! 0"
| "run_sum probs (Suc k) = dbl (run_sum probs k + probs ! Suc k)"


subsection \<open>logDirichletDensity\<close>

text \<open>
  \<^verbatim>\<open>stop(msg)\<close> of Rcpp throws; the model returns \<open>Inl (Stop msg)\<close>. \<^verbatim>\<open>lgamma\<close> is the C
  library's log-Gamma function, a parameter of the model; \<^verbatim>\<open>log\<close> is \<open>ln\<close>. The arguments
  are \<^verbatim>\<open>const\<close> references: the function has no effect but its result.
\<close>

datatype error = Stop string

definition logDirichletDensity :: "(real \<Rightarrow> real) \<Rightarrow> real list \<Rightarrow> real list \<Rightarrow> error + real" where
  "logDirichletDensity lgamma x alpha =
     (if length x \<noteq> length alpha then Inl (Stop ''logDirichletDensity incorrect size'')
      else Inr (fold (\<lambda>i out. out + (((alpha ! i - 1) * ln (x ! i)) - lgamma (alpha ! i)))
                  [0..<length alpha] (lgamma (sum_list alpha))))"

subsection \<open>rDirichlet\<close>

fun rDirichlet_loop :: "'g sampler \<Rightarrow> real list \<Rightarrow> real list \<Rightarrow> real \<Rightarrow> 'g \<Rightarrow> real list \<times> real \<times> 'g" where
  "rDirichlet_loop S [] out nrm g = (out, nrm, g)"
| "rDirichlet_loop S (a # alpha) out nrm g =
     (let (x, g') = S (Rgamma a 1) g
      in rDirichlet_loop S alpha (out @ [x]) (nrm + x) g')"

definition rDirichlet :: "'g sampler \<Rightarrow> real list \<Rightarrow> 'g \<Rightarrow> real list \<times> 'g" where
  "rDirichlet S alpha g =
     (let (out, nrm, g') = rDirichlet_loop S alpha [] 0 g
      in (map (\<lambda>x. x / nrm) out, g'))"

subsection \<open>rHalfCauchyFC\<close>

text \<open>
  \<^verbatim>\<open>void rHalfCauchyFC(double* x2, double a, double b, double* yInv)\<close> updates \<^verbatim>\<open>*x2\<close> and,
  when \<^verbatim>\<open>yInv\<close> is not null, \<^verbatim>\<open>*yInv\<close>. The model takes the value behind \<^verbatim>\<open>x2\<close> and returns
  the new one; \<open>yInv\<close> is \<open>None\<close> for the null pointer and \<open>Some v\<close> for a pointer to a
  cell holding \<open>v\<close>, and the cell's new content is returned the same way.
\<close>

definition rHalfCauchyFC ::
  "'g sampler \<Rightarrow> real \<Rightarrow> real \<Rightarrow> real \<Rightarrow> real option \<Rightarrow> 'g \<Rightarrow> real \<times> real option \<times> 'g" where
  "rHalfCauchyFC S x2 a b yInv g =
     (let (yi, g1) = S (Rgamma 1.0 (x2 / (x2 + 1.0))) g;
          yInv' = (if yInv \<noteq> None then Some yi else yInv);
          (r, g2) = S (Rgamma (0.5 * (a + 1.0)) (2.0 / (b + 2.0 * yi))) g1
      in (1.0 / r, yInv', g2))"

text \<open>
  The specification names a Gamma law "in shape/rate form". As a request to
  \<^verbatim>\<open>R::rgamma(shape, scale)\<close> the law with shape \<open>k\<close> and rate \<open>rate\<close> has scale \<open>1 / rate\<close>.
\<close>

definition Gamma_shape_rate :: "real \<Rightarrow> real \<Rightarrow> law" where
  "Gamma_shape_rate k rate = Rgamma k (1 / rate)"

text \<open>
  A sampler for running the model on concrete inputs: it answers the requests with the
  forced variates of a list, in order, and records the requests it was given.
\<close>

definition recording :: "(real list \<times> law list) sampler" where
  "recording law g =
     (case fst g of
        [] \<Rightarrow> (0, ([], snd g @ [law]))
      | v # vs \<Rightarrow> (v, (vs, snd g @ [law])))"


section \<open>The sampler engine (tdlmm\_Cpp.cpp)\<close>

subsection \<open>Vectors, matrices and the model control state\<close>

text \<open>
  An \<^verbatim>\<open>Eigen::VectorXd\<close> is a list of reals; an \<^verbatim>\<open>Eigen::MatrixXd\<close> is the list of its
  columns, so \<^verbatim>\<open>M.col(k) = v\<close> is \<open>M[k := v]\<close>. The small square matrices indexed by a pair
  of exposures are functions of the two indices.
\<close>

type_synonym vec = "real list"
type_synonym mat = "real list list"

text \<open>\<^verbatim>\<open>a.dot(b)\<close>, \<^verbatim>\<open>M.transpose() * v\<close> and \<^verbatim>\<open>(a.array() * b.array()).matrix()\<close>.\<close>

definition dotv :: "vec \<Rightarrow> vec \<Rightarrow> real" where
  "dotv a b = sum_list (map2 (*) a b)"

definition tmult :: "mat \<Rightarrow> vec \<Rightarrow> vec" where
  "tmult M v = map (\<lambda>c. dotv c v) M"

definition cwise_prod :: "vec \<Rightarrow> vec \<Rightarrow> vec" where
  "cwise_prod a b = map2 (*) a b"

text \<open>
  The value block of a node (\<^verbatim>\<open>node->nodevals\<close>, declared in Node.h): its design column
  \<^verbatim>\<open>X\<close> and the cross-product \<^verbatim>\<open>ZtX\<close> with the fixed effects.
\<close>

record NodeVals =
  nv_X :: vec
  nv_ZtX :: vec

text \<open>
  The fields of \<^verbatim>\<open>tdlmCtr\<close> (declared in modelCtr.h) that tdlmm\_Cpp.cpp reads or writes
  in the code modelled here; field \<^verbatim>\<open>ctr->f\<close> is \<open>ctr_f\<close>.
\<close>

record tdlmCtr =
  ctr_b :: int
  ctr_iter :: int
  ctr_burn :: int
  ctr_thin :: int
  ctr_record :: int
  ctr_nTrees :: nat
  ctr_nExp :: nat
  ctr_stepProb :: vec
  ctr_expProb :: vec
  ctr_diagnostics :: bool
  ctr_binomial :: bool
  ctr_zinb :: bool
  ctr_modKappa :: real
  ctr_shrinkage :: int
  ctr_interaction :: int
  ctr_n :: nat
  ctr_pZ :: nat
  ctr_Ystar :: vec
  ctr_R :: vec
  ctr_fhat :: vec
  ctr_Rmat :: mat
  ctr_Zw :: mat
  ctr_Vg :: mat
  ctr_nu :: real
  ctr_sigma2 :: real
  ctr_xiInvSigma2 :: real
  ctr_tau :: vec
  ctr_muExp :: vec
  ctr_muMix :: "nat \<Rightarrow> nat \<Rightarrow> real"
  ctr_tree1Exp :: "nat list"
  ctr_tree2Exp :: "nat list"
  ctr_nTerm :: vec
  ctr_nTerm2 :: vec
  ctr_expCount :: vec
  ctr_expInf :: vec
  ctr_totTermExp :: vec
  ctr_sumTermT2Exp :: vec
  ctr_mixCount :: "nat \<Rightarrow> nat \<Rightarrow> real"
  ctr_mixInf :: "nat \<Rightarrow> nat \<Rightarrow> real"
  ctr_totTermMix :: "nat \<Rightarrow> nat \<Rightarrow> real"
  ctr_sumTermT2Mix :: "nat \<Rightarrow> nat \<Rightarrow> real"
  ctr_totTerm :: real
  ctr_sumTermT2 :: real

subsection \<open>mixMHR: the local design matrix\<close>

text \<open>
  The first part of \<^verbatim>\<open>mixMHR\<close> (up to the comment \<^verbatim>\<open>calculate MHR\<close>) fills \<^verbatim>\<open>out.Xd\<close>,
  \<^verbatim>\<open>ZtX\<close> and \<^verbatim>\<open>diagVar\<close>, all set to zero first, in three loops. \<open>set_col k x ztx dv\<close> is
  one loop body: the three assignments to column (entry) \<open>k\<close>.
\<close>

record design =
  Xd :: mat
  ZtX :: mat
  diagVar :: vec

definition set_col :: "nat \<Rightarrow> vec \<Rightarrow> vec \<Rightarrow> real \<Rightarrow> design \<Rightarrow> design" where
  "set_col k x ztx dv d =
     d\<lparr>Xd := (Xd d)[k := x], ZtX := (ZtX d)[k := ztx], diagVar := (diagVar d)[k := dv]\<rparr>"

definition mixMHR_tree1 ::
  "tdlmCtr \<Rightarrow> NodeVals list \<Rightarrow> real \<Rightarrow> real \<Rightarrow> design \<Rightarrow> design" where
  "mixMHR_tree1 ctr nodes1 treeVar m1Var =
     fold (\<lambda>i. set_col i (nv_X (nodes1 ! i))
                   (if ctr_binomial ctr \<or> ctr_zinb ctr
                    then tmult (ctr_Zw ctr) (nv_X (nodes1 ! i))
                    else nv_ZtX (nodes1 ! i))
                   (1.0 / (m1Var * treeVar)))
       [0..<length nodes1]"

definition mixMHR_tree2 ::
  "tdlmCtr \<Rightarrow> nat \<Rightarrow> NodeVals list \<Rightarrow> real \<Rightarrow> real \<Rightarrow> design \<Rightarrow> design" where
  "mixMHR_tree2 ctr pX1 nodes2 treeVar m2Var =
     fold (\<lambda>j. let k = pX1 + j in
              set_col k (nv_X (nodes2 ! j))
                (if ctr_binomial ctr \<or> ctr_zinb ctr
                 then tmult (ctr_Zw ctr) (nv_X (nodes2 ! j))
                 else nv_ZtX (nodes2 ! j))
                (1.0 / (m2Var * treeVar)))
       [0..<length nodes2]"

definition mixMHR_interaction ::
  "tdlmCtr \<Rightarrow> NodeVals list \<Rightarrow> NodeVals list \<Rightarrow> real \<Rightarrow> real \<Rightarrow> design \<Rightarrow> design" where
  "mixMHR_interaction ctr nodes1 nodes2 treeVar mixVar =
     fold (\<lambda>i. fold (\<lambda>j. let k = length nodes1 + length nodes2 + i * length nodes2 + j;
                              x = cwise_prod (nv_X (nodes1 ! i)) (nv_X (nodes2 ! j))
                          in set_col k x (tmult (ctr_Zw ctr) x) (1.0 / (mixVar * treeVar)))
                 [0..<length nodes2])
       [0..<length nodes1]"

definition mixMHR_design ::
  "tdlmCtr \<Rightarrow> NodeVals list \<Rightarrow> NodeVals list \<Rightarrow> real \<Rightarrow> real \<Rightarrow> real \<Rightarrow> real \<Rightarrow> design" where
  "mixMHR_design ctr nodes1 nodes2 treeVar m1Var m2Var mixVar =
     (let pX1 = length nodes1;
          pX2 = length nodes2;
          interaction = (mixVar \<noteq> 0);
          pXd = pX1 + pX2 + (if interaction then pX1 * pX2 else 0);
          d0 = \<lparr>Xd = replicate pXd (replicate (ctr_n ctr) 0),
                ZtX = replicate pXd (replicate (ctr_pZ ctr) 0),
                diagVar = replicate pXd 0\<rparr>;
          d1 = mixMHR_tree1 ctr nodes1 treeVar m1Var d0;
          d2 = mixMHR_tree2 ctr pX1 nodes2 treeVar m2Var d1
      in if interaction then mixMHR_interaction ctr nodes1 nodes2 treeVar mixVar d2 else d2)"

text \<open>A small configuration for running the model on concrete inputs.\<close>

definition example_ctr :: tdlmCtr where
  "example_ctr =
     \<lparr>ctr_b = 1, ctr_iter = 2, ctr_burn = 0, ctr_thin = 1, ctr_record = 0,
      ctr_nTrees = 2, ctr_nExp = 2,
      ctr_stepProb = [1/4, 1/4, 1/4, 1/4], ctr_expProb = [1/2, 1/2],
      ctr_diagnostics = True, ctr_binomial = False, ctr_zinb = False,
      ctr_modKappa = 1, ctr_shrinkage = 3, ctr_interaction = 1,
      ctr_n = 2, ctr_pZ = 1,
      ctr_Ystar = [1, 2], ctr_R = [1, 2], ctr_fhat = [0, 0], ctr_Rmat = [[0, 0], [0, 0]],
      ctr_Zw = [[1, 1]], ctr_Vg = [[1/2]],
      ctr_nu = 1, ctr_sigma2 = 1, ctr_xiInvSigma2 = 1,
      ctr_tau = [1, 1], ctr_muExp = [1, 1], ctr_muMix = (\<lambda>i j. 1),
      ctr_tree1Exp = [0, 0], ctr_tree2Exp = [1, 1],
      ctr_nTerm = [1, 1], ctr_nTerm2 = [1, 1],
      ctr_expCount = [0, 0], ctr_expInf = [0, 0],
      ctr_totTermExp = [0, 0], ctr_sumTermT2Exp = [0, 0],
      ctr_mixCount = (\<lambda>i j. 0), ctr_mixInf = (\<lambda>i j. 0),
      ctr_totTermMix = (\<lambda>i j. 0), ctr_sumTermT2Mix = (\<lambda>i j. 0),
      ctr_totTerm = 0, ctr_sumTermT2 = 0\<rparr>"


subsection \<open>More linear algebra\<close>

text \<open>
  \<open>vadd\<close> and \<open>vsub\<close> are \<^verbatim>\<open>a + b\<close> and \<^verbatim>\<open>a - b\<close> on vectors; \<open>mat_vec n M v\<close> is
  \<^verbatim>\<open>M * v\<close> for a matrix of \<open>n\<close> rows given by its columns; \<open>selfadjoint_lower_vec M v\<close>
  is \<^verbatim>\<open>M.selfadjointView<Eigen::Lower>() * v\<close>, which reads the lower triangle of \<open>M\<close>
  only.
\<close>

definition vadd :: "vec \<Rightarrow> vec \<Rightarrow> vec" where
  "vadd a b = map2 (+) a b"

definition vsub :: "vec \<Rightarrow> vec \<Rightarrow> vec" where
  "vsub a b = map2 (-) a b"

definition mat_vec :: "nat \<Rightarrow> mat \<Rightarrow> vec \<Rightarrow> vec" where
  "mat_vec n M v = map (\<lambda>r. (\<Sum>k\<leftarrow>[0..<length M]. M ! k ! r * v ! k)) [0..<n]"

definition selfadjoint_lower_vec :: "mat \<Rightarrow> vec \<Rightarrow> vec" where
  "selfadjoint_lower_vec M v =
     map (\<lambda>i. (\<Sum>j\<leftarrow>[0..<length v]. (if j \<le> i then M ! j ! i else M ! i ! j) * v ! j))
       [0..<length v]"

subsection \<open>The collaborators of the tree-pair step\<close>

text \<open>
  \<^verbatim>\<open>treeMHR\<close> (declared in modelCtr.h) is the result of \<^verbatim>\<open>mixMHR\<close>; field \<^verbatim>\<open>out.f\<close> is
  \<open>mhr_f\<close>.
\<close>

record treeMHR =
  mhr_Xd :: mat
  mhr_tempV :: mat
  mhr_drawAll :: vec
  mhr_draw1 :: vec
  mhr_draw2 :: vec
  mhr_drawMix :: vec
  mhr_term1T2 :: real
  mhr_term2T2 :: real
  mhr_mixT2 :: real
  mhr_nTerm1 :: real
  mhr_nTerm2 :: real
  mhr_beta :: real
  mhr_logVThetaChol :: real
  mhr_pXd :: nat

text \<open>
  The second part of \<^verbatim>\<open>mixMHR\<close> (from the comment \<^verbatim>\<open>calculate MHR\<close> to the normal draws)
  computes the posterior with Eigen's Cholesky factorisation and draws \<^verbatim>\<open>ThetaDraw\<close> with
  \<^verbatim>\<open>rnorm\<close>. It is a parameter of the model (\<open>ext_posterior\<close> below) with this result:
  \<^verbatim>\<open>out.tempV\<close>, \<^verbatim>\<open>ThetaDraw\<close>, \<^verbatim>\<open>ThetaHat.dot(XtVzInvR)\<close> and the sum of the logarithms of
  the diagonal of \<^verbatim>\<open>VThetaChol\<close>.
\<close>

record posterior =
  post_tempV :: mat
  post_ThetaDraw :: vec
  post_beta :: real
  post_logVThetaChol :: real

text \<open>
  The code of the repository that tdlmm\_Cpp.cpp calls and that is declared elsewhere
  (Node.h, NodeStruct.h, exposureDat.h, modelCtr.h): trees are values of a type \<open>'t\<close>, and
  every operation on them is a field of the record \<open>ext\<close>.
  \<^item> \<open>ext_listTerminal\<close>, \<open>ext_listTerminal1\<close>: the value blocks of the terminal nodes listed by
    \<^verbatim>\<open>tree->listTerminal()\<close> and \<^verbatim>\<open>tree->listTerminal(1)\<close> (the staged structure);
  \<^item> \<open>ext_tdlmProposeTree tree m ctr step\<close>: \<^verbatim>\<open>tdlmProposeTree(tree, Exp[m], ctr, step)\<close>,
    which stages a proposal in the tree, draws from the generator and returns the
    structural part of the log ratio; \<open>step\<close> is \<open>0\<close> for grow, \<open>1\<close> for prune and
    \<open>2\<close> for change;
  \<^item> \<open>ext_isProposed\<close>: \<^verbatim>\<open>tree->isProposed()\<close>;
  \<^item> \<open>ext_switchExposure tree newExp\<close>: the copy \<^verbatim>\<open>new Node(*tree)\<close> after
    \<^verbatim>\<open>setUpdate(1)\<close> and \<^verbatim>\<open>Exp[newExp]->updateNodeVals(nt)\<close> on each of its terminal nodes;
  \<^item> \<open>ext_accept\<close>, \<open>ext_reject\<close>, \<open>ext_replaceNodeVals\<close>: \<^verbatim>\<open>tree->accept()\<close>,
    \<^verbatim>\<open>tree->reject()\<close>, \<^verbatim>\<open>tree->replaceNodeVals(newTree)\<close>;
  \<^item> \<open>ext_tempV_rows\<close>, \<open>ext_set_tempV\<close>: the row count of \<^verbatim>\<open>tree->nodevals->tempV\<close> and the
    assignment to it;
  \<^item> \<open>ext_posterior\<close>: the second part of \<^verbatim>\<open>mixMHR\<close>, see above;
  \<^item> \<open>ext_tdlmModelEst\<close>: \<^verbatim>\<open>tdlmModelEst(ctr)\<close>, the refit of the nuisance parameters;
  \<^item> \<open>ext_uninit_ratio b t\<close>: the content of the local variable \<^verbatim>\<open>ratio\<close> of
    \<^verbatim>\<open>tdlmmTreeMCMC\<close> at its declaration \<^verbatim>\<open>double stepMhr, ratio;\<close>, which has no
    initialiser, in the call for tree pair \<open>t\<close> of sweep \<open>b\<close>;
  \<^item> \<open>ext_Eigen_sum\<close>: \<^verbatim>\<open>probs.sum()\<close> of the Eigen library, the total that
    \<^verbatim>\<open>sampleInt(ctr->expProb)\<close> takes of its argument; Eigen adds the entries in an order
    of its own, and the rounding of the total is Eigen's.
\<close>

record ('t, 'g) ext =
  ext_listTerminal :: "'t \<Rightarrow> NodeVals list"
  ext_listTerminal1 :: "'t \<Rightarrow> NodeVals list"
  ext_tdlmProposeTree :: "'t \<Rightarrow> nat \<Rightarrow> tdlmCtr \<Rightarrow> nat \<Rightarrow> 'g \<Rightarrow> (real \<times> 't) \<times> 'g"
  ext_isProposed :: "'t \<Rightarrow> bool"
  ext_switchExposure :: "'t \<Rightarrow> nat \<Rightarrow> 't"
  ext_accept :: "'t \<Rightarrow> 't"
  ext_reject :: "'t \<Rightarrow> 't"
  ext_replaceNodeVals :: "'t \<Rightarrow> 't \<Rightarrow> 't"
  ext_tempV_rows :: "'t \<Rightarrow> nat"
  ext_set_tempV :: "'t \<Rightarrow> mat \<Rightarrow> 't"
  ext_posterior :: "tdlmCtr \<Rightarrow> design \<Rightarrow> vec \<Rightarrow> 't \<Rightarrow> bool \<Rightarrow> 'g \<Rightarrow> posterior \<times> 'g"
  ext_tdlmModelEst :: "tdlmCtr \<Rightarrow> 'g \<Rightarrow> tdlmCtr \<times> 'g"
  ext_uninit_ratio :: "int \<Rightarrow> nat \<Rightarrow> real"
  ext_Eigen_sum :: "vec \<Rightarrow> real"

subsection \<open>mixMHR\<close>

text \<open>
  The design matrix, the posterior and the packaging of the draws into \<^verbatim>\<open>out\<close>.
  \<^verbatim>\<open>out.drawMix\<close> and \<^verbatim>\<open>out.mixT2\<close> are assigned with an interaction only; they are read
  with an interaction only, and are empty and zero here otherwise.
\<close>

definition mixMHR ::
  "('t, 'g) ext \<Rightarrow> NodeVals list \<Rightarrow> NodeVals list \<Rightarrow> tdlmCtr \<Rightarrow> vec \<Rightarrow>
   real \<Rightarrow> real \<Rightarrow> real \<Rightarrow> real \<Rightarrow> 't \<Rightarrow> bool \<Rightarrow> 'g \<Rightarrow> treeMHR \<times> 'g" where
  "mixMHR E nodes1 nodes2 ctr ZtR treeVar m1Var m2Var mixVar tree newTree g =
     (let pX1 = length nodes1;
          pX2 = length nodes2;
          interaction = (mixVar \<noteq> 0);
          pXd = pX1 + pX2 + (if interaction then pX1 * pX2 else 0);
          d = mixMHR_design ctr nodes1 nodes2 treeVar m1Var m2Var mixVar;
          (p, g') = ext_posterior E ctr d ZtR tree newTree g;
          ThetaDraw = post_ThetaDraw p;
          draw1 = take pX1 ThetaDraw;
          draw2 = take pX2 (drop pX1 ThetaDraw);
          drawMix = (if interaction
                     then drop (length ThetaDraw - (pXd - pX1 - pX2)) ThetaDraw else [])
      in (\<lparr>mhr_Xd = Xd d, mhr_tempV = post_tempV p, mhr_drawAll = ThetaDraw,
           mhr_draw1 = draw1, mhr_draw2 = draw2, mhr_drawMix = drawMix,
           mhr_term1T2 = dotv draw1 draw1, mhr_term2T2 = dotv draw2 draw2,
           mhr_mixT2 = (if interaction then dotv drawMix drawMix else 0),
           mhr_nTerm1 = real pX1, mhr_nTerm2 = real pX2,
           mhr_beta = post_beta p, mhr_logVThetaChol = post_logVThetaChol p,
           mhr_pXd = pXd\<rparr>, g'))"

subsection \<open>tdlmmTreeMCMC: the tree-pair step\<close>

text \<open>
  \<open>pair_mixVar ctr a b\<close> is the interaction scale of the exposures \<open>a\<close> and \<open>b\<close>:
  \<^verbatim>\<open>muMix(b, a)\<close> or \<^verbatim>\<open>muMix(a, b)\<close>, lower triangle, when
  \<^verbatim>\<open>(ctr->interaction) && ((ctr->interaction == 2) || (a != b))\<close>, and \<open>0\<close> otherwise. The
  source writes this out three times.
\<close>

definition pair_mixVar :: "tdlmCtr \<Rightarrow> nat \<Rightarrow> nat \<Rightarrow> real" where
  "pair_mixVar ctr a b =
     (if ctr_interaction ctr \<noteq> 0 \<and> (ctr_interaction ctr = 2 \<or> a \<noteq> b)
      then (if a \<le> b then ctr_muMix ctr b a else ctr_muMix ctr a b)
      else 0)"

text \<open>
  The two halves of \<^verbatim>\<open>tdlmmTreeMCMC\<close> choose and stage a move by the same code, on
  \<^verbatim>\<open>tree1\<close> with \<^verbatim>\<open>term1\<close>, \<^verbatim>\<open>m1\<close>, \<^verbatim>\<open>m2\<close> and on \<^verbatim>\<open>tree2\<close> with \<^verbatim>\<open>term2\<close>, \<^verbatim>\<open>m2\<close>, \<^verbatim>\<open>m1\<close>.
  \<open>propose\<close> is that code, from \<^verbatim>\<open>sampleInt(ctr->stepProb, 1)\<close> to the end of the
  \<^verbatim>\<open>if (step < 3) ... else ...\<close>; its result holds the locals it assigns. \<open>None\<close> is a
  \<^verbatim>\<open>sampleInt\<close> that read past the end of its vector.
\<close>

record 't proposal =
  p_tree :: 't
  p_step :: nat
  p_stepMhr :: real
  p_success :: nat
  p_newExp :: nat
  p_newExpVar :: real
  p_newMixVar :: real
  p_newTerm :: "NodeVals list"
  p_newTree :: "'t option"

definition propose ::
  "('t, 'g) ext \<Rightarrow> 'g sampler \<Rightarrow> tdlmCtr \<Rightarrow> 't \<Rightarrow> NodeVals list \<Rightarrow> nat \<Rightarrow> nat \<Rightarrow>
   real \<Rightarrow> real \<Rightarrow> 'g \<Rightarrow> ('t proposal \<times> 'g) option" where
  "propose E S ctr tree term m m' mVar mixVar g =
     (case sampleInt S (ctr_stepProb ctr) 1 g of
        (None, g1) \<Rightarrow> None
      | (Some drawn, g1) \<Rightarrow>
          let step = (if length term = 1 \<and> drawn < 3 then 0 else drawn) in
          if step < 3 then
            (let ((stepMhr, tree'), g2) = ext_tdlmProposeTree E tree m ctr step g1
             in Some (\<lparr>p_tree = tree', p_step = step, p_stepMhr = stepMhr,
                       p_success = (if ext_isProposed E tree' then 1 else 0),
                       p_newExp = m, p_newExpVar = mVar, p_newMixVar = mixVar,
                       p_newTerm = ext_listTerminal1 E tree', p_newTree = None\<rparr>, g2))
          else
            (case sampleInt_Eigen S (ext_Eigen_sum E) (ctr_expProb ctr) g1 of
               (None, g2) \<Rightarrow> None
             | (Some newExp, g2) \<Rightarrow>
                 if newExp \<noteq> m then
                   (let newTree = ext_switchExposure E tree newExp
                    in Some (\<lparr>p_tree = tree, p_step = step, p_stepMhr = 0, p_success = 1,
                              p_newExp = newExp, p_newExpVar = ctr_muExp ctr ! newExp,
                              p_newMixVar = pair_mixVar ctr newExp m',
                              p_newTerm = ext_listTerminal E newTree,
                              p_newTree = Some newTree\<rparr>, g2))
                 else
                   Some (\<lparr>p_tree = tree, p_step = step, p_stepMhr = 0, p_success = 0,
                           p_newExp = newExp, p_newExpVar = mVar, p_newMixVar = mixVar,
                           p_newTerm = [], p_newTree = None\<rparr>, g2)))"

text \<open>
  The locals of \<^verbatim>\<open>tdlmmTreeMCMC\<close> that live across its three parts, with the two trees.
\<close>

record 't pair_state =
  ps_tree1 :: 't
  ps_tree2 :: 't
  ps_m1 :: nat
  ps_m2 :: nat
  ps_m1Var :: real
  ps_m2Var :: real
  ps_mixVar :: real
  ps_term1 :: "NodeVals list"
  ps_term2 :: "NodeVals list"
  ps_mhr0 :: treeMHR
  ps_RtR :: real
  ps_RtZVgZtR :: real
  ps_ratio :: real

text \<open>
  Of the log \<^verbatim>\<open>tdlmLog\<close> the model keeps the accept/reject trace \<^verbatim>\<open>TreeAccept\<close>. The
  records of the terminal-node effects (\<^verbatim>\<open>DLMexp\<close>, \<^verbatim>\<open>MIXexp\<close>) and of the recorded
  parameters are appended to logs that the sampler never reads; they are not modelled.
\<close>

record tdlmLog =
  dgn_TreeAccept :: "real list list"

text \<open>
  Tree 1, from \<^verbatim>\<open>if (success)\<close>: the candidate's \<^verbatim>\<open>mixMHR\<close>, the log ratio, the uniform
  draw, and accept or reject. The result is the new \<^verbatim>\<open>success\<close>, the locals and the
  generator state.
\<close>

definition accept_reject1 ::
  "('t, 'g) ext \<Rightarrow> 'g sampler \<Rightarrow> tdlmCtr \<Rightarrow> vec \<Rightarrow> real \<Rightarrow> 't proposal \<Rightarrow>
   't pair_state \<Rightarrow> 'g \<Rightarrow> nat \<times> 't pair_state \<times> 'g" where
  "accept_reject1 E S ctr ZtR treeVar p ps g =
     (let mhr0 = ps_mhr0 ps;
          m1Var = ps_m1Var ps;
          mixVar = ps_mixVar ps;
          newExpVar = p_newExpVar p;
          newMixVar = p_newMixVar p;
          stepMhr = p_stepMhr p;
          (mhr, g1) = mixMHR E (p_newTerm p) (ps_term2 ps) ctr ZtR treeVar
                        newExpVar (ps_m2Var ps) newMixVar (ps_tree1 ps) True g;
          weighted = (ctr_binomial ctr \<or> ctr_zinb ctr);
          fresh = (\<not> weighted \<and> ps_RtR ps < 0);
          RtR = (if fresh then dotv (ctr_R ctr) (ctr_R ctr) else ps_RtR ps);
          RtZVgZtR = (if fresh then dotv ZtR (selfadjoint_lower_vec (ctr_Vg ctr) ZtR)
                      else ps_RtZVgZtR ps);
          ratio0 =
            (if weighted then
               stepMhr +
               mhr_logVThetaChol mhr - mhr_logVThetaChol mhr0 +
               0.5 * (mhr_beta mhr - mhr_beta mhr0) -
               (0.5 * ((ln (treeVar * newExpVar) * mhr_nTerm1 mhr) -
                       (ln (treeVar * m1Var) * mhr_nTerm1 mhr0)))
             else
               stepMhr +
               mhr_logVThetaChol mhr - mhr_logVThetaChol mhr0 -
               (0.5 * (real (ctr_n ctr) + 1.0) *
                 (ln (0.5 * (RtR - RtZVgZtR - mhr_beta mhr) + ctr_xiInvSigma2 ctr) -
                  ln (0.5 * (RtR - RtZVgZtR - mhr_beta mhr0) + ctr_xiInvSigma2 ctr))) -
               (0.5 * ((ln (treeVar * newExpVar) * mhr_nTerm1 mhr) -
                       (ln (treeVar * m1Var) * mhr_nTerm1 mhr0))));
          ratio1 = (if newMixVar \<noteq> 0
                    then ratio0 - 0.5 * ln (treeVar * newMixVar) * mhr_nTerm1 mhr * mhr_nTerm2 mhr0
                    else ratio0);
          ratio = (if mixVar \<noteq> 0
                   then ratio1 + 0.5 * ln (treeVar * mixVar) * mhr_nTerm1 mhr0 * mhr_nTerm2 mhr0
                   else ratio1);
          (u, g2) = S (Runif 0 1) g1;
          ps' = ps\<lparr>ps_RtR := RtR, ps_RtZVgZtR := RtZVgZtR, ps_ratio := ratio\<rparr>
      in if ln u < ratio then
           (let switch = (p_step p = 3);
                tree1a = (if switch
                          then (case p_newTree p of
                                  Some newTree \<Rightarrow> ext_replaceNodeVals E (ps_tree1 ps) newTree
                                | None \<Rightarrow> ps_tree1 ps)
                          else ext_accept E (ps_tree1 ps));
                tree1b = (if \<not> ctr_binomial ctr \<and> \<not> ctr_zinb ctr
                          then ext_set_tempV E tree1a (mhr_tempV mhr) else tree1a)
            in (2, ps'\<lparr>ps_mhr0 := mhr,
                       ps_m1 := (if switch then p_newExp p else ps_m1 ps),
                       ps_m1Var := (if switch then newExpVar else m1Var),
                       ps_mixVar := (if switch then newMixVar else mixVar),
                       ps_tree1 := tree1b,
                       ps_term1 := ext_listTerminal E tree1b\<rparr>, g2))
         else (1, ps'\<lparr>ps_tree1 := ext_reject E (ps_tree1 ps)\<rparr>, g2))"

text \<open>
  Tree 1, whole: the proposal, \<^verbatim>\<open>mhr0\<close>, accept or reject, and the row of \<^verbatim>\<open>TreeAccept\<close>.
\<close>

definition update_tree1 ::
  "('t, 'g) ext \<Rightarrow> 'g sampler \<Rightarrow> tdlmCtr \<Rightarrow> vec \<Rightarrow> real \<Rightarrow> 't pair_state \<Rightarrow> tdlmLog \<Rightarrow> 'g \<Rightarrow>
   ('t pair_state \<times> tdlmLog \<times> 'g) option" where
  "update_tree1 E S ctr ZtR treeVar ps dgn g =
     (case propose E S ctr (ps_tree1 ps) (ps_term1 ps) (ps_m1 ps) (ps_m2 ps)
             (ps_m1Var ps) (ps_mixVar ps) g of
        None \<Rightarrow> None
      | Some (p, g1) \<Rightarrow>
          let tree1 = p_tree p;
              (mhr0, g2) = mixMHR E (ps_term1 ps) (ps_term2 ps) ctr ZtR treeVar
                             (ps_m1Var ps) (ps_m2Var ps) (ps_mixVar ps) tree1
                             (ext_tempV_rows E tree1 = 0) g1;
              ps0 = ps\<lparr>ps_tree1 := tree1, ps_mhr0 := mhr0\<rparr>;
              (success, ps1, g3) =
                (if p_success p \<noteq> 0 then accept_reject1 E S ctr ZtR treeVar p ps0 g2
                 else if p_step p < 3 then (0, ps0\<lparr>ps_tree1 := ext_reject E tree1\<rparr>, g2)
                 else (0, ps0, g2));
              dgn' = (if ctr_diagnostics ctr
                      then dgn\<lparr>dgn_TreeAccept := dgn_TreeAccept dgn @
                             [[1, real (p_step p), real success, real (ps_m1 ps1),
                               real (length (ps_term1 ps1)), p_stepMhr p, ps_ratio ps1]]\<rparr>
                      else dgn)
          in Some (ps1, dgn', g3))"

text \<open>Tree 2 likewise; \<^verbatim>\<open>mhr0\<close> is the one tree 1 left.\<close>

definition accept_reject2 ::
  "('t, 'g) ext \<Rightarrow> 'g sampler \<Rightarrow> tdlmCtr \<Rightarrow> vec \<Rightarrow> real \<Rightarrow> 't proposal \<Rightarrow>
   't pair_state \<Rightarrow> 'g \<Rightarrow> nat \<times> 't pair_state \<times> 'g" where
  "accept_reject2 E S ctr ZtR treeVar p ps g =
     (let mhr0 = ps_mhr0 ps;
          m2Var = ps_m2Var ps;
          mixVar = ps_mixVar ps;
          newExpVar = p_newExpVar p;
          newMixVar = p_newMixVar p;
          stepMhr = p_stepMhr p;
          (mhr, g1) = mixMHR E (ps_term1 ps) (p_newTerm p) ctr ZtR treeVar
                        (ps_m1Var ps) newExpVar newMixVar (ps_tree1 ps) True g;
          weighted = (ctr_binomial ctr \<or> ctr_zinb ctr);
          fresh = (\<not> weighted \<and> ps_RtR ps < 0);
          RtR = (if fresh then dotv (ctr_R ctr) (ctr_R ctr) else ps_RtR ps);
          RtZVgZtR = (if fresh then dotv ZtR (selfadjoint_lower_vec (ctr_Vg ctr) ZtR)
                      else ps_RtZVgZtR ps);
          ratio0 =
            (if weighted then
               stepMhr + mhr_logVThetaChol mhr - mhr_logVThetaChol mhr0 +
               0.5 * (mhr_beta mhr - mhr_beta mhr0) -
               (0.5 * ((ln (treeVar * newExpVar) * mhr_nTerm2 mhr) -
                       (ln (treeVar * m2Var) * mhr_nTerm2 mhr0)))
             else
               stepMhr + mhr_logVThetaChol mhr - mhr_logVThetaChol mhr0 -
               (0.5 * (real (ctr_n ctr) + 1.0) *
                 (ln (0.5 * (RtR - RtZVgZtR - mhr_beta mhr) + ctr_xiInvSigma2 ctr) -
                  ln (0.5 * (RtR - RtZVgZtR - mhr_beta mhr0) + ctr_xiInvSigma2 ctr))) -
               (0.5 * ((ln (treeVar * newExpVar) * mhr_nTerm2 mhr) -
                       (ln (treeVar * m2Var) * mhr_nTerm2 mhr0))));
          ratio1 = (if newMixVar \<noteq> 0
                    then ratio0 - 0.5 * ln (treeVar * newMixVar) * mhr_nTerm1 mhr0 * mhr_nTerm2 mhr
                    else ratio0);
          ratio = (if mixVar \<noteq> 0
                   then ratio1 + 0.5 * ln (treeVar * mixVar) * mhr_nTerm1 mhr0 * mhr_nTerm2 mhr0
                   else ratio1);
          (u, g2) = S (Runif 0 1) g1;
          ps' = ps\<lparr>ps_RtR := RtR, ps_RtZVgZtR := RtZVgZtR, ps_ratio := ratio\<rparr>
      in if ln u < ratio then
           (let switch = (p_step p = 3);
                tree2a = (if switch
                          then (case p_newTree p of
                                  Some newTree \<Rightarrow> ext_replaceNodeVals E (ps_tree2 ps) newTree
                                | None \<Rightarrow> ps_tree2 ps)
                          else ext_accept E (ps_tree2 ps));
                tree1a = (if \<not> ctr_binomial ctr \<and> \<not> ctr_zinb ctr
                          then ext_set_tempV E (ps_tree1 ps) (mhr_tempV mhr) else ps_tree1 ps)
            in (2, ps'\<lparr>ps_mhr0 := mhr,
                       ps_m2 := (if switch then p_newExp p else ps_m2 ps),
                       ps_m2Var := (if switch then newExpVar else m2Var),
                       ps_mixVar := (if switch then newMixVar else mixVar),
                       ps_tree1 := tree1a,
                       ps_tree2 := tree2a,
                       ps_term2 := ext_listTerminal E tree2a\<rparr>, g2))
         else (1, ps'\<lparr>ps_tree2 := ext_reject E (ps_tree2 ps)\<rparr>, g2))"

definition update_tree2 ::
  "('t, 'g) ext \<Rightarrow> 'g sampler \<Rightarrow> tdlmCtr \<Rightarrow> vec \<Rightarrow> real \<Rightarrow> 't pair_state \<Rightarrow> tdlmLog \<Rightarrow> 'g \<Rightarrow>
   ('t pair_state \<times> tdlmLog \<times> 'g) option" where
  "update_tree2 E S ctr ZtR treeVar ps dgn g =
     (case propose E S ctr (ps_tree2 ps) (ps_term2 ps) (ps_m2 ps) (ps_m1 ps)
             (ps_m2Var ps) (ps_mixVar ps) g of
        None \<Rightarrow> None
      | Some (p, g1) \<Rightarrow>
          let ps0 = ps\<lparr>ps_tree2 := p_tree p\<rparr>;
              (success, ps1, g2) =
                (if p_success p \<noteq> 0 then accept_reject2 E S ctr ZtR treeVar p ps0 g1
                 else if p_step p < 3 then (0, ps0\<lparr>ps_tree2 := ext_reject E (p_tree p)\<rparr>, g1)
                 else (0, ps0, g1));
              dgn' = (if ctr_diagnostics ctr
                      then dgn\<lparr>dgn_TreeAccept := dgn_TreeAccept dgn @
                             [[2, real (p_step p), real success, real (ps_m2 ps1),
                               real (length (ps_term2 ps1)), p_stepMhr p, ps_ratio ps1]]\<rparr>
                      else dgn)
          in Some (ps1, dgn', g2))"

text \<open>
  \<open>grow_only E\<close> is \<open>E\<close> with a \<^verbatim>\<open>tdlmProposeTree\<close> that does what \<open>E\<close>'s does for grow,
  whatever step it is asked for: a piece of the sampler that runs with \<open>grow_only E\<close> as
  it does with \<open>E\<close> has asked for no other move of the tree than grow.
\<close>

definition grow_only :: "('t, 'g) ext \<Rightarrow> ('t, 'g) ext" where
  "grow_only E =
     E\<lparr>ext_tdlmProposeTree := (\<lambda>tree m ctr step. ext_tdlmProposeTree E tree m ctr 0)\<rparr>"

text \<open>
  \<^verbatim>\<open>treeMHR mhr0, mhr;\<close> as declared; \<^verbatim>\<open>mhr0\<close> is assigned by tree 1 before any read.
\<close>

definition mhr_default :: treeMHR where
  "mhr_default =
     \<lparr>mhr_Xd = [], mhr_tempV = [], mhr_drawAll = [], mhr_draw1 = [], mhr_draw2 = [],
      mhr_drawMix = [], mhr_term1T2 = 0, mhr_term2T2 = 0, mhr_mixT2 = 0, mhr_nTerm1 = 0,
      mhr_nTerm2 = 0, mhr_beta = 0, mhr_logVThetaChol = 0, mhr_pXd = 0\<rparr>"

text \<open>\<^verbatim>\<open>v(i) += d\<close> and \<^verbatim>\<open>M(i, j) += d\<close>.\<close>

definition vinc :: "vec \<Rightarrow> nat \<Rightarrow> real \<Rightarrow> vec" where
  "vinc v i d = v[i := v ! i + d]"

definition minc :: "(nat \<Rightarrow> nat \<Rightarrow> real) \<Rightarrow> nat \<Rightarrow> nat \<Rightarrow> real \<Rightarrow> (nat \<Rightarrow> nat \<Rightarrow> real)" where
  "minc M i j d = M(i := (M i)(j := M i j + d))"

text \<open>
  The last part, \<^verbatim>\<open>Update variance and residuals\<close>: the only writes of
  \<^verbatim>\<open>tdlmmTreeMCMC\<close> to \<^verbatim>\<open>ctr\<close>. \<^verbatim>\<open>rHalfCauchyFC\<close> is called with three arguments, its
  \<^verbatim>\<open>yInv\<close> is null. The source declares \<^verbatim>\<open>int totTerm\<close> and fills it from
  \<^verbatim>\<open>mhr0.nTerm1\<close> and \<^verbatim>\<open>mhr0.nTerm2\<close>, which \<^verbatim>\<open>mixMHR\<close> sets to \<^verbatim>\<open>double(pX1)\<close> and
  \<^verbatim>\<open>double(pX2)\<close>: the conversion to \<^verbatim>\<open>int\<close> changes no value, and the model keeps the
  count as a \<open>real\<close>.
\<close>

definition update_variance_residuals ::
  "'g sampler \<Rightarrow> nat \<Rightarrow> 't pair_state \<Rightarrow> tdlmCtr \<Rightarrow> 'g \<Rightarrow> tdlmCtr \<times> 'g" where
  "update_variance_residuals S t ps ctr g =
     (let mhr0 = ps_mhr0 ps;
          m1 = ps_m1 ps; m2 = ps_m2 ps;
          m1Var = ps_m1Var ps; m2Var = ps_m2Var ps; mixVar = ps_mixVar ps;
          tauT2 = mhr_term1T2 mhr0 / m1Var + mhr_term2T2 mhr0 / m2Var
                  + (if mixVar \<noteq> 0 then mhr_mixT2 mhr0 / mixVar else 0);
          totTerm = mhr_nTerm1 mhr0 + mhr_nTerm2 mhr0
                  + (if mixVar \<noteq> 0 then mhr_nTerm1 mhr0 * mhr_nTerm2 mhr0 else 0);
          (tau, g') =
            (if ctr_shrinkage ctr > 1
             then (let (x2, yInv, g') = rHalfCauchyFC S (ctr_tau ctr ! t) totTerm
                                          (tauT2 / (ctr_sigma2 ctr * ctr_nu ctr)) None g
                   in ((ctr_tau ctr)[t := x2], g'))
             else (ctr_tau ctr, g));
          ctr1 = ctr\<lparr>ctr_tau := tau,
                     ctr_nTerm := (ctr_nTerm ctr)[t := mhr_nTerm1 mhr0],
                     ctr_nTerm2 := (ctr_nTerm2 ctr)[t := mhr_nTerm2 mhr0],
                     ctr_tree1Exp := (ctr_tree1Exp ctr)[t := m1],
                     ctr_tree2Exp := (ctr_tree2Exp ctr)[t := m2],
                     ctr_expCount := vinc (vinc (ctr_expCount ctr) m1 1) m2 1,
                     ctr_expInf := vinc (vinc (ctr_expInf ctr) m1 (tau ! t)) m2 (tau ! t),
                     ctr_totTermExp :=
                       vinc (vinc (ctr_totTermExp ctr) m1 (mhr_nTerm1 mhr0)) m2 (mhr_nTerm2 mhr0),
                     ctr_sumTermT2Exp :=
                       vinc (vinc (ctr_sumTermT2Exp ctr) m1 (mhr_term1T2 mhr0 / tau ! t))
                         m2 (mhr_term2T2 mhr0 / tau ! t)\<rparr>;
          (r, c) = (if m1 \<le> m2 then (m2, m1) else (m1, m2));
          ctr2 = (if mixVar \<noteq> 0
                  then ctr1\<lparr>ctr_mixCount := minc (ctr_mixCount ctr1) r c 1,
                            ctr_totTermMix :=
                              minc (ctr_totTermMix ctr1) r c (mhr_nTerm1 mhr0 * mhr_nTerm2 mhr0),
                            ctr_sumTermT2Mix :=
                              minc (ctr_sumTermT2Mix ctr1) r c (mhr_mixT2 mhr0 / tau ! t),
                            ctr_mixInf := minc (ctr_mixInf ctr1) r c (tau ! t)\<rparr>
                  else ctr1)
      in (ctr2\<lparr>ctr_Rmat := (ctr_Rmat ctr2)[t := mat_vec (ctr_n ctr2) (mhr_Xd mhr0)
                                                   (mhr_drawAll mhr0)]\<rparr>, g'))"

definition tdlmmTreeMCMC ::
  "('t, 'g) ext \<Rightarrow> 'g sampler \<Rightarrow> nat \<Rightarrow> 't \<Rightarrow> 't \<Rightarrow> tdlmCtr \<Rightarrow> tdlmLog \<Rightarrow> 'g \<Rightarrow>
   ('t \<times> 't \<times> tdlmCtr \<times> tdlmLog \<times> 'g) option" where
  "tdlmmTreeMCMC E S t tree1 tree2 ctr dgn g =
     (let treeVar = ctr_nu ctr * ctr_tau ctr ! t;
          m1 = ctr_tree1Exp ctr ! t;
          m2 = ctr_tree2Exp ctr ! t;
          ZtR = tmult (ctr_Zw ctr) (ctr_R ctr);
          ps = \<lparr>ps_tree1 = tree1, ps_tree2 = tree2, ps_m1 = m1, ps_m2 = m2,
                ps_m1Var = ctr_muExp ctr ! m1, ps_m2Var = ctr_muExp ctr ! m2,
                ps_mixVar = pair_mixVar ctr m1 m2,
                ps_term1 = ext_listTerminal E tree1, ps_term2 = ext_listTerminal E tree2,
                ps_mhr0 = mhr_default, ps_RtR = - 1.0, ps_RtZVgZtR = 0,
                ps_ratio = ext_uninit_ratio E (ctr_b ctr) t\<rparr>
      in case update_tree1 E S ctr ZtR treeVar ps dgn g of
           None \<Rightarrow> None
         | Some (ps1, dgn1, g1) \<Rightarrow>
             (case update_tree2 E S ctr ZtR treeVar ps1 dgn1 g1 of
                None \<Rightarrow> None
              | Some (ps2, dgn2, g2) \<Rightarrow>
                  let (ctr', g3) = update_variance_residuals S t ps2 ctr g2
                  in Some (ps_tree1 ps2, ps_tree2 ps2, ctr', dgn2, g3)))"

subsection \<open>tdlmm\_Cpp: one sweep of the sampler\<close>

text \<open>
  The state of the loop \<^verbatim>\<open>for (ctr->b = 1; ctr->b <= (ctr->iter + ctr->burn); (ctr->b)++)\<close>:
  the trees, the control state, the log and the generator. One sweep is the loop body
  without its \<^verbatim>\<open>Record\<close> block and progress mark, which write to the log and the
  console only.
\<close>

record ('t, 'g) mcmc =
  st_trees1 :: "'t list"
  st_trees2 :: "'t list"
  st_ctr :: tdlmCtr
  st_dgn :: tdlmLog
  st_rng :: 'g

text \<open>
  \<open>sweep_reset\<close>: the burn-in and thinning test and \<^verbatim>\<open>Reset the parameters\<close>.
  \<^verbatim>\<open>(ctr->Rmat).col(0)\<close> of a matrix without columns is out of range: \<open>None\<close>.
\<close>

definition sweep_reset :: "tdlmCtr \<Rightarrow> tdlmCtr option" where
  "sweep_reset ctr =
     (if ctr_Rmat ctr = [] then None
      else Some (ctr\<lparr>
        ctr_record := (if ctr_b ctr > ctr_burn ctr \<and> (ctr_b ctr - ctr_burn ctr) mod ctr_thin ctr = 0
                       then (ctr_b ctr - ctr_burn ctr) div ctr_thin ctr else 0),
        ctr_R := vadd (ctr_R ctr) (ctr_Rmat ctr ! 0),
        ctr_fhat := map (\<lambda>x. 0) (ctr_fhat ctr),
        ctr_totTerm := 0,
        ctr_sumTermT2 := 0,
        ctr_totTermExp := map (\<lambda>x. 0) (ctr_totTermExp ctr),
        ctr_sumTermT2Exp := map (\<lambda>x. 0) (ctr_sumTermT2Exp ctr),
        ctr_expCount := map (\<lambda>x. 0) (ctr_expCount ctr),
        ctr_mixCount := (\<lambda>i j. 0),
        ctr_expInf := map (\<lambda>x. 0) (ctr_expInf ctr),
        ctr_mixInf := (\<lambda>i j. 0),
        ctr_totTermMix := (if ctr_interaction ctr > 0 then (\<lambda>i j. 0) else ctr_totTermMix ctr),
        ctr_sumTermT2Mix := (if ctr_interaction ctr > 0 then (\<lambda>i j. 0)
                             else ctr_sumTermT2Mix ctr)\<rparr>))"

text \<open>
  \<open>tree_iter\<close> is the body of \<^verbatim>\<open>for (t = 0; t < ctr->nTrees; ++t)\<close> and \<open>tree_loop\<close> runs it
  over a list of indices: the loop is \<open>tree_loop E S [0..<nTrees]\<close>, and the state at the
  start of step \<open>t\<close> is the result of \<open>tree_loop E S [0..<t]\<close>.
\<close>

definition tree_iter ::
  "('t, 'g) ext \<Rightarrow> 'g sampler \<Rightarrow> nat \<Rightarrow> ('t, 'g) mcmc \<Rightarrow> ('t, 'g) mcmc option" where
  "tree_iter E S t st =
     (case tdlmmTreeMCMC E S t (st_trees1 st ! t) (st_trees2 st ! t) (st_ctr st) (st_dgn st)
             (st_rng st) of
        None \<Rightarrow> None
      | Some (tree1, tree2, ctr1, dgn1, g1) \<Rightarrow>
          let ctr2 = ctr1\<lparr>ctr_fhat := vadd (ctr_fhat ctr1) (ctr_Rmat ctr1 ! t)\<rparr>;
              ctr3 = (if t + 1 < ctr_nTrees ctr2
                      then ctr2\<lparr>ctr_R := vadd (ctr_R ctr2)
                                   (vsub (ctr_Rmat ctr2 ! (t + 1)) (ctr_Rmat ctr2 ! t))\<rparr>
                      else ctr2)
          in Some \<lparr>st_trees1 = (st_trees1 st)[t := tree1], st_trees2 = (st_trees2 st)[t := tree2],
                   st_ctr = ctr3, st_dgn = dgn1, st_rng = g1\<rparr>)"

fun tree_loop ::
  "('t, 'g) ext \<Rightarrow> 'g sampler \<Rightarrow> nat list \<Rightarrow> ('t, 'g) mcmc \<Rightarrow> ('t, 'g) mcmc option" where
  "tree_loop E S [] st = Some st"
| "tree_loop E S (t # ts) st =
     (case tree_iter E S t st of None \<Rightarrow> None | Some st' \<Rightarrow> tree_loop E S ts st')"

text \<open>
  \<open>sweep_precalc\<close>: \<^verbatim>\<open>Pre-calculations for control and variance\<close>; \<open>msum k M\<close> is
  \<^verbatim>\<open>M.sum()\<close> of a \<open>k\<close> by \<open>k\<close> matrix.
\<close>

definition msum :: "nat \<Rightarrow> (nat \<Rightarrow> nat \<Rightarrow> real) \<Rightarrow> real" where
  "msum k M = (\<Sum>i\<leftarrow>[0..<k]. \<Sum>j\<leftarrow>[0..<k]. M i j)"

definition sweep_precalc :: "tdlmCtr \<Rightarrow> tdlmCtr" where
  "sweep_precalc ctr =
     ctr\<lparr>ctr_R := vsub (ctr_Ystar ctr) (ctr_fhat ctr),
         ctr_sumTermT2 := sum_list (ctr_sumTermT2Exp ctr)
            + (if ctr_interaction ctr \<noteq> 0 then msum (ctr_nExp ctr) (ctr_sumTermT2Mix ctr) else 0),
         ctr_totTerm := sum_list (ctr_totTermExp ctr)
            + (if ctr_interaction ctr \<noteq> 0 then msum (ctr_nExp ctr) (ctr_totTermMix ctr) else 0)\<rparr>"

text \<open>
  \<open>sweep_shrinkage\<close>: the horseshoe draws of \<^verbatim>\<open>nu\<close>, \<^verbatim>\<open>muExp(i)\<close> and \<^verbatim>\<open>muMix(j, i)\<close>.
\<close>

definition mix_shrink ::
  "'g sampler \<Rightarrow> real \<Rightarrow> nat \<Rightarrow> nat \<Rightarrow> tdlmCtr \<times> 'g \<Rightarrow> tdlmCtr \<times> 'g" where
  "mix_shrink S sigmanu i j = (\<lambda>(ctr, g).
     if j > i \<or> ctr_interaction ctr = 2
     then (let (x2, yInv, g') = rHalfCauchyFC S (ctr_muMix ctr j i) (ctr_totTermMix ctr j i)
                                  (ctr_sumTermT2Mix ctr j i / sigmanu) None g
           in (ctr\<lparr>ctr_muMix := (ctr_muMix ctr)(j := (ctr_muMix ctr j)(i := x2))\<rparr>, g'))
     else (ctr, g))"

definition exposure_shrink ::
  "'g sampler \<Rightarrow> real \<Rightarrow> nat \<Rightarrow> tdlmCtr \<times> 'g \<Rightarrow> tdlmCtr \<times> 'g" where
  "exposure_shrink S sigmanu i = (\<lambda>(ctr, g).
     let (x2, yInv, g') = rHalfCauchyFC S (ctr_muExp ctr ! i) (ctr_totTermExp ctr ! i)
                            (ctr_sumTermT2Exp ctr ! i / sigmanu) None g;
         ctr' = ctr\<lparr>ctr_muExp := (ctr_muExp ctr)[i := x2]\<rparr>
     in if ctr_interaction ctr' \<noteq> 0
        then fold (mix_shrink S sigmanu i) [i..<ctr_nExp ctr'] (ctr', g')
        else (ctr', g'))"

definition sweep_shrinkage :: "'g sampler \<Rightarrow> tdlmCtr \<Rightarrow> 'g \<Rightarrow> tdlmCtr \<times> 'g" where
  "sweep_shrinkage S ctr g =
     (let (x2, yInv, g') = rHalfCauchyFC S (ctr_nu ctr) (ctr_totTerm ctr)
                             (ctr_sumTermT2 ctr / ctr_sigma2 ctr) None g;
          ctr' = ctr\<lparr>ctr_nu := x2\<rparr>;
          sigmanu = ctr_sigma2 ctr' * ctr_nu ctr'
      in if ctr_shrinkage ctr' = 3 \<or> ctr_shrinkage ctr' = 1
         then fold (exposure_shrink S sigmanu) [0..<ctr_nExp ctr'] (ctr', g')
         else (ctr', g'))"

text \<open>\<open>sweep_expProb\<close>: \<^verbatim>\<open>Update exposure selection probability\<close>.\<close>

definition sweep_expProb :: "'g sampler \<Rightarrow> tdlmCtr \<Rightarrow> 'g \<Rightarrow> tdlmCtr \<times> 'g" where
  "sweep_expProb S ctr g =
     (if ctr_b ctr > 1000 \<or> real_of_int (ctr_b ctr) > 0.5 * real_of_int (ctr_burn ctr)
      then (let (p, g') = rDirichlet S (map (\<lambda>c. c + ctr_modKappa ctr) (ctr_expCount ctr)) g
            in (ctr\<lparr>ctr_expProb := p\<rparr>, g'))
      else (ctr, g))"

text \<open>
  The sweep up to the update of the exposure-selection probabilities, and the sweep.
\<close>

definition sweep_before_expProb ::
  "('t, 'g) ext \<Rightarrow> 'g sampler \<Rightarrow> ('t, 'g) mcmc \<Rightarrow> ('t, 'g) mcmc option" where
  "sweep_before_expProb E S st =
     (case sweep_reset (st_ctr st) of
        None \<Rightarrow> None
      | Some ctr0 \<Rightarrow>
          (case tree_loop E S [0..<ctr_nTrees ctr0] (st\<lparr>st_ctr := ctr0\<rparr>) of
             None \<Rightarrow> None
           | Some st1 \<Rightarrow>
               let (ctr2, g2) = ext_tdlmModelEst E (sweep_precalc (st_ctr st1)) (st_rng st1);
                   (ctr3, g3) = sweep_shrinkage S ctr2 g2
               in Some (st1\<lparr>st_ctr := ctr3, st_rng := g3\<rparr>)))"

definition sweep :: "('t, 'g) ext \<Rightarrow> 'g sampler \<Rightarrow> ('t, 'g) mcmc \<Rightarrow> ('t, 'g) mcmc option" where
  "sweep E S st =
     (case sweep_before_expProb E S st of
        None \<Rightarrow> None
      | Some st1 \<Rightarrow>
          let (ctr', g') = sweep_expProb S (st_ctr st1) (st_rng st1)
          in Some (st1\<lparr>st_ctr := ctr', st_rng := g'\<rparr>))"

text \<open>
  Collaborators for running the model on concrete inputs: every tree has one terminal
  node, \<^verbatim>\<open>tdlmProposeTree\<close> stages no proposal and returns the number of the step it was
  asked for, every coefficient is drawn as \<open>1\<close>, and the total of the probabilities is
  exact. The argument is the content of the uninitialised \<^verbatim>\<open>ratio\<close>.
\<close>

definition example_ext :: "real \<Rightarrow> (unit, real list \<times> law list) ext" where
  "example_ext ratio0 =
     \<lparr>ext_listTerminal = (\<lambda>tree. [\<lparr>nv_X = [1, 1], nv_ZtX = [2]\<rparr>]),
      ext_listTerminal1 = (\<lambda>tree. [\<lparr>nv_X = [1, 1], nv_ZtX = [2]\<rparr>]),
      ext_tdlmProposeTree = (\<lambda>tree m ctr step g. ((real step, tree), g)),
      ext_isProposed = (\<lambda>tree. False),
      ext_switchExposure = (\<lambda>tree newExp. tree),
      ext_accept = (\<lambda>tree. tree),
      ext_reject = (\<lambda>tree. tree),
      ext_replaceNodeVals = (\<lambda>tree newTree. tree),
      ext_tempV_rows = (\<lambda>tree. 0),
      ext_set_tempV = (\<lambda>tree tempV. tree),
      ext_posterior = (\<lambda>ctr d ZtR tree newTree g.
         (\<lparr>post_tempV = [], post_ThetaDraw = replicate (length (Xd d)) 1,
           post_beta = 0, post_logVThetaChol = 0\<rparr>, g)),
      ext_tdlmModelEst = (\<lambda>ctr g. (ctr, g)),
      ext_uninit_ratio = (\<lambda>b t. ratio0),
      ext_Eigen_sum = sum_list\<rparr>"


text \<open>
  The locals of \<^verbatim>\<open>tdlmmTreeMCMC\<close> when it starts on tree pair \<open>0\<close> of the example
  configuration, with \<open>0\<close> in the uninitialised \<^verbatim>\<open>ratio\<close>.
\<close>

definition example_pair :: "unit pair_state" where
  "example_pair =
     \<lparr>ps_tree1 = (), ps_tree2 = (), ps_m1 = 0, ps_m2 = 1,
      ps_m1Var = 1, ps_m2Var = 1, ps_mixVar = 1,
      ps_term1 = [\<lparr>nv_X = [1, 1], nv_ZtX = [2]\<rparr>], ps_term2 = [\<lparr>nv_X = [1, 1], nv_ZtX = [2]\<rparr>],
      ps_mhr0 = mhr_default, ps_RtR = - 1, ps_RtZVgZtR = 0, ps_ratio = 0\<rparr>"


subsection \<open>Sums of columns\<close>

text \<open>
  \<open>vsum n cols\<close> is the sum of the vectors \<open>cols\<close>, each of \<open>n\<close> entries, and
  \<open>cols_except t cols\<close> the columns other than column \<open>t\<close>: the vocabulary of the
  residual invariant.
\<close>

definition vsum :: "nat \<Rightarrow> mat \<Rightarrow> vec" where
  "vsum n cols = fold (\<lambda>c acc. vadd acc c) cols (replicate n 0)"

definition cols_except :: "nat \<Rightarrow> mat \<Rightarrow> mat" where
  "cols_except t cols = take t cols @ drop (Suc t) cols"

subsection \<open>Usage counts and runs of draws\<close>

text \<open>
  \<open>usage_count ctr i\<close> is the number of trees whose exposure is \<open>i\<close>, the first and the
  second trees of the pairs alike, and \<open>draws S reqs g\<close> the variates that the sampler
  returns for the requests \<open>reqs\<close>, made in order from the generator state \<open>g\<close>, with the
  state they leave: the vocabulary of the update of the exposure-selection
  probabilities.
\<close>

definition usage_count :: "tdlmCtr \<Rightarrow> nat \<Rightarrow> nat" where
  "usage_count ctr i = count_list (ctr_tree1Exp ctr) i + count_list (ctr_tree2Exp ctr) i"

fun draws :: "'g sampler \<Rightarrow> law list \<Rightarrow> 'g \<Rightarrow> real list \<times> 'g" where
  "draws S [] g = ([], g)"
| "draws S (r # rs) g =
     (let (x, g1) = S r g; (xs, g2) = draws S rs g1 in (x # xs, g2))"

subsection \<open>States for running the model\<close>

text \<open>
  A state of the sweep for running the model on concrete inputs: two tree pairs, and a
  generator that answers eight requests, those of the loop over the tree pairs, with
  \<open>1/8\<close>.
\<close>

definition example_mcmc :: "(unit, real list \<times> law list) mcmc" where
  "example_mcmc =
     \<lparr>st_trees1 = [(), ()], st_trees2 = [(), ()], st_ctr = example_ctr,
      st_dgn = \<lparr>dgn_TreeAccept = []\<rparr>,
      st_rng = ([1/8, 1/8, 1/8, 1/8, 1/8, 1/8, 1/8, 1/8], [])\<rparr>"

text \<open>
  The same state with an answer for every request of a whole sweep: \<open>1/8\<close> for the
  eight of the loop over the tree pairs and the eight of the horseshoe draws, then \<open>1\<close>
  and \<open>3\<close> for the two Gamma variates of the exposure-selection probabilities.
\<close>

definition example_sweep :: "(unit, real list \<times> law list) mcmc" where
  "example_sweep =
     example_mcmc\<lparr>st_rng :=
       ([1/8, 1/8, 1/8, 1/8, 1/8, 1/8, 1/8, 1/8, 1/8, 1/8, 1/8, 1/8, 1/8, 1/8, 1/8, 1/8, 1, 3],
        [])\<rparr>"


section \<open>Properties of the set/vector utilities\<close>

subsection \<open>intersectAndDiff\<close>

lemma iad_loop_mset:
  "i < length origVec \<Longrightarrow> j < length newVec \<Longrightarrow>
   \<exists>iv dv. iad_loop origVec newVec i j intVec diffVec = Some (iv, dv) \<and>
     mset (iv @ dv) = mset intVec + mset diffVec + mset (drop i origVec)"
proof (induction origVec newVec i j intVec diffVec rule: iad_loop.induct)
  case (1 origVec newVec i j intVec diffVec)
  have dropi: "drop i origVec = origVec ! i # drop (Suc i) origVec"
    using "1.prems"(1) by (simp add: Cons_nth_drop_Suc)
  show ?case
  proof (cases "origVec ! i < newVec ! j")
    case lt: True
    show ?thesis
    proof (cases "i + 1 < length origVec")
      case True
      from "1.IH"(1)[OF _ lt True True "1.prems"(2)] "1.prems"
      obtain iv dv where
        "iad_loop origVec newVec (i + 1) j intVec (diffVec @ [origVec ! i]) = Some (iv, dv)"
        "mset (iv @ dv) = mset intVec + mset (diffVec @ [origVec ! i]) + mset (drop (i + 1) origVec)"
        by auto
      with lt True "1.prems" dropi show ?thesis
        by (subst iad_loop.simps) simp
    next
      case False
      with "1.prems" have "drop (Suc i) origVec = []" by simp
      with lt False "1.prems" dropi show ?thesis
        by (subst iad_loop.simps) simp
    qed
  next
    case nlt: False
    show ?thesis
    proof (cases "origVec ! i = newVec ! j")
      case eq: True
      show ?thesis
      proof (cases "j + 1 = length newVec")
        case True
        with nlt eq "1.prems" dropi show ?thesis
          by (subst iad_loop.simps) simp
      next
        case nj: False
        show ?thesis
        proof (cases "i + 1 < length origVec")
          case True
          from nj "1.prems"(2) have j1: "j + 1 < length newVec" by simp
          from "1.IH"(2)[OF _ nlt eq nj True True j1] "1.prems"
          obtain iv dv where
            "iad_loop origVec newVec (i + 1) (j + 1) (intVec @ [origVec ! i]) diffVec = Some (iv, dv)"
            "mset (iv @ dv) = mset (intVec @ [origVec ! i]) + mset diffVec + mset (drop (i + 1) origVec)"
            by auto
          with nlt eq nj True "1.prems" dropi show ?thesis
            by (subst iad_loop.simps) simp
        next
          case False
          with "1.prems" have "drop (Suc i) origVec = []" by simp
          with nlt eq nj False "1.prems" dropi show ?thesis
            by (subst iad_loop.simps) simp
        qed
      qed
    next
      case neq: False
      show ?thesis
      proof (cases "j + 1 = length newVec")
        case True
        with nlt neq "1.prems" show ?thesis
          by (subst iad_loop.simps) simp
      next
        case nj: False
        from nj "1.prems"(2) have j1: "j + 1 < length newVec" by simp
        from "1.IH"(3)[OF _ nlt neq nj "1.prems"(1) "1.prems"(1) j1] "1.prems"
        obtain iv dv where
          "iad_loop origVec newVec i (j + 1) intVec diffVec = Some (iv, dv)"
          "mset (iv @ dv) = mset intVec + mset diffVec + mset (drop i origVec)"
          by auto
        with nlt neq nj "1.prems" show ?thesis
          by (subst iad_loop.simps) simp
      qed
    qed
  qed
qed

text \<open>
  Claim C3. For all integer vectors \<open>origVec\<close> and \<open>newVec\<close> (sorted or not),
  \<open>intersectAndDiff\<close> returns a pair (intersection, difference), never indexing out of
  range, and the concatenation of the two, as a multiset, is \<open>origVec\<close>. For
  \<open>origVec = [1,2,3,4,5]\<close> and \<open>newVec = [2,4,6]\<close> the result is \<open>([2,4], [1,3,5])\<close>. When
  either input is empty, the intersection is empty and the difference is \<open>origVec\<close>.
\<close>

theorem intersectAndDiff_partitions_origVec:
  "(\<exists>intVec diffVec. intersectAndDiff origVec newVec = Some (intVec, diffVec) \<and>
       mset (intVec @ diffVec) = mset origVec) \<and>
   intersectAndDiff [1, 2, 3, 4, 5] [2, 4, 6] = Some ([2, 4], [1, 3, 5]) \<and>
   intersectAndDiff [] newVec = Some ([], []) \<and>
   intersectAndDiff origVec [] = Some ([], origVec)"
proof (intro conjI)
  show "\<exists>intVec diffVec. intersectAndDiff origVec newVec = Some (intVec, diffVec) \<and>
       mset (intVec @ diffVec) = mset origVec"
  proof (cases "origVec = [] \<or> newVec = []")
    case True
    then show ?thesis by (auto simp: intersectAndDiff_def)
  next
    case False
    then have "0 < length origVec" "0 < length newVec" by simp_all
    from iad_loop_mset[OF this, of "[]" "[]"] False show ?thesis
      by (simp add: intersectAndDiff_def)
  qed
  show "intersectAndDiff [1, 2, 3, 4, 5] [2, 4, 6] = Some ([2, 4], [1, 3, 5])"
    by (simp add: intersectAndDiff_def iad_loop.simps)
  show "intersectAndDiff [] newVec = Some ([], [])"
    by (simp add: intersectAndDiff_def)
  show "intersectAndDiff origVec [] = Some ([], origVec)"
    by (simp add: intersectAndDiff_def)
qed

subsection \<open>Double-precision addition\<close>

lemma powr2_int: "(2::real) powr real_of_int k = 2 powi k"
  by (rule powr_real_of_int') simp_all

lemma floor_log2_bounds:
  assumes "0 < x"
  shows "2 powi \<lfloor>log 2 x\<rfloor> \<le> x" "x < 2 powi (\<lfloor>log 2 x\<rfloor> + 1)"
proof -
  have "(1::real) < 2" by simp
  from floor_log_eq_powr_iff[THEN iffD1, OF assms this refl]
  show "2 powi \<lfloor>log 2 x\<rfloor> \<le> x" "x < 2 powi (\<lfloor>log 2 x\<rfloor> + 1)"
    by (simp_all only: powr2_int)
qed

lemma floor_log2_eq:
  assumes "0 < x" "2 powi k \<le> x" "x < 2 powi (k + 1)"
  shows "\<lfloor>log 2 x\<rfloor> = k"
proof -
  have "(1::real) < 2" by simp
  from assms(2,3) have "2 powr real_of_int k \<le> x \<and> x < 2 powr real_of_int (k + 1)"
    by (simp only: powr2_int)
  with floor_log_eq_powr_iff[THEN iffD2, OF assms(1) \<open>(1::real) < 2\<close>] show ?thesis .
qed

lemma round_even_bounds: "\<lfloor>q\<rfloor> \<le> round_even q" "round_even q \<le> \<lfloor>q\<rfloor> + 1"
  by (simp_all add: round_even_def Let_def)

lemma round_even_of_int: "round_even (of_int m) = m"
  by (simp add: round_even_def)

lemma round_even_ge: "of_int m \<le> q \<Longrightarrow> m \<le> round_even q"
proof -
  assume "of_int m \<le> q"
  then have "m \<le> \<lfloor>q\<rfloor>" by (simp add: le_floor_iff)
  with round_even_bounds(1)[of q] show ?thesis by linarith
qed

lemma round_even_le: "q \<le> of_int m \<Longrightarrow> round_even q \<le> m"
proof (cases "q = of_int m")
  case True
  then show ?thesis by (simp add: round_even_of_int)
next
  case False
  assume "q \<le> of_int m"
  with False have "q < of_int m" by simp
  then have "\<lfloor>q\<rfloor> < m" by (simp add: floor_less_iff)
  with round_even_bounds(2)[of q] show ?thesis by simp
qed

lemma ulp_exp_binade:
  assumes "2 powi k \<le> \<bar>x\<bar>" "\<bar>x\<bar> < 2 powi (k + 1)"
  shows "ulp_exp x = max k (- 1022) - 52"
proof -
  have "0 < (2::real) powi k" by simp
  with assms(1) have "0 < \<bar>x\<bar>" by linarith
  from floor_log2_eq[OF this assms] show ?thesis by (simp add: ulp_exp_def)
qed

lemma dbl_binade:
  assumes "2 powi k \<le> \<bar>x\<bar>" "\<bar>x\<bar> < 2 powi (k + 1)"
  shows "dbl x = of_int (round_even (x / 2 powi (max k (- 1022) - 52))) * 2 powi (max k (- 1022) - 52)"
proof -
  have "0 < (2::real) powi k" by simp
  with assms(1) have "0 < \<bar>x\<bar>" by linarith
  then have "x \<noteq> 0" by simp
  then show ?thesis by (simp add: dbl_def ulp_exp_binade[OF assms])
qed

lemma dbl_grid:
  assumes "x = of_int m * 2 powi e" "ulp_exp x \<le> e"
  shows "dbl x = x"
proof (cases "x = 0")
  case True
  then show ?thesis by (simp add: dbl_def)
next
  case False
  define u where "u = ulp_exp x"
  define d where "d = nat (e - u)"
  have e: "e = u + int d" using assms(2) by (simp add: d_def u_def)
  have p: "(2::real) powi e = 2 powi u * 2 ^ d"
    by (simp add: e power_int_add)
  have "x / 2 powi u = of_int (m * 2 ^ d)"
    by (simp add: assms(1) p)
  then have "round_even (x / 2 powi u) = m * 2 ^ d"
    by (simp only: round_even_of_int)
  then have "of_int (round_even (x / 2 powi u)) * 2 powi u = x"
    by (simp add: assms(1) p)
  with False show ?thesis
    by (simp add: dbl_def u_def)
qed

lemma dbl_0: "dbl 0 = 0"
  by (simp add: dbl_def)

lemma dbl_idem: "dbl (dbl x) = dbl x"
proof (cases "x = 0")
  case True
  then show ?thesis by (simp add: dbl_def)
next
  case False
  define k where "k = max \<lfloor>log 2 \<bar>x\<bar>\<rfloor> (- 1022)"
  define e where "e = k - 52"
  define m where "m = round_even (x / 2 powi e)"
  have ex: "ulp_exp x = e" by (simp add: ulp_exp_def e_def k_def)
  have y: "dbl x = of_int m * 2 powi e" using False by (simp add: dbl_def ex m_def)
  from False have "\<bar>x\<bar> < 2 powi (\<lfloor>log 2 \<bar>x\<bar>\<rfloor> + 1)" by (intro floor_log2_bounds) simp
  also have "\<dots> \<le> 2 powi (k + 1)" by (intro power_int_increasing) (simp_all add: k_def)
  also have "\<dots> = 2 ^ 53 * 2 powi e" by (simp add: e_def power_int_diff power_int_add)
  finally have q: "\<bar>x / 2 powi e\<bar> < 2 ^ 53" by (simp add: abs_divide field_simps)
  then have b: "x / 2 powi e \<le> 2 ^ 53" "- (2 ^ 53) \<le> x / 2 powi e" by linarith+
  have mb: "m \<le> 2 ^ 53" "- (2 ^ 53) \<le> m"
    unfolding m_def
    by (rule round_even_le, use b in simp, rule round_even_ge, use b in simp)
  show ?thesis
  proof (cases "\<bar>m\<bar> = 2 ^ 53")
    case True
    then have "m = 2 ^ 53 \<or> m = - (2 ^ 53)" by linarith
    then have "even m" by auto
    then have m2: "m = 2 * (m div 2)" by simp
    have "\<bar>dbl x\<bar> = 2 powi (k + 1)"
      using True by (simp add: y abs_mult e_def power_int_diff power_int_add) 
    then have "ulp_exp (dbl x) = max (k + 1) (- 1022) - 52"
      by (intro ulp_exp_binade) (simp_all add: power_int_add)
    also have "\<dots> = e + 1" by (simp add: e_def k_def)
    finally have u: "ulp_exp (dbl x) = e + 1" .
    from m2 have "real_of_int m = of_int (m div 2) * 2"
      by (metis mult.commute of_int_mult of_int_numeral)
    then have "dbl x = of_int (m div 2) * 2 powi (e + 1)"
      by (simp add: y power_int_add)
    from dbl_grid[OF this] u show ?thesis by simp
  next
    case False
    with mb have "\<bar>m\<bar> < 2 ^ 53" by (simp add: abs_if split: if_splits)
    show ?thesis
    proof (cases "m = 0")
      case True
      with y have "dbl x = 0" by simp
      then show ?thesis by (simp add: dbl_0)
    next
      case m0: False
      from \<open>\<bar>m\<bar> < 2 ^ 53\<close> have "\<bar>real_of_int m\<bar> < 2 ^ 53"
        by (metis of_int_abs of_int_less_numeral_power_cancel_iff)
      then have "\<bar>dbl x\<bar> < 2 ^ 53 * 2 powi e" by (simp add: y abs_mult)
      also have "\<dots> = 2 powi (k + 1)" by (simp add: e_def power_int_diff power_int_add)
      finally have lt: "\<bar>dbl x\<bar> < 2 powi (k + 1)" .
      from m0 have nz: "dbl x \<noteq> 0" by (simp add: y)
      have "\<lfloor>log 2 \<bar>dbl x\<bar>\<rfloor> \<le> k"
      proof (rule ccontr)
        assume "\<not> \<lfloor>log 2 \<bar>dbl x\<bar>\<rfloor> \<le> k"
        then have "k + 1 \<le> \<lfloor>log 2 \<bar>dbl x\<bar>\<rfloor>" by simp
        then have "(2::real) powi (k + 1) \<le> 2 powi \<lfloor>log 2 \<bar>dbl x\<bar>\<rfloor>"
          by (intro power_int_increasing) simp_all
        also have "\<dots> \<le> \<bar>dbl x\<bar>" using nz by (intro floor_log2_bounds) simp
        finally show False using lt by simp
      qed
      then have "ulp_exp (dbl x) \<le> e" by (simp add: ulp_exp_def e_def k_def)
      from dbl_grid[OF y this] show ?thesis .
    qed
  qed
qed

lemma dbl_nonneg: "0 \<le> t \<Longrightarrow> 0 \<le> dbl t"
proof -
  assume "0 \<le> t"
  then have "of_int 0 \<le> t / 2 powi ulp_exp t" by simp
  then have "0 \<le> round_even (t / 2 powi ulp_exp t)" by (rule round_even_ge)
  then show ?thesis by (simp add: dbl_def)
qed

lemma dbl_ge:
  assumes "0 \<le> s" "dbl s = s" "s \<le> t"
  shows "s \<le> dbl t"
proof (cases "s = 0")
  case True
  with assms dbl_nonneg[of t] show ?thesis by simp
next
  case False
  with assms have s: "0 < s" and t: "0 < t" by simp_all
  define ks where "ks = \<lfloor>log 2 s\<rfloor>"
  define kt where "kt = \<lfloor>log 2 t\<rfloor>"
  have kk: "ks \<le> kt" unfolding ks_def kt_def using s assms(3) by (intro floor_mono log_mono) simp_all
  have es: "ulp_exp s = max ks (- 1022) - 52" and et: "ulp_exp t = max kt (- 1022) - 52"
    using s t by (simp_all add: ulp_exp_def ks_def kt_def)
  show ?thesis
  proof (cases "ulp_exp s = ulp_exp t")
    case True
    define u where "u = ulp_exp s"
    define m where "m = round_even (s / 2 powi u)"
    from assms(2) s have sm: "of_int m * 2 powi u = s" by (simp add: dbl_def m_def u_def)
    have "real_of_int m = of_int m * 2 powi u / 2 powi u" by simp
    also have "\<dots> = s / 2 powi u" by (simp only: sm)
    also have "\<dots> \<le> t / 2 powi u" using assms(3) by (simp add: divide_right_mono)
    finally have "m \<le> round_even (t / 2 powi u)" by (rule round_even_ge)
    then have "of_int m * 2 powi u \<le> dbl t"
      using t True by (simp add: dbl_def u_def)
    with sm show ?thesis by simp
  next
    case False
    with kk es et have lt: "ks < kt" and kt: "- 1022 < kt" by auto
    then have e: "ulp_exp t = kt - 52" by (simp add: et)
    have "(2::real) powi kt \<le> t" unfolding kt_def using t by (rule floor_log2_bounds)
    moreover have "(2::real) powi kt = 2 ^ 52 * 2 powi (kt - 52)"
      by (simp add: power_int_diff)
    ultimately have "of_int (2 ^ 52) \<le> t / 2 powi ulp_exp t"
      by (simp add: e field_simps)
    then have "2 ^ 52 \<le> round_even (t / 2 powi ulp_exp t)" by (rule round_even_ge)
    then have "2 ^ 52 * 2 powi ulp_exp t \<le> dbl t"
      using t by (simp add: dbl_def)
    then have "2 powi kt \<le> dbl t"
      by (simp add: e \<open>(2::real) powi kt = 2 ^ 52 * 2 powi (kt - 52)\<close>)
    moreover have "s < 2 powi (ks + 1)" unfolding ks_def using s by (rule floor_log2_bounds)
    moreover have "(2::real) powi (ks + 1) \<le> 2 powi kt"
      using lt by (intro power_int_increasing) simp_all
    ultimately show ?thesis by linarith
  qed
qed

lemma dbl_dyadic_values:
  "dbl 1 = 1" "dbl (1/2) = 1/2" "dbl (1/4) = 1/4" "dbl (3/4) = 3/4"
  by (simp_all add: dbl_binade[of 0] dbl_binade[of "-1"] dbl_binade[of "-2"] round_even_def)

lemma dbl_decimal_values:
  "dbl (1/5) = 3602879701896397 / 2 ^ 54"
  "dbl (3/10) = 5404319552844595 / 2 ^ 54"
  "dbl (1/10) = 3602879701896397 / 2 ^ 55"
  by (simp_all add: dbl_binade[of "-3"] dbl_binade[of "-2"] dbl_binade[of "-4"] round_even_def)

subsection \<open>sampleInt\<close>

lemma scan_Some_iff:
  assumes "i < length probs" "s = run_sum probs i" "\<forall>k<i. run_sum probs k < u"
  shows "sampleInt_scan probs u s i = Some j \<longleftrightarrow>
     j < length probs \<and> u \<le> run_sum probs j \<and> (\<forall>k<j. run_sum probs k < u)"
  using assms
proof (induction probs u s i rule: sampleInt_scan.induct)
  case (1 probs u s i)
  show ?case
  proof (cases "s < u")
    case lt: True
    show ?thesis
    proof (cases "i + 1 < length probs")
      case True
      have s': "dbl (s + probs ! (i + 1)) = run_sum probs (i + 1)"
        using "1.prems"(2) by simp
      have all': "\<forall>k<i + 1. run_sum probs k < u"
        using "1.prems"(2,3) lt by (auto simp: less_Suc_eq)
      from "1.IH"[OF lt True True s' all'] lt True show ?thesis
        by (subst sampleInt_scan.simps) simp
    next
      case False
      have "\<not> (j < length probs \<and> u \<le> run_sum probs j \<and> (\<forall>k<j. run_sum probs k < u))"
      proof
        assume a: "j < length probs \<and> u \<le> run_sum probs j \<and> (\<forall>k<j. run_sum probs k < u)"
        with False "1.prems"(1) have "j \<le> i" by simp
        then consider "j < i" | "j = i" by linarith
        then show False
        proof cases
          case 1
          with "1.prems"(3) a show False by auto
        next
          case 2
          with "1.prems"(2) lt a show False by simp
        qed
      qed
      with lt False show ?thesis
        by (subst sampleInt_scan.simps) simp
    qed
  next
    case ge: False
    have "j = i \<longleftrightarrow> j < length probs \<and> u \<le> run_sum probs j \<and> (\<forall>k<j. run_sum probs k < u)"
    proof
      assume "j = i"
      with "1.prems" ge
      show "j < length probs \<and> u \<le> run_sum probs j \<and> (\<forall>k<j. run_sum probs k < u)"
        by simp
    next
      assume a: "j < length probs \<and> u \<le> run_sum probs j \<and> (\<forall>k<j. run_sum probs k < u)"
      show "j = i"
      proof (rule ccontr)
        assume "j \<noteq> i"
        then consider "j < i" | "i < j" by linarith
        then show False
        proof cases
          case 1
          with "1.prems"(3) a show False by auto
        next
          case 2
          with a have "run_sum probs i < u" by simp
          with ge "1.prems"(2) show False by simp
        qed
      qed
    qed
    with ge show ?thesis
      by (subst sampleInt_scan.simps) auto
  qed
qed

lemma scan_None_iff:
  assumes "i < length probs" "s = run_sum probs i" "\<forall>k<i. run_sum probs k < u"
  shows "sampleInt_scan probs u s i = None \<longleftrightarrow> (\<forall>k<length probs. run_sum probs k < u)"
proof
  assume n: "sampleInt_scan probs u s i = None"
  show "\<forall>k<length probs. run_sum probs k < u"
  proof (rule ccontr)
    assume "\<not> (\<forall>k<length probs. run_sum probs k < u)"
    then have ex: "\<exists>k. k < length probs \<and> u \<le> run_sum probs k"
      by (auto simp: not_less)
    define m where "m = (LEAST k. k < length probs \<and> u \<le> run_sum probs k)"
    from ex have m: "m < length probs \<and> u \<le> run_sum probs m"
      unfolding m_def by (rule LeastI_ex)
    have "\<forall>k<m. run_sum probs k < u"
    proof (intro allI impI)
      fix k assume "k < m"
      then have "\<not> (k < length probs \<and> u \<le> run_sum probs k)"
        unfolding m_def by (rule not_less_Least)
      with \<open>k < m\<close> m show "run_sum probs k < u" by auto
    qed
    with m scan_Some_iff[OF assms, of m] n show False by simp
  qed
next
  assume a: "\<forall>k<length probs. run_sum probs k < u"
  show "sampleInt_scan probs u s i = None"
  proof (cases "sampleInt_scan probs u s i")
    case None
    then show ?thesis .
  next
    case (Some j)
    with scan_Some_iff[OF assms, of j] a show ?thesis by auto
  qed
qed

lemma sampleInt_fst:
  "fst (sampleInt S probs totP g) =
     (if probs = [] then None else sampleInt_scan probs (fst (S (Runif 0 totP) g)) (probs ! 0) 0)"
  by (simp add: sampleInt_def split: prod.split)

lemma sampleInt_Eigen_fst:
  "fst (sampleInt_Eigen S esum probs g) =
     (if probs = [] then None
      else sampleInt_scan probs (fst (S (Runif 0 (esum probs)) g)) (probs ! 0) 0)"
  by (simp add: sampleInt_Eigen_def split: prod.split)

text \<open>
  Claim C8, as stated, has \<open>sampleInt\<close> return the least index whose cumulative sum
  \<open>probs[0] + ... + probs[i]\<close> is at least the draw \<open>u\<close>. The entries \<open>1\<close>, \<open>3 / 2^54\<close>,
  \<open>1\<close> and the draw \<open>1 + 1 / 2^52\<close> from \<open>[0, 3)\<close> are doubles. The sum of the first two
  entries, \<open>1 + 3 / 2^54\<close>, is less than the draw, so the least such index is \<open>2\<close>; the
  scan adds them in \<^verbatim>\<open>double\<close>, gets \<open>1 + 1 / 2^52\<close>, which is not less than the draw,
  and returns \<open>1\<close>.
\<close>

theorem sampleInt_returns_index_below_exact_sum:
  "dbl 1 = 1 \<and> dbl (3 / 2 ^ 54) = 3 / 2 ^ 54 \<and> dbl (1 + 1 / 2 ^ 52) = 1 + 1 / 2 ^ 52 \<and>
   (0::real) \<le> 1 + 1 / 2 ^ 52 \<and> (1::real) + 1 / 2 ^ 52 < 3 \<and>
   fst (sampleInt (forced (1 + 1 / 2 ^ 52)) [1, 3 / 2 ^ 54, 1] 3 ()) = Some 1 \<and>
   sum_list (take (Suc 1) [1, 3 / 2 ^ 54, 1 :: real]) < 1 + 1 / 2 ^ 52 \<and>
   1 + 1 / 2 ^ 52 \<le> sum_list (take (Suc 2) [1, 3 / 2 ^ 54, 1 :: real])"
proof -
  have d: "dbl 1 = 1" "dbl (3 / 2 ^ 54) = 3 / 2 ^ 54" "dbl (1 + 1 / 2 ^ 52) = 1 + 1 / 2 ^ 52"
    "dbl (1 + 3 / 2 ^ 54) = 1 + 1 / 2 ^ 52"
    by (simp_all add: dbl_binade[of 0] dbl_binade[of "-53"] round_even_def)
  have "sampleInt_scan [1, 3 / 2 ^ 54, 1] (1 + 1 / 2 ^ 52) 1 0 = Some 1"
    by (simp add: sampleInt_scan.simps d(4)[simplified])
  then have "fst (sampleInt (forced (1 + 1 / 2 ^ 52)) [1, 3 / 2 ^ 54, 1] 3 ()) = Some 1"
    by (simp add: sampleInt_fst forced_def)
  with d(1-3) show ?thesis by (simp add: numeral_2_eq_2 numeral_3_eq_3)
qed

text \<open>
  Claim C8, amended. \<open>sampleInt\<close> draws one uniform variate \<open>u\<close> with the request
  \<open>Runif 0 totP\<close> and returns index \<open>i\<close> exactly when \<open>i\<close> is the least index whose
  running sum as the loop accumulates it, \<open>probs[0] + ... + probs[i]\<close> added left to
  right in \<^verbatim>\<open>double\<close> and rounded after each addition, is at least \<open>u\<close>. With \<open>probs\<close>
  the doubles \<open>0.2\<close>, \<open>0.3\<close>, \<open>0.5\<close>, \<open>totP = 1\<close> and the draw forced to \<open>0.25\<close> it
  returns \<open>1\<close>; with the draw forced to the double \<open>0.1\<close> it returns \<open>0\<close>.
\<close>

theorem sampleInt_least_running_sum_index:
  "(fst (sampleInt S probs totP g) = Some i \<longleftrightarrow>
      i < length probs \<and>
      fst (S (Runif 0 totP) g) \<le> run_sum probs i \<and>
      (\<forall>k<i. run_sum probs k < fst (S (Runif 0 totP) g))) \<and>
   snd (sampleInt S probs totP g) = snd (S (Runif 0 totP) g) \<and>
   fst (sampleInt (forced (1/4)) [dbl (1/5), dbl (3/10), 1/2] 1 g) = Some 1 \<and>
   fst (sampleInt (forced (dbl (1/10))) [dbl (1/5), dbl (3/10), 1/2] 1 g) = Some 0"
proof (intro conjI)
  show "fst (sampleInt S probs totP g) = Some i \<longleftrightarrow>
      i < length probs \<and>
      fst (S (Runif 0 totP) g) \<le> run_sum probs i \<and>
      (\<forall>k<i. run_sum probs k < fst (S (Runif 0 totP) g))"
  proof (cases "probs = []")
    case True
    then show ?thesis by (simp add: sampleInt_fst)
  next
    case False
    then have "0 < length probs" by simp
    from scan_Some_iff[OF this, of "probs ! 0" "fst (S (Runif 0 totP) g)" i] False
    show ?thesis by (simp add: sampleInt_fst)
  qed
  show "snd (sampleInt S probs totP g) = snd (S (Runif 0 totP) g)"
    by (simp add: sampleInt_def split: prod.split)
  show "fst (sampleInt (forced (1/4)) [dbl (1/5), dbl (3/10), 1/2] 1 g) = Some 1"
    by (simp add: sampleInt_def forced_def sampleInt_scan.simps dbl_decimal_values
        dbl_dyadic_values)
  show "fst (sampleInt (forced (dbl (1/10))) [dbl (1/5), dbl (3/10), 1/2] 1 g) = Some 0"
    by (simp add: sampleInt_def forced_def sampleInt_scan.simps dbl_decimal_values)
qed

theorem sampleInt_least_running_sum_index_witness:
  "(1::nat) < length [dbl (1/5), dbl (3/10), 1/2] \<and>
   run_sum [dbl (1/5), dbl (3/10), 1/2] 0 = 3602879701896397 / 2 ^ 54 \<and>
   run_sum [dbl (1/5), dbl (3/10), 1/2] 1 = 1/2 \<and>
   run_sum [dbl (1/5), dbl (3/10), 1/2] 0 < fst (forced (1/4) (Runif 0 1) ()) \<and>
   fst (forced (1/4) (Runif 0 1) ()) \<le> run_sum [dbl (1/5), dbl (3/10), 1/2] 1 \<and>
   fst (sampleInt (forced (1/4)) [dbl (1/5), dbl (3/10), 1/2] 1 ()) = Some 1"
proof -
  have r: "run_sum [dbl (1/5), dbl (3/10), 1/2] 0 = 3602879701896397 / 2 ^ 54"
    "run_sum [dbl (1/5), dbl (3/10), 1/2] 1 = 1/2"
    by (simp_all add: dbl_decimal_values dbl_dyadic_values)
  have "(1::nat) < length [dbl (1/5), dbl (3/10), 1/2] \<and>
      fst (forced (1/4) (Runif 0 1) ()) \<le> run_sum [dbl (1/5), dbl (3/10), 1/2] 1 \<and>
      (\<forall>k<1::nat. run_sum [dbl (1/5), dbl (3/10), 1/2] k < fst (forced (1/4) (Runif 0 1) ()))"
    by (simp add: forced_def dbl_decimal_values dbl_dyadic_values)
  then show ?thesis
    using sampleInt_least_running_sum_index[of "forced (1/4)" "[dbl (1/5), dbl (3/10), 1/2]" 1
        "()" 1] r
    by (simp add: forced_def)
qed

lemma run_sum_double:
  assumes "\<forall>p\<in>set probs. 0 \<le> p \<and> dbl p = p" "k < length probs"
  shows "0 \<le> run_sum probs k \<and> dbl (run_sum probs k) = run_sum probs k"
  using assms(2)
proof (induction k)
  case 0
  then have "probs ! 0 \<in> set probs" by simp
  with assms(1) show ?case by simp
next
  case (Suc k)
  then have "0 \<le> run_sum probs k" by simp
  moreover from Suc.prems have "probs ! Suc k \<in> set probs" by simp
  with assms(1) have "0 \<le> probs ! Suc k" by blast
  ultimately have "0 \<le> run_sum probs k + probs ! Suc k" by simp
  then show ?case by (simp add: dbl_nonneg dbl_idem)
qed

lemma run_sum_mono:
  assumes "\<forall>p\<in>set probs. 0 \<le> p \<and> dbl p = p" "j < length probs" "k \<le> j"
  shows "run_sum probs k \<le> run_sum probs j"
  using assms(2,3)
proof (induction j)
  case 0
  then show ?case by simp
next
  case (Suc j)
  show ?case
  proof (cases "k = Suc j")
    case True
    then show ?thesis by simp
  next
    case False
    with Suc have le: "run_sum probs k \<le> run_sum probs j" by simp
    from Suc.prems have j: "j < length probs" by simp
    from Suc.prems have "probs ! Suc j \<in> set probs" by simp
    with assms(1) have "0 \<le> probs ! Suc j" by blast
    then have "run_sum probs j \<le> run_sum probs j + probs ! Suc j" by simp
    with run_sum_double[OF assms(1) j]
    have "run_sum probs j \<le> dbl (run_sum probs j + probs ! Suc j)"
      by (intro dbl_ge) simp_all
    with le show ?thesis by simp
  qed
qed

lemma scan_in_bounds_iff:
  assumes "probs \<noteq> []" "\<forall>p\<in>set probs. 0 \<le> p \<and> dbl p = p"
  shows "(\<exists>i<length probs. sampleInt_scan probs u (probs ! 0) 0 = Some i) \<longleftrightarrow>
           u \<le> run_sum probs (length probs - 1)"
    and "sampleInt_scan probs u (probs ! 0) 0 = None \<longleftrightarrow> run_sum probs (length probs - 1) < u"
proof -
  from assms(1) have l: "0 < length probs" by simp
  then have n: "length probs - 1 < length probs" by simp
  have none: "sampleInt_scan probs u (probs ! 0) 0 = None \<longleftrightarrow>
      (\<forall>k<length probs. run_sum probs k < u)"
    using scan_None_iff[OF l, of "probs ! 0" u] by simp
  have all: "(\<forall>k<length probs. run_sum probs k < u) \<longleftrightarrow> run_sum probs (length probs - 1) < u"
  proof
    assume "\<forall>k<length probs. run_sum probs k < u"
    with n show "run_sum probs (length probs - 1) < u" by blast
  next
    assume a: "run_sum probs (length probs - 1) < u"
    show "\<forall>k<length probs. run_sum probs k < u"
    proof (intro allI impI)
      fix k assume "k < length probs"
      then have "k \<le> length probs - 1" by simp
      from run_sum_mono[OF assms(2) n this] a show "run_sum probs k < u" by simp
    qed
  qed
  from none all
  show N: "sampleInt_scan probs u (probs ! 0) 0 = None \<longleftrightarrow> run_sum probs (length probs - 1) < u"
    by simp
  have "(\<exists>i<length probs. sampleInt_scan probs u (probs ! 0) 0 = Some i) \<longleftrightarrow>
      sampleInt_scan probs u (probs ! 0) 0 \<noteq> None"
  proof
    assume "\<exists>i<length probs. sampleInt_scan probs u (probs ! 0) 0 = Some i"
    then show "sampleInt_scan probs u (probs ! 0) 0 \<noteq> None" by auto
  next
    assume "sampleInt_scan probs u (probs ! 0) 0 \<noteq> None"
    then obtain i where i: "sampleInt_scan probs u (probs ! 0) 0 = Some i" by auto
    with scan_Some_iff[OF l, of "probs ! 0" u i] have "i < length probs" by simp
    with i show "\<exists>i<length probs. sampleInt_scan probs u (probs ! 0) 0 = Some i" by blast
  qed
  with N show "(\<exists>i<length probs. sampleInt_scan probs u (probs ! 0) 0 = Some i) \<longleftrightarrow>
      u \<le> run_sum probs (length probs - 1)"
    by (simp add: not_less)
qed

text \<open>
  Claim C10, as stated, has every access of the scan within bounds when \<open>probs\<close> is not
  empty, its entries are not negative and their sum is at least \<open>totP > 0\<close>. The
  entries \<open>2^53\<close>, \<open>1\<close>, \<open>1\<close>, \<open>1\<close>, \<open>1\<close> are doubles and sum to \<open>totP = 2^53 + 4\<close>, and the
  double \<open>2^53 + 2\<close> is a draw from \<open>[0, totP)\<close>. Each \<^verbatim>\<open>sum += 1\<close> rounds \<open>2^53 + 1\<close>
  back to \<open>2^53\<close>, the running sum never reaches the draw, and the scan reads
  \<^verbatim>\<open>probs[5]\<close>.
\<close>

theorem sampleInt_overruns_with_mass_covered:
  "[2 ^ 53, 1, 1, 1, 1 :: real] \<noteq> [] \<and>
   list_all (\<lambda>p. 0 \<le> p \<and> dbl p = p) [2 ^ 53, 1, 1, 1, 1] \<and>
   (0::real) < 2 ^ 53 + 4 \<and> (2::real) ^ 53 + 4 \<le> sum_list [2 ^ 53, 1, 1, 1, 1] \<and>
   dbl (2 ^ 53 + 2) = 2 ^ 53 + 2 \<and> (0::real) \<le> 2 ^ 53 + 2 \<and> (2::real) ^ 53 + 2 < 2 ^ 53 + 4 \<and>
   fst (sampleInt (forced (2 ^ 53 + 2)) [2 ^ 53, 1, 1, 1, 1] (2 ^ 53 + 4) ()) = None"
proof -
  have d: "dbl 1 = 1" "dbl (2 ^ 53) = 2 ^ 53" "dbl (2 ^ 53 + 2) = 2 ^ 53 + 2"
    "dbl (2 ^ 53 + 1) = 2 ^ 53"
    by (simp_all add: dbl_binade[of 0] dbl_binade[of 53] round_even_def)
  have "sampleInt_scan [2 ^ 53, 1, 1, 1, 1] (2 ^ 53 + 2) (2 ^ 53) 0 = None"
    by (simp add: sampleInt_scan.simps d(4)[simplified])
  then have "fst (sampleInt (forced (2 ^ 53 + 2)) [2 ^ 53, 1, 1, 1, 1] (2 ^ 53 + 4) ()) = None"
    by (simp add: sampleInt_fst forced_def)
  with d(1-3) show ?thesis by simp
qed

text \<open>
  Claim C10, amended. Let \<open>probs\<close> be a nonempty vector of doubles that are not negative.
  Every access of the scan of \<open>sampleInt\<close> is within bounds, and the index returned is
  below \<open>length probs\<close>, exactly when the draw \<open>u\<close> is at most the last running sum, the
  entries added left to right in \<^verbatim>\<open>double\<close>; in particular when that running sum is at
  least \<open>totP\<close> and \<open>u\<close> is in \<open>[0, totP)\<close>. Exactly when the draw is greater than the
  last running sum, the scan reads past the end of the vector. The same holds for the
  Eigen overload, whose draw is requested below the total \<^verbatim>\<open>probs.sum()\<close> that Eigen
  computes.
\<close>

theorem sampleInt_in_bounds_iff_running_sum_covers:
  "probs \<noteq> [] \<and> (\<forall>p\<in>set probs. 0 \<le> p \<and> dbl p = p) \<longrightarrow>
     ((\<exists>i<length probs. fst (sampleInt S probs totP g) = Some i) \<longleftrightarrow>
        fst (S (Runif 0 totP) g) \<le> run_sum probs (length probs - 1)) \<and>
     (fst (sampleInt S probs totP g) = None \<longleftrightarrow>
        run_sum probs (length probs - 1) < fst (S (Runif 0 totP) g)) \<and>
     (totP \<le> run_sum probs (length probs - 1) \<and> fst (S (Runif 0 totP) g) < totP \<longrightarrow>
        (\<exists>i<length probs. fst (sampleInt S probs totP g) = Some i)) \<and>
     ((\<exists>i<length probs. fst (sampleInt_Eigen S esum probs g) = Some i) \<longleftrightarrow>
        fst (S (Runif 0 (esum probs)) g) \<le> run_sum probs (length probs - 1)) \<and>
     (fst (sampleInt_Eigen S esum probs g) = None \<longleftrightarrow>
        run_sum probs (length probs - 1) < fst (S (Runif 0 (esum probs)) g))"
proof (intro impI)
  assume a: "probs \<noteq> [] \<and> (\<forall>p\<in>set probs. 0 \<le> p \<and> dbl p = p)"
  then have ne: "probs \<noteq> []" and dd: "\<forall>p\<in>set probs. 0 \<le> p \<and> dbl p = p" by simp_all
  note b = scan_in_bounds_iff[OF ne dd]
  have 1: "(\<exists>i<length probs. fst (sampleInt S probs totP g) = Some i) \<longleftrightarrow>
        fst (S (Runif 0 totP) g) \<le> run_sum probs (length probs - 1)"
    using b(1)[of "fst (S (Runif 0 totP) g)"] ne by (simp add: sampleInt_fst)
  have 2: "fst (sampleInt S probs totP g) = None \<longleftrightarrow>
        run_sum probs (length probs - 1) < fst (S (Runif 0 totP) g)"
    using b(2)[of "fst (S (Runif 0 totP) g)"] ne by (simp add: sampleInt_fst)
  have 3: "totP \<le> run_sum probs (length probs - 1) \<and> fst (S (Runif 0 totP) g) < totP \<longrightarrow>
        (\<exists>i<length probs. fst (sampleInt S probs totP g) = Some i)"
    using 1 by auto
  have 4: "(\<exists>i<length probs. fst (sampleInt_Eigen S esum probs g) = Some i) \<longleftrightarrow>
        fst (S (Runif 0 (esum probs)) g) \<le> run_sum probs (length probs - 1)"
    using b(1)[of "fst (S (Runif 0 (esum probs)) g)"] ne by (simp add: sampleInt_Eigen_fst)
  have 5: "fst (sampleInt_Eigen S esum probs g) = None \<longleftrightarrow>
        run_sum probs (length probs - 1) < fst (S (Runif 0 (esum probs)) g)"
    using b(2)[of "fst (S (Runif 0 (esum probs)) g)"] ne by (simp add: sampleInt_Eigen_fst)
  from 1 2 3 4 5 show "((\<exists>i<length probs. fst (sampleInt S probs totP g) = Some i) \<longleftrightarrow>
        fst (S (Runif 0 totP) g) \<le> run_sum probs (length probs - 1)) \<and>
     (fst (sampleInt S probs totP g) = None \<longleftrightarrow>
        run_sum probs (length probs - 1) < fst (S (Runif 0 totP) g)) \<and>
     (totP \<le> run_sum probs (length probs - 1) \<and> fst (S (Runif 0 totP) g) < totP \<longrightarrow>
        (\<exists>i<length probs. fst (sampleInt S probs totP g) = Some i)) \<and>
     ((\<exists>i<length probs. fst (sampleInt_Eigen S esum probs g) = Some i) \<longleftrightarrow>
        fst (S (Runif 0 (esum probs)) g) \<le> run_sum probs (length probs - 1)) \<and>
     (fst (sampleInt_Eigen S esum probs g) = None \<longleftrightarrow>
        run_sum probs (length probs - 1) < fst (S (Runif 0 (esum probs)) g))"
    by blast
qed

theorem sampleInt_in_bounds_iff_running_sum_covers_witness:
  "run_sum [dbl (1/5), dbl (3/10), 1/2] (length [dbl (1/5), dbl (3/10), 1/2] - 1) = 1 \<and>
   (\<exists>i<length [dbl (1/5), dbl (3/10), 1/2].
      fst (sampleInt (forced (3/4)) [dbl (1/5), dbl (3/10), 1/2] 1 ()) = Some i) \<and>
   fst (sampleInt (forced (3/4)) [dbl (1/5), dbl (3/10), 1/2] 1 ()) = Some 2 \<and>
   (\<exists>i<length [dbl (1/5), dbl (3/10), 1/2].
      fst (sampleInt_Eigen (forced (3/4)) sum_list [dbl (1/5), dbl (3/10), 1/2] ()) = Some i) \<and>
   fst (sampleInt (forced (3/2)) [dbl (1/5), dbl (3/10), 1/2] 2 ()) = None \<and>
   run_sum [2 ^ 53, 1, 1, 1, 1] (length [2 ^ 53, 1, 1, 1, 1 :: real] - 1) = 2 ^ 53 \<and>
   fst (sampleInt (forced (2 ^ 53 + 2)) [2 ^ 53, 1, 1, 1, 1] (2 ^ 53 + 4) ()) = None"
proof -
  let ?p = "[dbl (1/5), dbl (3/10), 1/2]"
  let ?q = "[2 ^ 53, 1, 1, 1, 1 :: real]"
  have dp: "?p \<noteq> [] \<and> (\<forall>p\<in>set ?p. 0 \<le> p \<and> dbl p = p)"
    by (simp add: dbl_idem dbl_nonneg dbl_dyadic_values)
  have d: "dbl (2 ^ 53) = 2 ^ 53" "dbl (2 ^ 53 + 1) = 2 ^ 53"
    by (simp_all add: dbl_binade[of 53] round_even_def)
  have dq: "?q \<noteq> [] \<and> (\<forall>p\<in>set ?q. 0 \<le> p \<and> dbl p = p)"
    by (simp add: d[simplified] dbl_dyadic_values)
  have r: "run_sum ?p (length ?p - 1) = 1"
  proof -
    have "run_sum ?p (Suc (Suc 0)) = 1"
      by (simp add: dbl_decimal_values dbl_dyadic_values)
    moreover have "length ?p - 1 = Suc (Suc 0)" by simp
    ultimately show ?thesis by (simp only:)
  qed
  have rq: "run_sum ?q (length ?q - 1) = 2 ^ 53"
  proof -
    have "run_sum ?q (Suc (Suc (Suc (Suc 0)))) = 2 ^ 53"
      by (simp add: d[simplified])
    moreover have "length ?q - 1 = Suc (Suc (Suc (Suc 0)))" by simp
    ultimately show ?thesis by (simp only:)
  qed
  have u: "fst (forced v law ()) = v" for v law
    by (simp add: forced_def)
  note a = sampleInt_in_bounds_iff_running_sum_covers[of ?p "forced (3/4)" 1 "()" sum_list,
      THEN mp, OF dp, unfolded u r]
  note b = sampleInt_in_bounds_iff_running_sum_covers[of ?p "forced (3/2)" 2 "()" sum_list,
      THEN mp, OF dp, unfolded u r]
  note c = sampleInt_in_bounds_iff_running_sum_covers[of ?q "forced (2 ^ 53 + 2)"
      "2 ^ 53 + 4" "()" sum_list, THEN mp, OF dq, unfolded u rq]
  have 1: "\<exists>i<length ?p. fst (sampleInt (forced (3/4)) ?p 1 ()) = Some i"
    by (rule iffD2[OF a[THEN conjunct1]]) simp
  have 2: "fst (sampleInt (forced (3/4)) ?p 1 ()) = Some 2"
    by (simp add: sampleInt_def forced_def sampleInt_scan.simps dbl_decimal_values
        dbl_dyadic_values)
  have 3: "\<exists>i<length ?p. fst (sampleInt_Eigen (forced (3/4)) sum_list ?p ()) = Some i"
    by (rule iffD2[OF a[THEN conjunct2, THEN conjunct2, THEN conjunct2, THEN conjunct1]]) simp
  have 4: "fst (sampleInt (forced (3/2)) ?p 2 ()) = None"
    by (rule iffD2[OF b[THEN conjunct2, THEN conjunct1]]) simp
  have 5: "fst (sampleInt (forced (2 ^ 53 + 2)) ?q (2 ^ 53 + 4) ()) = None"
    by (rule iffD2[OF c[THEN conjunct2, THEN conjunct1]]) simp
  from r rq 1 2 3 4 5 show ?thesis by blast
qed

subsection \<open>logDirichletDensity\<close>

lemma fold_add_upt:
  "fold (\<lambda>i out. out + f i) [0..<n] (a::real) = a + (\<Sum>i<n. f i)"
  by (induction n) simp_all

text \<open>
  Claim C9. \<open>logDirichletDensity x alpha\<close> stops with an error, and gives no result, if
  and only if \<open>x\<close> and \<open>alpha\<close> differ in length. When the lengths agree it returns
  \<open>lgamma (sum alpha)\<close> plus the sum over \<open>i\<close> of
  \<open>(alpha\<^sub>i - 1) * log x\<^sub>i - lgamma alpha\<^sub>i\<close>. Its inputs are values of the
  model and are not changed.
\<close>

theorem logDirichletDensity_stop_iff_size_mismatch:
  "((\<exists>e. logDirichletDensity lgamma x alpha = Inl e) \<longleftrightarrow> length x \<noteq> length alpha) \<and>
   (length x = length alpha \<longrightarrow>
      logDirichletDensity lgamma x alpha =
        Inr (lgamma (sum_list alpha) +
             (\<Sum>i<length alpha. (alpha ! i - 1) * ln (x ! i) - lgamma (alpha ! i))))"
proof (intro conjI impI)
  show "(\<exists>e. logDirichletDensity lgamma x alpha = Inl e) \<longleftrightarrow> length x \<noteq> length alpha"
    by (cases "length x = length alpha") (simp_all add: logDirichletDensity_def)
next
  assume len: "length x = length alpha"
  have "fold (\<lambda>i out. out + ((alpha ! i - 1) * ln (x ! i) - lgamma (alpha ! i)))
          [0..<length alpha] (lgamma (sum_list alpha)) =
        lgamma (sum_list alpha) +
          (\<Sum>i<length alpha. (alpha ! i - 1) * ln (x ! i) - lgamma (alpha ! i))"
    by (rule fold_add_upt)
  with len show "logDirichletDensity lgamma x alpha =
        Inr (lgamma (sum_list alpha) +
             (\<Sum>i<length alpha. (alpha ! i - 1) * ln (x ! i) - lgamma (alpha ! i)))"
    by (simp add: logDirichletDensity_def)
qed

theorem logDirichletDensity_stop_iff_size_mismatch_witness:
  "length [1/2, 1/2 :: real] = length [1, 1 :: real] \<and>
   logDirichletDensity (\<lambda>a. 0) [1/2, 1/2] [1, 1] = Inr 0 \<and>
   logDirichletDensity (\<lambda>a. 0) [1/2] [1, 1] = Inl (Stop ''logDirichletDensity incorrect size'')"
  using logDirichletDensity_stop_iff_size_mismatch[of "\<lambda>a. 0" "[1/2, 1/2]" "[1, 1]"]
  by (simp add: logDirichletDensity_def lessThan_Suc numeral_2_eq_2)

subsection \<open>rHalfCauchyFC\<close>

text \<open>
  Claim C2, as stated, has the latent variate drawn from the Gamma law with shape \<open>1\<close>
  and rate \<open>x\<^sup>2 / (x\<^sup>2 + 1)\<close>. At \<open>x\<^sup>2 = 1\<close> the first request of \<open>rHalfCauchyFC\<close>
  is \<^verbatim>\<open>R::rgamma(1, 1/2)\<close>, the law with shape \<open>1\<close> and scale \<open>1/2\<close>, which is not the law
  with shape \<open>1\<close> and rate \<open>1/2\<close>.
\<close>

theorem rHalfCauchyFC_first_draw_not_rate_form:
  "hd (snd (snd (snd (rHalfCauchyFC recording 1 1 1 None ([1, 1], []))))) = Rgamma 1 (1 / 2) \<and>
   Rgamma 1 (1 / 2) \<noteq> Gamma_shape_rate 1 (1 / (1 + 1))"
  by (simp add: rHalfCauchyFC_def recording_def Gamma_shape_rate_def)

text \<open>
  Claim C2, amended. For every current value \<open>x\<^sup>2\<close> and parameters \<open>a\<close> and \<open>b\<close>,
  \<open>rHalfCauchyFC\<close> first draws the latent \<open>y\<close> from the Gamma law with shape \<open>1\<close> and
  scale \<open>x\<^sup>2 / (x\<^sup>2 + 1)\<close>, stores \<open>y\<close> into \<^verbatim>\<open>*yInv\<close> when that pointer is not null,
  and then replaces \<open>x\<^sup>2\<close> by the reciprocal of a draw from the Gamma law with shape
  \<open>(a + 1) / 2\<close> and scale \<open>1 / (b / 2 + y)\<close>, taken from the generator state the first
  draw left.
\<close>

theorem rHalfCauchyFC_two_step_update:
  "rHalfCauchyFC S x2 a b yInv g =
     (let (y, g1) = S (Rgamma 1 (x2 / (x2 + 1))) g;
          (r, g2) = S (Rgamma ((a + 1) / 2) (1 / (b / 2 + y))) g1
      in (1 / r, (if yInv = None then None else Some y), g2))"
proof -
  have "2 / (b + 2 * y) = 1 / (b / 2 + y)" for y :: real
  proof -
    have "b / 2 + y = (b + 2 * y) / 2" by simp
    moreover have "1 / ((b + 2 * y) / 2) = 2 / (b + 2 * y)" by simp
    ultimately show ?thesis by (simp only:)
  qed
  then show ?thesis
    by (simp add: rHalfCauchyFC_def Let_def split: prod.split)
qed

section \<open>Properties of the sampler engine\<close>

subsection \<open>mixMHR: layout of the design matrix\<close>


lemma fold_set_col_Xd:
  "Xd (fold (\<lambda>i. set_col (f i) (x i) (z i) (v i)) is d) =
   fold (\<lambda>i xs. xs[f i := x i]) is (Xd d)"
  by (induction "is" arbitrary: d) (simp_all add: set_col_def)

lemma fold_set_col_diagVar:
  "diagVar (fold (\<lambda>i. set_col (f i) (x i) (z i) (v i)) is d) =
   fold (\<lambda>i xs. xs[f i := v i]) is (diagVar d)"
  by (induction "is" arbitrary: d) (simp_all add: set_col_def)

lemma fold_upd_length [simp]:
  "length (fold (\<lambda>i xs. xs[f i := g i]) is xs) = length xs"
  by (induction "is" arbitrary: xs) simp_all

lemma fold_upd_other:
  "k \<notin> f ` set is \<Longrightarrow> fold (\<lambda>i xs. xs[f i := g i]) is xs ! k = xs ! k"
  by (induction "is" arbitrary: xs) auto

lemma fold_upd_hit:
  "inj_on f (set is) \<Longrightarrow> distinct is \<Longrightarrow> i \<in> set is \<Longrightarrow> f i < length xs \<Longrightarrow>
   fold (\<lambda>i xs. xs[f i := g i]) is xs ! f i = g i"
proof (induction "is" arbitrary: xs)
  case Nil
  then show ?case by simp
next
  case (Cons a as)
  show ?case
  proof (cases "i = a")
    case True
    with Cons.prems have "f a \<notin> f ` set as" by (auto simp: inj_on_def)
    with True Cons.prems show ?thesis by (simp add: fold_upd_other)
  next
    case False
    with Cons.prems have "i \<in> set as" "inj_on f (set as)" "distinct as" by auto
    with Cons.IH[of "xs[f a := g a]"] Cons.prems(4) show ?thesis by simp
  qed
qed

lemma fold_fold_product:
  "fold (\<lambda>i. fold (\<lambda>j. h i j) js) is d = fold (\<lambda>(i, j). h i j) (List.product is js) d"
proof (induction "is" arbitrary: d)
  case Nil
  then show ?case by simp
next
  case (Cons a as)
  have "fold (\<lambda>(i, j). h i j) (map (Pair a) js) d = fold (\<lambda>j. h a j) js d" for d
    by (simp add: fold_map comp_def)
  with Cons show ?case by simp
qed

lemma fold_set_col_Xd2:
  "Xd (fold (\<lambda>(i, j). set_col (f i j) (x i j) (z i j) (v i j)) ps d) =
   fold (\<lambda>(i, j) xs. xs[f i j := x i j]) ps (Xd d)"
  by (induction ps arbitrary: d) (auto simp: set_col_def)

lemma fold_set_col_diagVar2:
  "diagVar (fold (\<lambda>(i, j). set_col (f i j) (x i j) (z i j) (v i j)) ps d) =
   fold (\<lambda>(i, j) xs. xs[f i j := v i j]) ps (diagVar d)"
  by (induction ps arbitrary: d) (auto simp: set_col_def)

lemma pair_index_inj:
  "inj_on (\<lambda>(i, j). base + i * p2 + j) (set (List.product [0..<p1] [0..<p2]))"
proof (rule inj_onI, clarify)
  fix i j i' j' :: nat
  assume "(i, j) \<in> set (List.product [0..<p1] [0..<p2])"
    "(i', j') \<in> set (List.product [0..<p1] [0..<p2])"
    and eq: "base + i * p2 + j = base + i' * p2 + j'"
  then have j: "j < p2" "j' < p2" by auto
  from eq have e: "i * p2 + j = i' * p2 + j'" by simp
  from e j have "(i * p2 + j) div p2 = (i' * p2 + j') div p2" by simp
  with j have "i = i'" by simp
  with e show "i = i' \<and> j = j'" by simp
qed

lemma pair_index_bound:
  assumes "i < p1" "j < (p2::nat)"
  shows "i * p2 + j < p1 * p2"
proof -
  have "i * p2 + j < Suc i * p2" using assms(2) by simp
  also have "\<dots> \<le> p1 * p2" using assms(1) by (intro mult_le_mono1) simp
  finally show ?thesis .
qed

lemma layout_tree1:
  assumes "p1 + p2 \<le> length xs" "i < p1"
  shows "fold (\<lambda>j xs. xs[p1 + j := b j]) [0..<p2] (fold (\<lambda>i xs. xs[i := a i]) [0..<p1] xs) ! i
         = a i"
proof -
  have "i \<notin> (\<lambda>j. p1 + j) ` set [0..<p2]" using assms by auto
  then have "fold (\<lambda>j xs. xs[p1 + j := b j]) [0..<p2] (fold (\<lambda>i xs. xs[i := a i]) [0..<p1] xs) ! i
       = fold (\<lambda>i xs. xs[i := a i]) [0..<p1] xs ! i"
    by (rule fold_upd_other)
  also have "\<dots> = a i"
    using assms by (intro fold_upd_hit[where f = "\<lambda>i. i"]) auto
  finally show ?thesis .
qed

lemma layout_tree2:
  assumes "p1 + p2 \<le> length xs" "j < p2"
  shows "fold (\<lambda>j xs. xs[p1 + j := b j]) [0..<p2] (fold (\<lambda>i xs. xs[i := a i]) [0..<p1] xs)
           ! (p1 + j) = b j"
  using assms by (intro fold_upd_hit[where f = "\<lambda>j. p1 + j"]) (auto simp: inj_on_def)

lemma layout_interaction_other:
  assumes "k < p1 + p2"
  shows "fold (\<lambda>(i, j) xs. xs[p1 + p2 + i * p2 + j := c i j])
           (List.product [0..<p1] [0..<p2]) ys ! k = ys ! k"
proof -
  have "k \<notin> (\<lambda>(i, j). p1 + p2 + i * p2 + j) ` set (List.product [0..<p1] [0..<p2])"
    using assms by auto
  then have "fold (\<lambda>ij xs. xs[(\<lambda>(i, j). p1 + p2 + i * p2 + j) ij := (\<lambda>(i, j). c i j) ij])
           (List.product [0..<p1] [0..<p2]) ys ! k = ys ! k"
    by (rule fold_upd_other)
  moreover have "(\<lambda>ij xs. xs[(\<lambda>(i, j). p1 + p2 + i * p2 + j) ij := (\<lambda>(i, j). c i j) ij])
      = (\<lambda>(i, j) xs. xs[p1 + p2 + i * p2 + j := c i j])"
    by (auto simp: fun_eq_iff)
  ultimately show ?thesis by simp
qed

lemma layout_interaction_hit:
  assumes len: "p1 + p2 + p1 * p2 \<le> length ys" and ij: "i < p1" "j < p2"
  shows "fold (\<lambda>(i, j) xs. xs[p1 + p2 + i * p2 + j := c i j])
           (List.product [0..<p1] [0..<p2]) ys ! (p1 + p2 + i * p2 + j) = c i j"
proof -
  have "fold (\<lambda>ij xs. xs[(\<lambda>(i, j). p1 + p2 + i * p2 + j) ij := (\<lambda>(i, j). c i j) ij])
          (List.product [0..<p1] [0..<p2]) ys ! ((\<lambda>(i, j). p1 + p2 + i * p2 + j) (i, j))
        = (\<lambda>(i, j). c i j) (i, j)"
  proof (rule fold_upd_hit)
    show "inj_on (\<lambda>(i, j). p1 + p2 + i * p2 + j) (set (List.product [0..<p1] [0..<p2]))"
      by (rule pair_index_inj)
    show "distinct (List.product [0..<p1] [0..<p2])" by (simp add: distinct_product)
    show "(i, j) \<in> set (List.product [0..<p1] [0..<p2])" using ij by simp
    show "(case (i, j) of (i, j) \<Rightarrow> p1 + p2 + i * p2 + j) < length ys"
      using pair_index_bound[OF ij] len by simp
  qed
  moreover have "(\<lambda>ij xs. xs[(\<lambda>(i, j). p1 + p2 + i * p2 + j) ij := (\<lambda>(i, j). c i j) ij])
      = (\<lambda>(i, j) xs. xs[p1 + p2 + i * p2 + j := c i j])"
    by (auto simp: fun_eq_iff)
  ultimately show ?thesis by simp
qed

lemma fold_upd2_length [simp]:
  "length (fold (\<lambda>(i, j) xs. xs[f i j := g i j]) ps xs) = length xs"
  by (induction ps arbitrary: xs) auto

lemma Xd_mixMHR_design:
  "Xd (mixMHR_design ctr nodes1 nodes2 treeVar m1Var m2Var mixVar) =
   (let p1 = length nodes1; p2 = length nodes2;
        xs = replicate (p1 + p2 + (if mixVar \<noteq> 0 then p1 * p2 else 0)) (replicate (ctr_n ctr) 0);
        ys = fold (\<lambda>j xs. xs[p1 + j := nv_X (nodes2 ! j)]) [0..<p2]
               (fold (\<lambda>i xs. xs[i := nv_X (nodes1 ! i)]) [0..<p1] xs)
    in if mixVar \<noteq> 0
       then fold (\<lambda>(i, j) xs. xs[p1 + p2 + i * p2 + j :=
                    cwise_prod (nv_X (nodes1 ! i)) (nv_X (nodes2 ! j))])
              (List.product [0..<p1] [0..<p2]) ys
       else ys)"
  by (simp add: mixMHR_design_def mixMHR_tree1_def mixMHR_tree2_def mixMHR_interaction_def
      Let_def fold_fold_product fold_set_col_Xd fold_set_col_Xd2)

lemma diagVar_mixMHR_design:
  "diagVar (mixMHR_design ctr nodes1 nodes2 treeVar m1Var m2Var mixVar) =
   (let p1 = length nodes1; p2 = length nodes2;
        xs = replicate (p1 + p2 + (if mixVar \<noteq> 0 then p1 * p2 else 0)) 0;
        ys = fold (\<lambda>j xs. xs[p1 + j := 1 / (m2Var * treeVar)]) [0..<p2]
               (fold (\<lambda>i xs. xs[i := 1 / (m1Var * treeVar)]) [0..<p1] xs)
    in if mixVar \<noteq> 0
       then fold (\<lambda>(i, j) xs. xs[p1 + p2 + i * p2 + j := 1 / (mixVar * treeVar)])
              (List.product [0..<p1] [0..<p2]) ys
       else ys)"
  by (simp add: mixMHR_design_def mixMHR_tree1_def mixMHR_tree2_def mixMHR_interaction_def
      Let_def fold_fold_product fold_set_col_diagVar fold_set_col_diagVar2)

text \<open>
  Claim C7. For terminal-node lists of sizes \<open>p1\<close> and \<open>p2\<close>, the design matrix \<open>Xd\<close>
  assembled by \<open>mixMHR\<close> has \<open>p1 + p2\<close> columns, plus \<open>p1 * p2\<close> more exactly when
  \<open>mixVar\<close> is not zero. Column \<open>i < p1\<close> is the design column of node \<open>i\<close> of tree 1,
  column \<open>p1 + j\<close> that of node \<open>j\<close> of tree 2, and column \<open>p1 + p2 + i * p2 + j\<close> the
  elementwise product of the two. The diagonal prior precision is
  \<open>1 / (m1Var * treeVar)\<close> on the columns of tree 1, \<open>1 / (m2Var * treeVar)\<close> on those of
  tree 2 and \<open>1 / (mixVar * treeVar)\<close> on the interaction columns.
\<close>

theorem mixMHR_design_columns:
  "(let d = mixMHR_design ctr nodes1 nodes2 treeVar m1Var m2Var mixVar;
        p1 = length nodes1; p2 = length nodes2
    in length (Xd d) = p1 + p2 + (if mixVar \<noteq> 0 then p1 * p2 else 0) \<and>
       length (diagVar d) = length (Xd d) \<and>
       (\<forall>i<p1. Xd d ! i = nv_X (nodes1 ! i) \<and> diagVar d ! i = 1 / (m1Var * treeVar)) \<and>
       (\<forall>j<p2. Xd d ! (p1 + j) = nv_X (nodes2 ! j) \<and>
                diagVar d ! (p1 + j) = 1 / (m2Var * treeVar)) \<and>
       (mixVar \<noteq> 0 \<longrightarrow>
          (\<forall>i<p1. \<forall>j<p2.
             Xd d ! (p1 + p2 + i * p2 + j) = cwise_prod (nv_X (nodes1 ! i)) (nv_X (nodes2 ! j)) \<and>
             diagVar d ! (p1 + p2 + i * p2 + j) = 1 / (mixVar * treeVar))))"
proof (cases "mixVar = 0")
  case True
  then show ?thesis
    by (simp add: Let_def Xd_mixMHR_design diagVar_mixMHR_design layout_tree1 layout_tree2)
next
  case False
  then show ?thesis
    by (simp add: Let_def Xd_mixMHR_design diagVar_mixMHR_design layout_tree1 layout_tree2
        layout_interaction_other layout_interaction_hit)
qed

theorem mixMHR_design_columns_witness:
  "(let d = mixMHR_design example_ctr [\<lparr>nv_X = [1, 2], nv_ZtX = [3]\<rparr>]
              [\<lparr>nv_X = [3, 4], nv_ZtX = [7]\<rparr>, \<lparr>nv_X = [5, 6], nv_ZtX = [11]\<rparr>] 1 2 4 8
    in length (Xd d) = 5 \<and> length (diagVar d) = 5 \<and>
       Xd d ! 0 = [1, 2] \<and> Xd d ! 1 = [3, 4] \<and> Xd d ! 2 = [5, 6] \<and>
       Xd d ! 3 = [3, 8] \<and> Xd d ! 4 = [5, 12] \<and>
       diagVar d ! 0 = 1/2 \<and> diagVar d ! 1 = 1/4 \<and> diagVar d ! 2 = 1/4 \<and>
       diagVar d ! 3 = 1/8 \<and> diagVar d ! 4 = 1/8)"
proof -
  let ?n1 = "[\<lparr>nv_X = [1, 2], nv_ZtX = [3]\<rparr>]"
  let ?n2 = "[\<lparr>nv_X = [3, 4], nv_ZtX = [7]\<rparr>, \<lparr>nv_X = [5, 6], nv_ZtX = [11]\<rparr>]"
  let ?d = "mixMHR_design example_ctr ?n1 ?n2 1 2 4 8"
  note t = mixMHR_design_columns[of example_ctr ?n1 ?n2 1 2 4 8, unfolded Let_def]
  from t have len: "length (Xd ?d) = 5" "length (diagVar ?d) = 5" by simp_all
  from t have t1: "\<forall>i<length ?n1. Xd ?d ! i = nv_X (?n1 ! i) \<and> diagVar ?d ! i = 1 / (2 * 1)"
    by blast
  from t have t2: "\<forall>j<length ?n2. Xd ?d ! (length ?n1 + j) = nv_X (?n2 ! j) \<and>
      diagVar ?d ! (length ?n1 + j) = 1 / (4 * 1)"
    by blast
  from t have t3: "\<forall>i<length ?n1. \<forall>j<length ?n2.
      Xd ?d ! (length ?n1 + length ?n2 + i * length ?n2 + j)
        = cwise_prod (nv_X (?n1 ! i)) (nv_X (?n2 ! j)) \<and>
      diagVar ?d ! (length ?n1 + length ?n2 + i * length ?n2 + j) = 1 / (8 * 1)"
    by simp
  from t1[rule_format, of 0] have c0: "Xd ?d ! 0 = [1, 2]" "diagVar ?d ! 0 = 1/2" by simp_all
  from t2[rule_format, of 0] have c1: "Xd ?d ! 1 = [3, 4]" "diagVar ?d ! 1 = 1/4" by simp_all
  from t2[rule_format, of 1] have c2: "Xd ?d ! 2 = [5, 6]" "diagVar ?d ! 2 = 1/4"
    by (simp_all add: numeral_2_eq_2)
  from t3[rule_format, of 0 0] have c3: "Xd ?d ! 3 = [3, 8]" "diagVar ?d ! 3 = 1/8"
    by (simp_all add: cwise_prod_def numeral_3_eq_3)
  from t3[rule_format, of 0 1] have c4: "Xd ?d ! 4 = [5, 12]" "diagVar ?d ! 4 = 1/8"
    by (simp_all add: cwise_prod_def eval_nat_numeral)
  from len c0 c1 c2 c3 c4 show ?thesis by (simp only: Let_def)
qed

subsection \<open>tdlmmTreeMCMC: the choice of the move\<close>

lemma propose_grow:
  assumes "sampleInt S (ctr_stepProb ctr) 1 g = (Some drawn, g1)"
    and "drawn < 3"
  shows "\<exists>p g2. propose E S ctr tree term m m' mVar mixVar g = Some (p, g2) \<and>
           p_step p = (if length term = 1 then 0 else drawn) \<and>
           ((p_stepMhr p, p_tree p), g2) =
             ext_tdlmProposeTree E tree m ctr (if length term = 1 then 0 else drawn) g1"
  using assms by (auto simp: propose_def Let_def split: prod.split)

lemma propose_switch:
  assumes "sampleInt S (ctr_stepProb ctr) 1 g = (Some drawn, g1)"
    and "3 \<le> drawn"
    and "sampleInt_Eigen S (ext_Eigen_sum E) (ctr_expProb ctr) g1 = (Some newExp, g2)"
  shows "\<exists>p. propose E S ctr tree term m m' mVar mixVar g = Some (p, g2) \<and>
           p_step p = drawn \<and> p_stepMhr p = 0 \<and> p_newExp p = newExp \<and> p_tree p = tree \<and>
           p_success p = (if newExp \<noteq> m then 1 else 0) \<and>
           p_newTree p = (if newExp \<noteq> m then Some (ext_switchExposure E tree newExp) else None)"
  using assms by (auto simp: propose_def Let_def split: prod.split)

lemma mixMHR_example_rng:
  "snd (mixMHR (example_ext r) n1 n2 ctr ZtR tv a b c tree nt g) = g"
  by (simp add: mixMHR_def example_ext_def Let_def split: prod.split)

lemma update_tree1_unsuccessful_row:
  assumes "propose E S ctr (ps_tree1 ps) (ps_term1 ps) (ps_m1 ps) (ps_m2 ps)
             (ps_m1Var ps) (ps_mixVar ps) g = Some (p, g1)"
    and "p_success p = 0" and "ctr_diagnostics ctr"
  shows "\<exists>ps' g'. update_tree1 E S ctr ZtR treeVar ps dgn g =
           Some (ps', dgn\<lparr>dgn_TreeAccept := dgn_TreeAccept dgn @
                   [[1, real (p_step p), 0, real (ps_m1 ps), real (length (ps_term1 ps)),
                     p_stepMhr p, ps_ratio ps]]\<rparr>, g') \<and>
           ps_ratio ps' = ps_ratio ps \<and> ps_tree2 ps' = ps_tree2 ps \<and>
           ps_term2 ps' = ps_term2 ps \<and> ps_m1 ps' = ps_m1 ps \<and> ps_m2 ps' = ps_m2 ps \<and>
           ps_m2Var ps' = ps_m2Var ps \<and> ps_mixVar ps' = ps_mixVar ps \<and>
           ps_mhr0 ps' = fst (mixMHR E (ps_term1 ps) (ps_term2 ps) ctr ZtR treeVar
                       (ps_m1Var ps) (ps_m2Var ps) (ps_mixVar ps) (p_tree p)
                       (ext_tempV_rows E (p_tree p) = 0) g1) \<and>
           g' = snd (mixMHR E (ps_term1 ps) (ps_term2 ps) ctr ZtR treeVar
                       (ps_m1Var ps) (ps_m2Var ps) (ps_mixVar ps) (p_tree p)
                       (ext_tempV_rows E (p_tree p) = 0) g1)"
  using assms by (simp add: update_tree1_def Let_def case_prod_beta)

lemma update_tree2_unsuccessful_row:
  assumes "propose E S ctr (ps_tree2 ps) (ps_term2 ps) (ps_m2 ps) (ps_m1 ps)
             (ps_m2Var ps) (ps_mixVar ps) g = Some (p, g1)"
    and "p_success p = 0" and "ctr_diagnostics ctr"
  shows "\<exists>ps'. update_tree2 E S ctr ZtR treeVar ps dgn g =
           Some (ps', dgn\<lparr>dgn_TreeAccept := dgn_TreeAccept dgn @
                   [[2, real (p_step p), 0, real (ps_m2 ps), real (length (ps_term2 ps)),
                     p_stepMhr p, ps_ratio ps]]\<rparr>, g1) \<and>
           ps_ratio ps' = ps_ratio ps \<and> ps_mhr0 ps' = ps_mhr0 ps \<and>
           ps_m1 ps' = ps_m1 ps \<and> ps_m2 ps' = ps_m2 ps"
  using assms by (simp add: update_tree2_def Let_def case_prod_beta)

lemma ext_tdlmProposeTree_other_fields:
  "ext_listTerminal (E\<lparr>ext_tdlmProposeTree := f\<rparr>) = ext_listTerminal E"
  "ext_accept (E\<lparr>ext_tdlmProposeTree := f\<rparr>) = ext_accept E"
  "ext_reject (E\<lparr>ext_tdlmProposeTree := f\<rparr>) = ext_reject E"
  "ext_replaceNodeVals (E\<lparr>ext_tdlmProposeTree := f\<rparr>) = ext_replaceNodeVals E"
  "ext_tempV_rows (E\<lparr>ext_tdlmProposeTree := f\<rparr>) = ext_tempV_rows E"
  "ext_set_tempV (E\<lparr>ext_tdlmProposeTree := f\<rparr>) = ext_set_tempV E"
  "ext_posterior (E\<lparr>ext_tdlmProposeTree := f\<rparr>) = ext_posterior E"
  by simp_all

lemma mixMHR_ext_tdlmProposeTree:
  "mixMHR (E\<lparr>ext_tdlmProposeTree := f\<rparr>) nodes1 nodes2 ctr ZtR treeVar m1Var m2Var mixVar
     tree newTree g =
   mixMHR E nodes1 nodes2 ctr ZtR treeVar m1Var m2Var mixVar tree newTree g"
  unfolding mixMHR_def ext_tdlmProposeTree_other_fields ..

lemma accept_reject1_ext_tdlmProposeTree:
  "accept_reject1 (E\<lparr>ext_tdlmProposeTree := f\<rparr>) S ctr ZtR treeVar p ps g =
   accept_reject1 E S ctr ZtR treeVar p ps g"
  unfolding accept_reject1_def mixMHR_ext_tdlmProposeTree ext_tdlmProposeTree_other_fields ..

lemma accept_reject2_ext_tdlmProposeTree:
  "accept_reject2 (E\<lparr>ext_tdlmProposeTree := f\<rparr>) S ctr ZtR treeVar p ps g =
   accept_reject2 E S ctr ZtR treeVar p ps g"
  unfolding accept_reject2_def mixMHR_ext_tdlmProposeTree ext_tdlmProposeTree_other_fields ..

lemma propose_ext_grow:
  assumes "sampleInt S (ctr_stepProb ctr) 1 g = (Some drawn, g1)"
    and "length term = 1" "drawn < 3"
    and "f tree m ctr 0 g1 = ext_tdlmProposeTree E tree m ctr 0 g1"
  shows "propose (E\<lparr>ext_tdlmProposeTree := f\<rparr>) S ctr tree term m m' mVar mixVar g =
         propose E S ctr tree term m m' mVar mixVar g"
  using assms by (simp add: propose_def)

lemma propose_ext_switch:
  assumes "sampleInt S (ctr_stepProb ctr) 1 g = (Some drawn, g1)" and "3 \<le> drawn"
  shows "propose (E\<lparr>ext_tdlmProposeTree := f\<rparr>) S ctr tree term m m' mVar mixVar g =
         propose E S ctr tree term m m' mVar mixVar g"
  using assms by (simp add: propose_def Let_def split: prod.split option.split)

lemma update_tree1_ext:
  assumes "propose (E\<lparr>ext_tdlmProposeTree := f\<rparr>) S ctr (ps_tree1 ps) (ps_term1 ps) (ps_m1 ps)
             (ps_m2 ps) (ps_m1Var ps) (ps_mixVar ps) g =
           propose E S ctr (ps_tree1 ps) (ps_term1 ps) (ps_m1 ps) (ps_m2 ps)
             (ps_m1Var ps) (ps_mixVar ps) g"
  shows "update_tree1 (E\<lparr>ext_tdlmProposeTree := f\<rparr>) S ctr ZtR treeVar ps dgn g =
         update_tree1 E S ctr ZtR treeVar ps dgn g"
  unfolding update_tree1_def assms mixMHR_ext_tdlmProposeTree
    accept_reject1_ext_tdlmProposeTree ext_tdlmProposeTree_other_fields ..

lemma update_tree2_ext:
  assumes "propose (E\<lparr>ext_tdlmProposeTree := f\<rparr>) S ctr (ps_tree2 ps) (ps_term2 ps) (ps_m2 ps)
             (ps_m1 ps) (ps_m2Var ps) (ps_mixVar ps) g =
           propose E S ctr (ps_tree2 ps) (ps_term2 ps) (ps_m2 ps) (ps_m1 ps)
             (ps_m2Var ps) (ps_mixVar ps) g"
  shows "update_tree2 (E\<lparr>ext_tdlmProposeTree := f\<rparr>) S ctr ZtR treeVar ps dgn g =
         update_tree2 E S ctr ZtR treeVar ps dgn g"
  unfolding update_tree2_def assms accept_reject2_ext_tdlmProposeTree
    ext_tdlmProposeTree_other_fields ..

lemma update_tree1_row:
  assumes "propose E S ctr (ps_tree1 ps) (ps_term1 ps) (ps_m1 ps) (ps_m2 ps)
             (ps_m1Var ps) (ps_mixVar ps) g = Some (p, g1)"
  shows "\<exists>ps' dgn' g'. update_tree1 E S ctr ZtR treeVar ps dgn g = Some (ps', dgn', g') \<and>
           (ctr_diagnostics ctr \<longrightarrow>
              (\<exists>row. dgn_TreeAccept dgn' = dgn_TreeAccept dgn @ [row] \<and>
                 row ! 1 = real (p_step p) \<and> row ! 5 = p_stepMhr p))"
  using assms by (simp add: update_tree1_def Let_def case_prod_beta)

lemma update_tree2_row:
  assumes "propose E S ctr (ps_tree2 ps) (ps_term2 ps) (ps_m2 ps) (ps_m1 ps)
             (ps_m2Var ps) (ps_mixVar ps) g = Some (p, g1)"
  shows "\<exists>ps' dgn' g'. update_tree2 E S ctr ZtR treeVar ps dgn g = Some (ps', dgn', g') \<and>
           (ctr_diagnostics ctr \<longrightarrow>
              (\<exists>row. dgn_TreeAccept dgn' = dgn_TreeAccept dgn @ [row] \<and>
                 row ! 1 = real (p_step p) \<and> row ! 5 = p_stepMhr p))"
  using assms by (simp add: update_tree2_def Let_def case_prod_beta)

lemma update_tree1_grow:
  assumes s: "sampleInt S (ctr_stepProb ctr) 1 g = (Some drawn, g1)"
    and one: "length (ps_term1 ps) = 1" and d: "drawn < 3"
  shows "update_tree1 (grow_only E) S ctr ZtR treeVar ps dgn g =
           update_tree1 E S ctr ZtR treeVar ps dgn g"
    and "\<exists>ps' dgn' g'. update_tree1 E S ctr ZtR treeVar ps dgn g = Some (ps', dgn', g') \<and>
           (ctr_diagnostics ctr \<longrightarrow>
              (\<exists>row. dgn_TreeAccept dgn' = dgn_TreeAccept dgn @ [row] \<and> row ! 1 = 0 \<and>
                 row ! 5 = fst (fst (ext_tdlmProposeTree E (ps_tree1 ps) (ps_m1 ps) ctr 0 g1))))"
proof -
  show "update_tree1 (grow_only E) S ctr ZtR treeVar ps dgn g =
           update_tree1 E S ctr ZtR treeVar ps dgn g"
    unfolding grow_only_def
    by (rule update_tree1_ext, rule propose_ext_grow[OF s one d]) simp
  from propose_grow[OF s d, of E "ps_tree1 ps" "ps_term1 ps" "ps_m1 ps" "ps_m2 ps"
      "ps_m1Var ps" "ps_mixVar ps"] one
  obtain p g2 where p: "propose E S ctr (ps_tree1 ps) (ps_term1 ps) (ps_m1 ps) (ps_m2 ps)
             (ps_m1Var ps) (ps_mixVar ps) g = Some (p, g2)"
    and st: "p_step p = 0"
    and mh: "((p_stepMhr p, p_tree p), g2) =
               ext_tdlmProposeTree E (ps_tree1 ps) (ps_m1 ps) ctr 0 g1"
    by auto
  from mh have "p_stepMhr p = fst (fst (ext_tdlmProposeTree E (ps_tree1 ps) (ps_m1 ps) ctr 0 g1))"
    by (metis fst_conv)
  with update_tree1_row[OF p, of ZtR treeVar dgn] st
  show "\<exists>ps' dgn' g'. update_tree1 E S ctr ZtR treeVar ps dgn g = Some (ps', dgn', g') \<and>
           (ctr_diagnostics ctr \<longrightarrow>
              (\<exists>row. dgn_TreeAccept dgn' = dgn_TreeAccept dgn @ [row] \<and> row ! 1 = 0 \<and>
                 row ! 5 = fst (fst (ext_tdlmProposeTree E (ps_tree1 ps) (ps_m1 ps) ctr 0 g1))))"
    by simp
qed

lemma update_tree2_grow:
  assumes s: "sampleInt S (ctr_stepProb ctr) 1 g = (Some drawn, g1)"
    and one: "length (ps_term2 ps) = 1" and d: "drawn < 3"
  shows "update_tree2 (grow_only E) S ctr ZtR treeVar ps dgn g =
           update_tree2 E S ctr ZtR treeVar ps dgn g"
    and "\<exists>ps' dgn' g'. update_tree2 E S ctr ZtR treeVar ps dgn g = Some (ps', dgn', g') \<and>
           (ctr_diagnostics ctr \<longrightarrow>
              (\<exists>row. dgn_TreeAccept dgn' = dgn_TreeAccept dgn @ [row] \<and> row ! 1 = 0 \<and>
                 row ! 5 = fst (fst (ext_tdlmProposeTree E (ps_tree2 ps) (ps_m2 ps) ctr 0 g1))))"
proof -
  show "update_tree2 (grow_only E) S ctr ZtR treeVar ps dgn g =
           update_tree2 E S ctr ZtR treeVar ps dgn g"
    unfolding grow_only_def
    by (rule update_tree2_ext, rule propose_ext_grow[OF s one d]) simp
  from propose_grow[OF s d, of E "ps_tree2 ps" "ps_term2 ps" "ps_m2 ps" "ps_m1 ps"
      "ps_m2Var ps" "ps_mixVar ps"] one
  obtain p g2 where p: "propose E S ctr (ps_tree2 ps) (ps_term2 ps) (ps_m2 ps) (ps_m1 ps)
             (ps_m2Var ps) (ps_mixVar ps) g = Some (p, g2)"
    and st: "p_step p = 0"
    and mh: "((p_stepMhr p, p_tree p), g2) =
               ext_tdlmProposeTree E (ps_tree2 ps) (ps_m2 ps) ctr 0 g1"
    by auto
  from mh have "p_stepMhr p = fst (fst (ext_tdlmProposeTree E (ps_tree2 ps) (ps_m2 ps) ctr 0 g1))"
    by (metis fst_conv)
  with update_tree2_row[OF p, of ZtR treeVar dgn] st
  show "\<exists>ps' dgn' g'. update_tree2 E S ctr ZtR treeVar ps dgn g = Some (ps', dgn', g') \<and>
           (ctr_diagnostics ctr \<longrightarrow>
              (\<exists>row. dgn_TreeAccept dgn' = dgn_TreeAccept dgn @ [row] \<and> row ! 1 = 0 \<and>
                 row ! 5 = fst (fst (ext_tdlmProposeTree E (ps_tree2 ps) (ps_m2 ps) ctr 0 g1))))"
    by simp
qed

lemma update_tree1_switch:
  assumes s: "sampleInt S (ctr_stepProb ctr) 1 g = (Some 3, g1)"
    and e: "sampleInt_Eigen S (ext_Eigen_sum E) (ctr_expProb ctr) g1 = (Some newExp, g2)"
  shows "update_tree1 (E\<lparr>ext_tdlmProposeTree := f\<rparr>) S ctr ZtR treeVar ps dgn g =
           update_tree1 E S ctr ZtR treeVar ps dgn g"
    and "\<exists>ps' dgn' g'. update_tree1 E S ctr ZtR treeVar ps dgn g = Some (ps', dgn', g') \<and>
           (ctr_diagnostics ctr \<longrightarrow>
              (\<exists>row. dgn_TreeAccept dgn' = dgn_TreeAccept dgn @ [row] \<and> row ! 1 = 3 \<and>
                 row ! 5 = 0))"
proof -
  show "update_tree1 (E\<lparr>ext_tdlmProposeTree := f\<rparr>) S ctr ZtR treeVar ps dgn g =
           update_tree1 E S ctr ZtR treeVar ps dgn g"
    by (rule update_tree1_ext, rule propose_ext_switch[OF s]) simp
  from propose_switch[OF s _ e, of "ps_tree1 ps" "ps_term1 ps" "ps_m1 ps" "ps_m2 ps"
      "ps_m1Var ps" "ps_mixVar ps"]
  obtain p where p: "propose E S ctr (ps_tree1 ps) (ps_term1 ps) (ps_m1 ps) (ps_m2 ps)
             (ps_m1Var ps) (ps_mixVar ps) g = Some (p, g2)"
    and st: "p_step p = 3" "p_stepMhr p = 0"
    by auto
  from update_tree1_row[OF p, of ZtR treeVar dgn] st
  show "\<exists>ps' dgn' g'. update_tree1 E S ctr ZtR treeVar ps dgn g = Some (ps', dgn', g') \<and>
           (ctr_diagnostics ctr \<longrightarrow>
              (\<exists>row. dgn_TreeAccept dgn' = dgn_TreeAccept dgn @ [row] \<and> row ! 1 = 3 \<and>
                 row ! 5 = 0))"
    by simp
qed

lemma update_tree2_switch:
  assumes s: "sampleInt S (ctr_stepProb ctr) 1 g = (Some 3, g1)"
    and e: "sampleInt_Eigen S (ext_Eigen_sum E) (ctr_expProb ctr) g1 = (Some newExp, g2)"
  shows "update_tree2 (E\<lparr>ext_tdlmProposeTree := f\<rparr>) S ctr ZtR treeVar ps dgn g =
           update_tree2 E S ctr ZtR treeVar ps dgn g"
    and "\<exists>ps' dgn' g'. update_tree2 E S ctr ZtR treeVar ps dgn g = Some (ps', dgn', g') \<and>
           (ctr_diagnostics ctr \<longrightarrow>
              (\<exists>row. dgn_TreeAccept dgn' = dgn_TreeAccept dgn @ [row] \<and> row ! 1 = 3 \<and>
                 row ! 5 = 0))"
proof -
  show "update_tree2 (E\<lparr>ext_tdlmProposeTree := f\<rparr>) S ctr ZtR treeVar ps dgn g =
           update_tree2 E S ctr ZtR treeVar ps dgn g"
    by (rule update_tree2_ext, rule propose_ext_switch[OF s]) simp
  from propose_switch[OF s _ e, of "ps_tree2 ps" "ps_term2 ps" "ps_m2 ps" "ps_m1 ps"
      "ps_m2Var ps" "ps_mixVar ps"]
  obtain p where p: "propose E S ctr (ps_tree2 ps) (ps_term2 ps) (ps_m2 ps) (ps_m1 ps)
             (ps_m2Var ps) (ps_mixVar ps) g = Some (p, g2)"
    and st: "p_step p = 3" "p_stepMhr p = 0"
    by auto
  from update_tree2_row[OF p, of ZtR treeVar dgn] st
  show "\<exists>ps' dgn' g'. update_tree2 E S ctr ZtR treeVar ps dgn g = Some (ps', dgn', g') \<and>
           (ctr_diagnostics ctr \<longrightarrow>
              (\<exists>row. dgn_TreeAccept dgn' = dgn_TreeAccept dgn @ [row] \<and> row ! 1 = 3 \<and>
                 row ! 5 = 0))"
    by simp
qed

text \<open>
  Claim C6. Let \<open>drawn\<close> be the move type sampled by \<open>sampleInt (stepProb, 1)\<close> at the
  start of the half of the tree-pair step for tree 1 (\<open>update_tree1\<close>) or for tree 2
  (\<open>update_tree2\<close>). When the tree has exactly one terminal node and \<open>drawn\<close> is grow,
  prune or change (\<open>drawn < 3\<close>), the move proposed is grow: \<^verbatim>\<open>tdlmProposeTree\<close> is
  called with step \<open>0\<close> on the tree and its exposure, the half runs as it does with a
  \<^verbatim>\<open>tdlmProposeTree\<close> that can only grow, and the row it appends to \<^verbatim>\<open>TreeAccept\<close> has
  step \<open>0\<close> and the log ratio of that grow proposal. When \<open>drawn\<close> is switch-exposure
  (\<open>3\<close>) and a new exposure is sampled, \<^verbatim>\<open>tdlmProposeTree\<close> is not called at all, whatever
  the number of terminal nodes, and the row has step \<open>3\<close>.
\<close>

theorem tree_update_single_terminal_proposes_grow:
  "sampleInt S (ctr_stepProb ctr) 1 g = (Some drawn, g1) \<Longrightarrow>
   (length (ps_term1 ps) = 1 \<and> drawn < 3 \<longrightarrow>
      update_tree1 (grow_only E) S ctr ZtR treeVar ps dgn g =
        update_tree1 E S ctr ZtR treeVar ps dgn g \<and>
      (\<exists>ps' dgn' g'. update_tree1 E S ctr ZtR treeVar ps dgn g = Some (ps', dgn', g') \<and>
         (ctr_diagnostics ctr \<longrightarrow>
            (\<exists>row. dgn_TreeAccept dgn' = dgn_TreeAccept dgn @ [row] \<and> row ! 1 = 0 \<and>
               row ! 5 =
                 fst (fst (ext_tdlmProposeTree E (ps_tree1 ps) (ps_m1 ps) ctr 0 g1)))))) \<and>
   (length (ps_term2 ps) = 1 \<and> drawn < 3 \<longrightarrow>
      update_tree2 (grow_only E) S ctr ZtR treeVar ps dgn g =
        update_tree2 E S ctr ZtR treeVar ps dgn g \<and>
      (\<exists>ps' dgn' g'. update_tree2 E S ctr ZtR treeVar ps dgn g = Some (ps', dgn', g') \<and>
         (ctr_diagnostics ctr \<longrightarrow>
            (\<exists>row. dgn_TreeAccept dgn' = dgn_TreeAccept dgn @ [row] \<and> row ! 1 = 0 \<and>
               row ! 5 =
                 fst (fst (ext_tdlmProposeTree E (ps_tree2 ps) (ps_m2 ps) ctr 0 g1)))))) \<and>
   (drawn = 3 \<longrightarrow>
      (\<forall>newExp g2.
         sampleInt_Eigen S (ext_Eigen_sum E) (ctr_expProb ctr) g1 = (Some newExp, g2) \<longrightarrow>
         (\<forall>f. update_tree1 (E\<lparr>ext_tdlmProposeTree := f\<rparr>) S ctr ZtR treeVar ps dgn g =
               update_tree1 E S ctr ZtR treeVar ps dgn g) \<and>
         (\<exists>ps' dgn' g'. update_tree1 E S ctr ZtR treeVar ps dgn g = Some (ps', dgn', g') \<and>
            (ctr_diagnostics ctr \<longrightarrow>
               (\<exists>row. dgn_TreeAccept dgn' = dgn_TreeAccept dgn @ [row] \<and> row ! 1 = 3 \<and>
                  row ! 5 = 0))) \<and>
         (\<forall>f. update_tree2 (E\<lparr>ext_tdlmProposeTree := f\<rparr>) S ctr ZtR treeVar ps dgn g =
               update_tree2 E S ctr ZtR treeVar ps dgn g) \<and>
         (\<exists>ps' dgn' g'. update_tree2 E S ctr ZtR treeVar ps dgn g = Some (ps', dgn', g') \<and>
            (ctr_diagnostics ctr \<longrightarrow>
               (\<exists>row. dgn_TreeAccept dgn' = dgn_TreeAccept dgn @ [row] \<and> row ! 1 = 3 \<and>
                  row ! 5 = 0)))))"
proof (intro conjI impI allI)
  assume s: "sampleInt S (ctr_stepProb ctr) 1 g = (Some drawn, g1)"
    and a: "length (ps_term1 ps) = 1 \<and> drawn < 3"
  then have one: "length (ps_term1 ps) = 1" and d: "drawn < 3" by simp_all
  show "update_tree1 (grow_only E) S ctr ZtR treeVar ps dgn g =
        update_tree1 E S ctr ZtR treeVar ps dgn g"
    by (rule update_tree1_grow(1)[OF s one d])
  show "\<exists>ps' dgn' g'. update_tree1 E S ctr ZtR treeVar ps dgn g = Some (ps', dgn', g') \<and>
         (ctr_diagnostics ctr \<longrightarrow>
            (\<exists>row. dgn_TreeAccept dgn' = dgn_TreeAccept dgn @ [row] \<and> row ! 1 = 0 \<and>
               row ! 5 =
                 fst (fst (ext_tdlmProposeTree E (ps_tree1 ps) (ps_m1 ps) ctr 0 g1))))"
    by (rule update_tree1_grow(2)[OF s one d])
next
  assume s: "sampleInt S (ctr_stepProb ctr) 1 g = (Some drawn, g1)"
    and a: "length (ps_term2 ps) = 1 \<and> drawn < 3"
  then have one: "length (ps_term2 ps) = 1" and d: "drawn < 3" by simp_all
  show "update_tree2 (grow_only E) S ctr ZtR treeVar ps dgn g =
        update_tree2 E S ctr ZtR treeVar ps dgn g"
    by (rule update_tree2_grow(1)[OF s one d])
  show "\<exists>ps' dgn' g'. update_tree2 E S ctr ZtR treeVar ps dgn g = Some (ps', dgn', g') \<and>
         (ctr_diagnostics ctr \<longrightarrow>
            (\<exists>row. dgn_TreeAccept dgn' = dgn_TreeAccept dgn @ [row] \<and> row ! 1 = 0 \<and>
               row ! 5 =
                 fst (fst (ext_tdlmProposeTree E (ps_tree2 ps) (ps_m2 ps) ctr 0 g1))))"
    by (rule update_tree2_grow(2)[OF s one d])
next
  fix newExp g2 f
  assume "sampleInt S (ctr_stepProb ctr) 1 g = (Some drawn, g1)" and "drawn = 3"
  then have s: "sampleInt S (ctr_stepProb ctr) 1 g = (Some 3, g1)" by simp
  assume e: "sampleInt_Eigen S (ext_Eigen_sum E) (ctr_expProb ctr) g1 = (Some newExp, g2)"
  show "update_tree1 (E\<lparr>ext_tdlmProposeTree := f\<rparr>) S ctr ZtR treeVar ps dgn g =
        update_tree1 E S ctr ZtR treeVar ps dgn g"
    by (rule update_tree1_switch(1)[OF s e])
next
  fix newExp g2
  assume "sampleInt S (ctr_stepProb ctr) 1 g = (Some drawn, g1)" and "drawn = 3"
  then have s: "sampleInt S (ctr_stepProb ctr) 1 g = (Some 3, g1)" by simp
  assume e: "sampleInt_Eigen S (ext_Eigen_sum E) (ctr_expProb ctr) g1 = (Some newExp, g2)"
  show "\<exists>ps' dgn' g'. update_tree1 E S ctr ZtR treeVar ps dgn g = Some (ps', dgn', g') \<and>
            (ctr_diagnostics ctr \<longrightarrow>
               (\<exists>row. dgn_TreeAccept dgn' = dgn_TreeAccept dgn @ [row] \<and> row ! 1 = 3 \<and>
                  row ! 5 = 0))"
    by (rule update_tree1_switch(2)[OF s e])
next
  fix newExp g2 f
  assume "sampleInt S (ctr_stepProb ctr) 1 g = (Some drawn, g1)" and "drawn = 3"
  then have s: "sampleInt S (ctr_stepProb ctr) 1 g = (Some 3, g1)" by simp
  assume e: "sampleInt_Eigen S (ext_Eigen_sum E) (ctr_expProb ctr) g1 = (Some newExp, g2)"
  show "update_tree2 (E\<lparr>ext_tdlmProposeTree := f\<rparr>) S ctr ZtR treeVar ps dgn g =
        update_tree2 E S ctr ZtR treeVar ps dgn g"
    by (rule update_tree2_switch(1)[OF s e])
next
  fix newExp g2
  assume "sampleInt S (ctr_stepProb ctr) 1 g = (Some drawn, g1)" and "drawn = 3"
  then have s: "sampleInt S (ctr_stepProb ctr) 1 g = (Some 3, g1)" by simp
  assume e: "sampleInt_Eigen S (ext_Eigen_sum E) (ctr_expProb ctr) g1 = (Some newExp, g2)"
  show "\<exists>ps' dgn' g'. update_tree2 E S ctr ZtR treeVar ps dgn g = Some (ps', dgn', g') \<and>
            (ctr_diagnostics ctr \<longrightarrow>
               (\<exists>row. dgn_TreeAccept dgn' = dgn_TreeAccept dgn @ [row] \<and> row ! 1 = 3 \<and>
                  row ! 5 = 0))"
    by (rule update_tree2_switch(2)[OF s e])
qed

lemma sampleInt_recording_steps:
  "sampleInt recording [1/4, 1/4, 1/4, 1/4] 1 (1/8 # us, lg) = (Some 0, (us, lg @ [Runif 0 1]))"
  "sampleInt recording [1/4, 1/4, 1/4, 1/4] 1 (3/8 # us, lg) = (Some 1, (us, lg @ [Runif 0 1]))"
  "sampleInt recording [1/4, 1/4, 1/4, 1/4] 1 (5/8 # us, lg) = (Some 2, (us, lg @ [Runif 0 1]))"
  "sampleInt recording [1/4, 1/4, 1/4, 1/4] 1 (7/8 # us, lg) = (Some 3, (us, lg @ [Runif 0 1]))"
  by (simp_all add: sampleInt_def recording_def sampleInt_scan.simps dbl_dyadic_values)

lemma sampleInt_Eigen_recording_expProb:
  "sampleInt_Eigen recording sum_list [1/2, 1/2] (1/4 # us, lg) = (Some 0, (us, lg @ [Runif 0 1]))"
  "sampleInt_Eigen recording sum_list [1/2, 1/2] (3/4 # us, lg) = (Some 1, (us, lg @ [Runif 0 1]))"
  by (simp_all add: sampleInt_Eigen_def recording_def sampleInt_scan.simps dbl_dyadic_values)

lemma propose_example_steps:
  assumes "ctr_stepProb ctr = [1/4, 1/4, 1/4, 1/4]"
  shows "propose (example_ext r) recording ctr tree [nd] m m' mVar mixVar (3/8 # us, lg) =
     Some (\<lparr>p_tree = tree, p_step = 0, p_stepMhr = 0, p_success = 0, p_newExp = m,
            p_newExpVar = mVar, p_newMixVar = mixVar,
            p_newTerm = [\<lparr>nv_X = [1, 1], nv_ZtX = [2]\<rparr>], p_newTree = None\<rparr>,
           (us, lg @ [Runif 0 1]))"
    and "propose (example_ext r) recording ctr tree [nd] m m' mVar mixVar (5/8 # us, lg) =
     Some (\<lparr>p_tree = tree, p_step = 0, p_stepMhr = 0, p_success = 0, p_newExp = m,
            p_newExpVar = mVar, p_newMixVar = mixVar,
            p_newTerm = [\<lparr>nv_X = [1, 1], nv_ZtX = [2]\<rparr>], p_newTree = None\<rparr>,
           (us, lg @ [Runif 0 1]))"
  using assms by (simp_all add: propose_def sampleInt_recording_steps example_ext_def)

lemma propose_example_switch_same:
  assumes "ctr_stepProb ctr = [1/4, 1/4, 1/4, 1/4]" and "ctr_expProb ctr = [1/2, 1/2]"
  shows "propose (example_ext r) recording ctr tree term 0 m' mVar mixVar (7/8 # 1/4 # us, lg) =
     Some (\<lparr>p_tree = tree, p_step = 3, p_stepMhr = 0, p_success = 0, p_newExp = 0,
            p_newExpVar = mVar, p_newMixVar = mixVar, p_newTerm = [], p_newTree = None\<rparr>,
           (us, lg @ [Runif 0 1, Runif 0 1]))"
    and "propose (example_ext r) recording ctr tree term 1 m' mVar mixVar (7/8 # 3/4 # us, lg) =
     Some (\<lparr>p_tree = tree, p_step = 3, p_stepMhr = 0, p_success = 0, p_newExp = 1,
            p_newExpVar = mVar, p_newMixVar = mixVar, p_newTerm = [], p_newTree = None\<rparr>,
           (us, lg @ [Runif 0 1, Runif 0 1]))"
  using assms
  by (simp_all add: propose_def sampleInt_recording_steps sampleInt_Eigen_recording_expProb
      example_ext_def)

lemma mixMHR_example_fields:
  "mhr_beta (fst (mixMHR (example_ext r) n1 n2 ctr ZtR tv a b c tree nt g)) = 0"
  "mhr_logVThetaChol (fst (mixMHR (example_ext r) n1 n2 ctr ZtR tv a b c tree nt g)) = 0"
  "mhr_nTerm1 (fst (mixMHR (example_ext r) n1 n2 ctr ZtR tv a b c tree nt g)) = real (length n1)"
  "mhr_nTerm2 (fst (mixMHR (example_ext r) n1 n2 ctr ZtR tv a b c tree nt g)) = real (length n2)"
  by (simp_all add: mixMHR_def example_ext_def Let_def case_prod_beta)

lemma propose_example_switch_other:
  assumes "ctr_stepProb ctr = [1/4, 1/4, 1/4, 1/4]" and "ctr_expProb ctr = [1/2, 1/2]"
  shows "propose (example_ext r) recording ctr tree term 0 m' mVar mixVar (7/8 # 3/4 # us, lg) =
     Some (\<lparr>p_tree = tree, p_step = 3, p_stepMhr = 0, p_success = 1, p_newExp = 1,
            p_newExpVar = ctr_muExp ctr ! 1, p_newMixVar = pair_mixVar ctr 1 m',
            p_newTerm = [\<lparr>nv_X = [1, 1], nv_ZtX = [2]\<rparr>], p_newTree = Some tree\<rparr>,
           (us, lg @ [Runif 0 1, Runif 0 1]))"
  using assms
  by (simp add: propose_def sampleInt_recording_steps sampleInt_Eigen_recording_expProb
      example_ext_def)

lemma example_switch_accept:
  "\<exists>ps' g'. update_tree1 (example_ext 0) recording example_ctr [3] 1 example_pair
       \<lparr>dgn_TreeAccept = []\<rparr> ([7/8, 3/4, 1/2], []) =
     Some (ps', \<lparr>dgn_TreeAccept = [[1, 3, 2, 1, 1, 0, 0]]\<rparr>, g') \<and> ps_m1 ps' = 1"
proof -
  let ?E = "example_ext 0 :: (unit, real list \<times> law list) ext"
  let ?nd = "\<lparr>nv_X = [1, 1], nv_ZtX = [2]\<rparr>"
  have c: "ctr_stepProb example_ctr = [1/4, 1/4, 1/4, 1/4]" "ctr_expProb example_ctr = [1/2, 1/2]"
    "ctr_diagnostics example_ctr" "\<not> ctr_binomial example_ctr" "\<not> ctr_zinb example_ctr"
    "ctr_R example_ctr = [1, 2]" "ctr_Vg example_ctr = [[1/2]]" "ctr_n example_ctr = 2"
    "ctr_xiInvSigma2 example_ctr = 1" "ctr_muExp example_ctr ! 1 = 1"
    "pair_mixVar example_ctr 1 1 = 0"
    by (simp_all add: example_ctr_def pair_mixVar_def)
  have p: "propose ?E recording example_ctr (ps_tree1 example_pair) (ps_term1 example_pair)
      (ps_m1 example_pair) (ps_m2 example_pair) (ps_m1Var example_pair)
      (ps_mixVar example_pair) ([7/8, 3/4, 1/2], []) =
    Some (\<lparr>p_tree = (), p_step = 3, p_stepMhr = 0, p_success = 1, p_newExp = 1,
            p_newExpVar = 1, p_newMixVar = 0, p_newTerm = [?nd], p_newTree = Some ()\<rparr>,
          ([1/2], [Runif 0 1, Runif 0 1]))"
    using propose_example_switch_other[OF c(1,2), of 0 "()" "[?nd]" 1 1 1 "[1/2]" "[]"] c(10,11)
    by (simp add: example_pair_def)
  have e: "ext_replaceNodeVals ?E = (\<lambda>t n. ())" "ext_set_tempV ?E = (\<lambda>t v. ())"
    "ext_listTerminal ?E = (\<lambda>t. [?nd])" "ext_tempV_rows ?E = (\<lambda>t. 0)"
    by (simp_all add: example_ext_def)
  show ?thesis
    unfolding update_tree1_def p
    by (simp add: Let_def case_prod_beta accept_reject1_def mixMHR_example_fields
        mixMHR_example_rng recording_def c(3-9) e example_pair_def dotv_def
        selfadjoint_lower_vec_def)
qed

theorem tree_update_single_terminal_proposes_grow_witness:
  "sampleInt recording (ctr_stepProb example_ctr) 1 ([3/8], []) = (Some 1, ([], [Runif 0 1])) \<and>
   length (ps_term1 example_pair) = 1 \<and>
   update_tree1 (grow_only (example_ext 0)) recording example_ctr [3] 1 example_pair
       \<lparr>dgn_TreeAccept = []\<rparr> ([3/8], []) =
     update_tree1 (example_ext 0) recording example_ctr [3] 1 example_pair
       \<lparr>dgn_TreeAccept = []\<rparr> ([3/8], []) \<and>
   (\<exists>ps' g'. update_tree1 (example_ext 0) recording example_ctr [3] 1 example_pair
       \<lparr>dgn_TreeAccept = []\<rparr> ([3/8], []) =
     Some (ps', \<lparr>dgn_TreeAccept = [[1, 0, 0, 0, 1, 0, 0]]\<rparr>, g')) \<and>
   sampleInt recording (ctr_stepProb example_ctr) 1 ([5/8], []) = (Some 2, ([], [Runif 0 1])) \<and>
   length (ps_term2 example_pair) = 1 \<and>
   update_tree2 (grow_only (example_ext 0)) recording example_ctr [3] 1 example_pair
       \<lparr>dgn_TreeAccept = []\<rparr> ([5/8], []) =
     update_tree2 (example_ext 0) recording example_ctr [3] 1 example_pair
       \<lparr>dgn_TreeAccept = []\<rparr> ([5/8], []) \<and>
   (\<exists>ps'. update_tree2 (example_ext 0) recording example_ctr [3] 1 example_pair
       \<lparr>dgn_TreeAccept = []\<rparr> ([5/8], []) =
     Some (ps', \<lparr>dgn_TreeAccept = [[2, 0, 0, 1, 1, 0, 0]]\<rparr>, ([], [Runif 0 1]))) \<and>
   sampleInt recording (ctr_stepProb example_ctr) 1 ([7/8, 3/4, 1/2], [])
     = (Some 3, ([3/4, 1/2], [Runif 0 1])) \<and>
   sampleInt_Eigen recording (ext_Eigen_sum (example_ext 0)) (ctr_expProb example_ctr)
       ([3/4, 1/2], [Runif 0 1])
     = (Some 1, ([1/2], [Runif 0 1, Runif 0 1])) \<and>
   (\<forall>f. update_tree1 ((example_ext 0)\<lparr>ext_tdlmProposeTree := f\<rparr>) recording example_ctr [3] 1
          example_pair \<lparr>dgn_TreeAccept = []\<rparr> ([7/8, 3/4, 1/2], []) =
        update_tree1 (example_ext 0) recording example_ctr [3] 1 example_pair
          \<lparr>dgn_TreeAccept = []\<rparr> ([7/8, 3/4, 1/2], [])) \<and>
   (\<exists>ps' g'. update_tree1 (example_ext 0) recording example_ctr [3] 1 example_pair
       \<lparr>dgn_TreeAccept = []\<rparr> ([7/8, 3/4, 1/2], []) =
     Some (ps', \<lparr>dgn_TreeAccept = [[1, 3, 2, 1, 1, 0, 0]]\<rparr>, g') \<and> ps_m1 ps' = 1) \<and>
   (\<exists>ps'. update_tree2 (example_ext 0) recording example_ctr [3] 1 example_pair
       \<lparr>dgn_TreeAccept = []\<rparr> ([7/8, 3/4], []) =
     Some (ps', \<lparr>dgn_TreeAccept = [[2, 3, 0, 1, 1, 0, 0]]\<rparr>, ([], [Runif 0 1, Runif 0 1])))"
proof -
  let ?E = "example_ext 0 :: (unit, real list \<times> law list) ext"
  let ?d = "\<lparr>dgn_TreeAccept = []\<rparr>"
  let ?nd = "\<lparr>nv_X = [1, 1], nv_ZtX = [2]\<rparr>"
  have c: "ctr_stepProb example_ctr = [1/4, 1/4, 1/4, 1/4]" "ctr_expProb example_ctr = [1/2, 1/2]"
    "ctr_diagnostics example_ctr"
    by (simp_all add: example_ctr_def)
  have e: "ext_Eigen_sum ?E = sum_list" by (simp add: example_ext_def)
  have s1: "sampleInt recording (ctr_stepProb example_ctr) 1 ([3/8], []) =
      (Some 1, ([], [Runif 0 1]))"
    and s2: "sampleInt recording (ctr_stepProb example_ctr) 1 ([5/8], []) =
      (Some 2, ([], [Runif 0 1]))"
    and s3: "sampleInt recording (ctr_stepProb example_ctr) 1 ([7/8, 3/4, 1/2], []) =
      (Some 3, ([3/4, 1/2], [Runif 0 1]))"
    by (simp_all add: c sampleInt_recording_steps)
  have s4: "sampleInt_Eigen recording (ext_Eigen_sum ?E) (ctr_expProb example_ctr)
      ([3/4, 1/2], [Runif 0 1]) = (Some 1, ([1/2], [Runif 0 1, Runif 0 1]))"
    by (simp add: c e sampleInt_Eigen_recording_expProb)
  have l: "length (ps_term1 example_pair) = 1" "length (ps_term2 example_pair) = 1"
    by (simp_all add: example_pair_def)
  note t1 = tree_update_single_terminal_proposes_grow[OF s1,
      where ps = example_pair and E = ?E and ZtR = "[3]" and treeVar = 1 and dgn = ?d]
  note t2 = tree_update_single_terminal_proposes_grow[OF s2,
      where ps = example_pair and E = ?E and ZtR = "[3]" and treeVar = 1 and dgn = ?d]
  note t3 = tree_update_single_terminal_proposes_grow[OF s3,
      where ps = example_pair and E = ?E and ZtR = "[3]" and treeVar = 1 and dgn = ?d]
  from t1 l have g1: "update_tree1 (grow_only ?E) recording example_ctr [3] 1 example_pair ?d
      ([3/8], []) = update_tree1 ?E recording example_ctr [3] 1 example_pair ?d ([3/8], [])"
    by simp
  from t2 l have g2: "update_tree2 (grow_only ?E) recording example_ctr [3] 1 example_pair ?d
      ([5/8], []) = update_tree2 ?E recording example_ctr [3] 1 example_pair ?d ([5/8], [])"
    by simp
  from t3 s4 have g3: "\<forall>f. update_tree1 (?E\<lparr>ext_tdlmProposeTree := f\<rparr>) recording example_ctr
      [3] 1 example_pair ?d ([7/8, 3/4, 1/2], []) =
    update_tree1 ?E recording example_ctr [3] 1 example_pair ?d ([7/8, 3/4, 1/2], [])"
    by simp
  have p1: "propose ?E recording example_ctr (ps_tree1 example_pair) (ps_term1 example_pair)
      (ps_m1 example_pair) (ps_m2 example_pair) (ps_m1Var example_pair)
      (ps_mixVar example_pair) ([3/8], []) =
    Some (\<lparr>p_tree = (), p_step = 0, p_stepMhr = 0, p_success = 0, p_newExp = 0,
            p_newExpVar = 1, p_newMixVar = 1, p_newTerm = [?nd], p_newTree = None\<rparr>,
          ([], [Runif 0 1]))"
    using propose_example_steps(1)[OF c(1), of 0 "()" ?nd 0 1 1 1 "[]" "[]"]
    by (simp add: example_pair_def)
  have p2: "propose ?E recording example_ctr (ps_tree2 example_pair) (ps_term2 example_pair)
      (ps_m2 example_pair) (ps_m1 example_pair) (ps_m2Var example_pair)
      (ps_mixVar example_pair) ([5/8], []) =
    Some (\<lparr>p_tree = (), p_step = 0, p_stepMhr = 0, p_success = 0, p_newExp = 1,
            p_newExpVar = 1, p_newMixVar = 1, p_newTerm = [?nd], p_newTree = None\<rparr>,
          ([], [Runif 0 1]))"
    using propose_example_steps(2)[OF c(1), of 0 "()" ?nd 1 0 1 1 "[]" "[]"]
    by (simp add: example_pair_def)
  have p3: "propose ?E recording example_ctr (ps_tree2 example_pair) (ps_term2 example_pair)
      (ps_m2 example_pair) (ps_m1 example_pair) (ps_m2Var example_pair)
      (ps_mixVar example_pair) ([7/8, 3/4], []) =
    Some (\<lparr>p_tree = (), p_step = 3, p_stepMhr = 0, p_success = 0, p_newExp = 1,
            p_newExpVar = 1, p_newMixVar = 1, p_newTerm = [], p_newTree = None\<rparr>,
          ([], [Runif 0 1, Runif 0 1]))"
    using propose_example_switch_same(2)[OF c(1,2), of 0 "()" "[?nd]" 0 1 1 "[]" "[]"]
    by (simp add: example_pair_def)
  from update_tree1_unsuccessful_row[OF p1 _ c(3), of "[3]" 1 ?d]
  have r1: "\<exists>ps' g'. update_tree1 ?E recording example_ctr [3] 1 example_pair ?d ([3/8], []) =
      Some (ps', \<lparr>dgn_TreeAccept = [[1, 0, 0, 0, 1, 0, 0]]\<rparr>, g')"
    by (auto simp: example_pair_def)
  from update_tree2_unsuccessful_row[OF p2 _ c(3), of "[3]" 1 ?d]
  have r2: "\<exists>ps'. update_tree2 ?E recording example_ctr [3] 1 example_pair ?d ([5/8], []) =
      Some (ps', \<lparr>dgn_TreeAccept = [[2, 0, 0, 1, 1, 0, 0]]\<rparr>, ([], [Runif 0 1]))"
    by (auto simp: example_pair_def)
  from update_tree2_unsuccessful_row[OF p3 _ c(3), of "[3]" 1 ?d]
  have r3: "\<exists>ps'. update_tree2 ?E recording example_ctr [3] 1 example_pair ?d
      ([7/8, 3/4], []) =
    Some (ps', \<lparr>dgn_TreeAccept = [[2, 3, 0, 1, 1, 0, 0]]\<rparr>, ([], [Runif 0 1, Runif 0 1]))"
    by (auto simp: example_pair_def)
  from s1 l(1) g1 r1 s2 l(2) g2 r2 s3 s4 g3 example_switch_accept r3 show ?thesis by blast
qed

subsection \<open>tdlmmTreeMCMC: the accept/reject trace\<close>

lemma propose_example_grow:
  assumes "ctr_stepProb ctr = [1/4, 1/4, 1/4, 1/4]"
  shows "propose (example_ext r) recording ctr tree [nd] m m' mVar mixVar (1/8 # us, lg) =
     Some (\<lparr>p_tree = tree, p_step = 0, p_stepMhr = 0, p_success = 0, p_newExp = m,
            p_newExpVar = mVar, p_newMixVar = mixVar,
            p_newTerm = [\<lparr>nv_X = [1, 1], nv_ZtX = [2]\<rparr>], p_newTree = None\<rparr>,
           (us, lg @ [Runif 0 1]))"
  using assms
  by (simp add: propose_def sampleInt_def recording_def example_ext_def sampleInt_scan.simps)

lemma mixMHR_example_fit:
  assumes "mixVar \<noteq> 0"
  shows "mat_vec 2
           (mhr_Xd (fst (mixMHR (example_ext r) [\<lparr>nv_X = [1, 1], nv_ZtX = [2]\<rparr>]
              [\<lparr>nv_X = [1, 1], nv_ZtX = [2]\<rparr>] ctr ZtR tv a b mixVar tree nt g)))
           (mhr_drawAll (fst (mixMHR (example_ext r) [\<lparr>nv_X = [1, 1], nv_ZtX = [2]\<rparr>]
              [\<lparr>nv_X = [1, 1], nv_ZtX = [2]\<rparr>] ctr ZtR tv a b mixVar tree nt g)))
         = [3, 3]"
proof -
  have X: "Xd (mixMHR_design ctr [\<lparr>nv_X = [1, 1], nv_ZtX = [2]\<rparr>]
              [\<lparr>nv_X = [1, 1], nv_ZtX = [2]\<rparr>] tv a b mixVar) = [[1, 1], [1, 1], [1, 1]]"
    using assms by (simp add: Xd_mixMHR_design cwise_prod_def)
  have u2: "[0..<2] = [0::nat, 1]" and u3: "[0..<3] = [0::nat, 1, 2]"
    by (simp_all add: upt_rec)
  show ?thesis
    by (simp add: mixMHR_def example_ext_def Let_def case_prod_beta X mat_vec_def u2 u3
        numeral_3_eq_3)
qed

subsection \<open>What the tree-pair step writes to the control state\<close>

lemma uvr_frame:
  "ctr_R (fst (update_variance_residuals S t ps ctr g)) = ctr_R ctr"
  "ctr_Ystar (fst (update_variance_residuals S t ps ctr g)) = ctr_Ystar ctr"
  "ctr_fhat (fst (update_variance_residuals S t ps ctr g)) = ctr_fhat ctr"
  "ctr_n (fst (update_variance_residuals S t ps ctr g)) = ctr_n ctr"
  "ctr_nTrees (fst (update_variance_residuals S t ps ctr g)) = ctr_nTrees ctr"
  "ctr_b (fst (update_variance_residuals S t ps ctr g)) = ctr_b ctr"
  "ctr_burn (fst (update_variance_residuals S t ps ctr g)) = ctr_burn ctr"
  "ctr_expProb (fst (update_variance_residuals S t ps ctr g)) = ctr_expProb ctr"
  "ctr_modKappa (fst (update_variance_residuals S t ps ctr g)) = ctr_modKappa ctr"
  "ctr_Rmat (fst (update_variance_residuals S t ps ctr g)) =
     (ctr_Rmat ctr)[t := mat_vec (ctr_n ctr) (mhr_Xd (ps_mhr0 ps)) (mhr_drawAll (ps_mhr0 ps))]"
  by (simp_all add: update_variance_residuals_def Let_def case_prod_beta)

lemma tdlmmTreeMCMC_ctr:
  fixes E :: "('t, 'g) ext"
  assumes "tdlmmTreeMCMC E S t tree1 tree2 ctr dgn g = Some (tree1', tree2', ctr', dgn', g')"
  shows "\<exists>(ps :: 't pair_state) g2. ctr' = fst (update_variance_residuals S t ps ctr g2)"
proof -
  from assms obtain ps2 :: "'t pair_state" and g2 where "update_variance_residuals S t ps2 ctr g2 = (ctr', g')"
    by (auto simp: tdlmmTreeMCMC_def Let_def split: option.splits prod.splits)
  then have "ctr' = fst (update_variance_residuals S t ps2 ctr g2)" by simp
  then show ?thesis by blast
qed

lemma length_mat_vec [simp]: "length (mat_vec n M v) = n"
  by (simp add: mat_vec_def)

lemma tdlmmTreeMCMC_frame:
  fixes E :: "('t, 'g) ext"
  assumes "tdlmmTreeMCMC E S t tree1 tree2 ctr dgn g = Some (tree1', tree2', ctr', dgn', g')"
  shows "ctr_R ctr' = ctr_R ctr" "ctr_Ystar ctr' = ctr_Ystar ctr" "ctr_fhat ctr' = ctr_fhat ctr"
    "ctr_n ctr' = ctr_n ctr" "ctr_nTrees ctr' = ctr_nTrees ctr" "ctr_b ctr' = ctr_b ctr"
    "ctr_burn ctr' = ctr_burn ctr" "ctr_expProb ctr' = ctr_expProb ctr"
    "ctr_modKappa ctr' = ctr_modKappa ctr"
    "\<exists>v. length v = ctr_n ctr \<and> ctr_Rmat ctr' = (ctr_Rmat ctr)[t := v]"
proof -
  from tdlmmTreeMCMC_ctr[OF assms] obtain ps :: "'t pair_state" and g2
    where c: "ctr' = fst (update_variance_residuals S t ps ctr g2)" by blast
  show "ctr_R ctr' = ctr_R ctr" "ctr_Ystar ctr' = ctr_Ystar ctr" "ctr_fhat ctr' = ctr_fhat ctr"
    "ctr_n ctr' = ctr_n ctr" "ctr_nTrees ctr' = ctr_nTrees ctr" "ctr_b ctr' = ctr_b ctr"
    "ctr_burn ctr' = ctr_burn ctr" "ctr_expProb ctr' = ctr_expProb ctr"
    "ctr_modKappa ctr' = ctr_modKappa ctr"
    by (simp_all add: c uvr_frame)
  have "length (mat_vec (ctr_n ctr) (mhr_Xd (ps_mhr0 ps)) (mhr_drawAll (ps_mhr0 ps))) = ctr_n ctr"
    by simp
  then show "\<exists>v. length v = ctr_n ctr \<and> ctr_Rmat ctr' = (ctr_Rmat ctr)[t := v]"
    unfolding c uvr_frame by blast
qed

lemma tree_iter_frame:
  assumes "tree_iter E S t st = Some st'"
  shows "ctr_Ystar (st_ctr st') = ctr_Ystar (st_ctr st)"
    "ctr_n (st_ctr st') = ctr_n (st_ctr st)"
    "ctr_nTrees (st_ctr st') = ctr_nTrees (st_ctr st)"
    "ctr_b (st_ctr st') = ctr_b (st_ctr st)"
    "ctr_burn (st_ctr st') = ctr_burn (st_ctr st)"
    "ctr_expProb (st_ctr st') = ctr_expProb (st_ctr st)"
    "ctr_modKappa (st_ctr st') = ctr_modKappa (st_ctr st)"
    "\<exists>v. length v = ctr_n (st_ctr st) \<and>
         ctr_Rmat (st_ctr st') = (ctr_Rmat (st_ctr st))[t := v] \<and>
         ctr_fhat (st_ctr st') = vadd (ctr_fhat (st_ctr st)) (ctr_Rmat (st_ctr st') ! t) \<and>
         ctr_R (st_ctr st') =
           (if t + 1 < ctr_nTrees (st_ctr st)
            then vadd (ctr_R (st_ctr st))
                   (vsub (ctr_Rmat (st_ctr st') ! (t + 1)) (ctr_Rmat (st_ctr st') ! t))
            else ctr_R (st_ctr st))"
proof -
  from assms obtain tree1 tree2 ctr1 dgn1 g1 where
    m: "tdlmmTreeMCMC E S t (st_trees1 st ! t) (st_trees2 st ! t) (st_ctr st) (st_dgn st)
          (st_rng st) = Some (tree1, tree2, ctr1, dgn1, g1)"
    by (auto simp: tree_iter_def split: option.splits)
  note f = tdlmmTreeMCMC_frame[OF m]
  from assms m have c: "st_ctr st' =
      (if t + 1 < ctr_nTrees ctr1
       then ctr1\<lparr>ctr_fhat := vadd (ctr_fhat ctr1) (ctr_Rmat ctr1 ! t),
                 ctr_R := vadd (ctr_R ctr1) (vsub (ctr_Rmat ctr1 ! (t + 1)) (ctr_Rmat ctr1 ! t))\<rparr>
       else ctr1\<lparr>ctr_fhat := vadd (ctr_fhat ctr1) (ctr_Rmat ctr1 ! t)\<rparr>)"
    by (auto simp: tree_iter_def Let_def)
  show "ctr_Ystar (st_ctr st') = ctr_Ystar (st_ctr st)"
    "ctr_n (st_ctr st') = ctr_n (st_ctr st)"
    "ctr_nTrees (st_ctr st') = ctr_nTrees (st_ctr st)"
    "ctr_b (st_ctr st') = ctr_b (st_ctr st)"
    "ctr_burn (st_ctr st') = ctr_burn (st_ctr st)"
    "ctr_expProb (st_ctr st') = ctr_expProb (st_ctr st)"
    "ctr_modKappa (st_ctr st') = ctr_modKappa (st_ctr st)"
    using f(2,4-9) by (simp_all add: c)
  from f(10) obtain v where v: "length v = ctr_n (st_ctr st)"
    "ctr_Rmat ctr1 = (ctr_Rmat (st_ctr st))[t := v]" by blast
  have "ctr_Rmat (st_ctr st') = ctr_Rmat ctr1" by (simp add: c)
  with v f(1,3,5) show "\<exists>v. length v = ctr_n (st_ctr st) \<and>
         ctr_Rmat (st_ctr st') = (ctr_Rmat (st_ctr st))[t := v] \<and>
         ctr_fhat (st_ctr st') = vadd (ctr_fhat (st_ctr st)) (ctr_Rmat (st_ctr st') ! t) \<and>
         ctr_R (st_ctr st') =
           (if t + 1 < ctr_nTrees (st_ctr st)
            then vadd (ctr_R (st_ctr st))
                   (vsub (ctr_Rmat (st_ctr st') ! (t + 1)) (ctr_Rmat (st_ctr st') ! t))
            else ctr_R (st_ctr st))"
    by (intro exI[of _ v]) (simp add: c)
qed

lemma tree_loop_append:
  "tree_loop E S (ts @ us) st =
     (case tree_loop E S ts st of None \<Rightarrow> None | Some st' \<Rightarrow> tree_loop E S us st')"
  by (induction ts arbitrary: st) (auto split: option.splits)

lemma tree_loop_Suc:
  "tree_loop E S [0..<Suc t] st =
     (case tree_loop E S [0..<t] st of None \<Rightarrow> None | Some st' \<Rightarrow> tree_iter E S t st')"
  by (simp add: tree_loop_append split: option.splits)

subsection \<open>The running residual\<close>

lemma length_vadd [simp]: "length (vadd a b) = min (length a) (length b)"
  by (simp add: vadd_def)

lemma length_vsub [simp]: "length (vsub a b) = min (length a) (length b)"
  by (simp add: vsub_def)

lemma nth_vadd [simp]: "i < length a \<Longrightarrow> i < length b \<Longrightarrow> vadd a b ! i = a ! i + b ! i"
  by (simp add: vadd_def)

lemma nth_vsub [simp]: "i < length a \<Longrightarrow> i < length b \<Longrightarrow> vsub a b ! i = a ! i - b ! i"
  by (simp add: vsub_def)

lemma fold_vadd:
  "\<forall>c\<in>set cols. length c = n \<Longrightarrow> length a = n \<Longrightarrow>
   length (fold (\<lambda>c acc. vadd acc c) cols a) = n \<and>
   (\<forall>i<n. fold (\<lambda>c acc. vadd acc c) cols a ! i = a ! i + (\<Sum>c\<leftarrow>cols. c ! i))"
  by (induction cols arbitrary: a) (simp_all add: algebra_simps)

lemma vsum_props:
  assumes "\<forall>c\<in>set cols. length c = n"
  shows "length (vsum n cols) = n" and "i < n \<Longrightarrow> vsum n cols ! i = (\<Sum>c\<leftarrow>cols. c ! i)"
  using fold_vadd[OF assms, of "replicate n 0"] by (simp_all add: vsum_def)

lemma sum_list_map_update:
  fixes f :: "'a \<Rightarrow> real"
  assumes "t < length xs"
  shows "(\<Sum>x\<leftarrow>xs[t := y]. f x) = (\<Sum>x\<leftarrow>xs. f x) - f (xs ! t) + f y"
proof -
  have "(\<Sum>x\<leftarrow>xs. f x) = (\<Sum>x\<leftarrow>take t xs @ xs ! t # drop (Suc t) xs. f x)"
    using assms by (simp add: id_take_nth_drop[symmetric])
  moreover have "(\<Sum>x\<leftarrow>xs[t := y]. f x) = (\<Sum>x\<leftarrow>take t xs @ y # drop (Suc t) xs. f x)"
    using assms by (simp add: upd_conv_take_nth_drop)
  ultimately show ?thesis by simp
qed

lemma sum_list_map_except:
  fixes f :: "vec \<Rightarrow> real"
  assumes "t < length xs"
  shows "(\<Sum>x\<leftarrow>cols_except t xs. f x) = (\<Sum>x\<leftarrow>xs. f x) - f (xs ! t)"
proof -
  have "(\<Sum>x\<leftarrow>xs. f x) = (\<Sum>x\<leftarrow>take t xs @ xs ! t # drop (Suc t) xs. f x)"
    using assms by (simp add: id_take_nth_drop[symmetric])
  then show ?thesis by (simp add: cols_except_def)
qed

lemma backfit_step:
  assumes it: "tree_iter E S t st = Some st'"
    and t: "t < N"
    and wf: "length (ctr_Rmat (st_ctr st)) = N" "ctr_nTrees (st_ctr st) = N"
      "ctr_n (st_ctr st) = n" "\<forall>col\<in>set (ctr_Rmat (st_ctr st)). length col = n"
      "length (ctr_R (st_ctr st)) = n" "length (ctr_fhat (st_ctr st)) = n"
      "length (ctr_Ystar (st_ctr st)) = n"
    and fh: "\<forall>i<n. ctr_fhat (st_ctr st) ! i = (\<Sum>col\<leftarrow>take t (ctr_Rmat (st_ctr st)). col ! i)"
    and R: "\<forall>i<n. ctr_R (st_ctr st) ! i = ctr_Ystar (st_ctr st) ! i -
              ((\<Sum>col\<leftarrow>ctr_Rmat (st_ctr st). col ! i) - ctr_Rmat (st_ctr st) ! t ! i)"
  shows "length (ctr_Rmat (st_ctr st')) = N" "ctr_nTrees (st_ctr st') = N"
      "ctr_n (st_ctr st') = n" "\<forall>col\<in>set (ctr_Rmat (st_ctr st')). length col = n"
      "length (ctr_R (st_ctr st')) = n" "length (ctr_fhat (st_ctr st')) = n"
      "ctr_Ystar (st_ctr st') = ctr_Ystar (st_ctr st)"
      "drop (Suc t) (ctr_Rmat (st_ctr st')) = drop (Suc t) (ctr_Rmat (st_ctr st))"
      "take t (ctr_Rmat (st_ctr st')) = take t (ctr_Rmat (st_ctr st))"
      "\<forall>i<n. ctr_fhat (st_ctr st') ! i = (\<Sum>col\<leftarrow>take (Suc t) (ctr_Rmat (st_ctr st')). col ! i)"
      "Suc t < N \<longrightarrow> (\<forall>i<n. ctr_R (st_ctr st') ! i = ctr_Ystar (st_ctr st') ! i -
              ((\<Sum>col\<leftarrow>ctr_Rmat (st_ctr st'). col ! i) - ctr_Rmat (st_ctr st') ! Suc t ! i))"
proof -
  let ?c = "st_ctr st" and ?c' = "st_ctr st'"
  note f = tree_iter_frame[OF it]
  from f(8) obtain v where v: "length v = ctr_n ?c"
    and M: "ctr_Rmat ?c' = (ctr_Rmat ?c)[t := v]"
    and F: "ctr_fhat ?c' = vadd (ctr_fhat ?c) (ctr_Rmat ?c' ! t)"
    and RR: "ctr_R ?c' = (if t + 1 < ctr_nTrees ?c
            then vadd (ctr_R ?c) (vsub (ctr_Rmat ?c' ! (t + 1)) (ctr_Rmat ?c' ! t))
            else ctr_R ?c)"
    by blast
  have vt: "ctr_Rmat ?c' ! t = v" using M t wf(1) by simp
  have lv: "length v = n" using v wf(3) by simp
  show "length (ctr_Rmat ?c') = N" using M wf(1) by simp
  show "ctr_nTrees ?c' = N" using f(3) wf(2) by simp
  show "ctr_n ?c' = n" using f(2) wf(3) by simp
  show cols: "\<forall>col\<in>set (ctr_Rmat ?c'). length col = n"
    using M wf(4) lv by (auto dest!: set_update_subset_insert[THEN subsetD])
  show "ctr_Ystar ?c' = ctr_Ystar ?c" by (rule f(1))
  show "drop (Suc t) (ctr_Rmat ?c') = drop (Suc t) (ctr_Rmat ?c)" using M by simp
  show tk: "take t (ctr_Rmat ?c') = take t (ctr_Rmat ?c)" using M by simp
  show "length (ctr_fhat ?c') = n" using F vt lv wf(6) by simp
  have next_col: "Suc t < N \<Longrightarrow> ctr_Rmat ?c' ! Suc t = ctr_Rmat ?c ! Suc t
      \<and> length (ctr_Rmat ?c ! Suc t) = n"
    using M wf(1,4) by simp
  show "length (ctr_R ?c') = n"
    using RR wf(2,5) vt lv next_col by (cases "Suc t < N") simp_all
  have tk': "take (Suc t) (ctr_Rmat ?c') = take t (ctr_Rmat ?c) @ [v]"
    using M t wf(1) vt tk by (metis length_list_update take_Suc_conv_app_nth)
  show "\<forall>i<n. ctr_fhat ?c' ! i = (\<Sum>col\<leftarrow>take (Suc t) (ctr_Rmat ?c'). col ! i)"
    using F vt lv wf(6) fh by (simp add: tk')
  show "Suc t < N \<longrightarrow> (\<forall>i<n. ctr_R ?c' ! i = ctr_Ystar ?c' ! i -
              ((\<Sum>col\<leftarrow>ctr_Rmat ?c'. col ! i) - ctr_Rmat ?c' ! Suc t ! i))"
  proof (intro impI allI)
    fix i assume st: "Suc t < N" and i: "i < n"
    from next_col[OF st] have nc: "ctr_Rmat ?c' ! Suc t = ctr_Rmat ?c ! Suc t"
      "length (ctr_Rmat ?c ! Suc t) = n" by simp_all
    have "ctr_R ?c' ! i = ctr_R ?c ! i + (ctr_Rmat ?c ! Suc t ! i - v ! i)"
      using RR st wf(2,5) vt lv nc i by simp
    moreover have "(\<Sum>col\<leftarrow>ctr_Rmat ?c'. col ! i)
        = (\<Sum>col\<leftarrow>ctr_Rmat ?c. col ! i) - ctr_Rmat ?c ! t ! i + v ! i"
      unfolding M using t wf(1) by (simp add: sum_list_map_update)
    ultimately show "ctr_R ?c' ! i = ctr_Ystar ?c' ! i -
              ((\<Sum>col\<leftarrow>ctr_Rmat ?c'. col ! i) - ctr_Rmat ?c' ! Suc t ! i)"
      using R i f(1) nc by simp
  qed
qed

lemma backfit_invariant:
  assumes wf: "length (ctr_Rmat (st_ctr st0)) = N" "ctr_nTrees (st_ctr st0) = N"
      "ctr_n (st_ctr st0) = n" "\<forall>col\<in>set (ctr_Rmat (st_ctr st0)). length col = n"
      "length (ctr_R (st_ctr st0)) = n" "length (ctr_fhat (st_ctr st0)) = n"
      "length (ctr_Ystar (st_ctr st0)) = n"
    and fh: "\<forall>i<n. ctr_fhat (st_ctr st0) ! i = 0"
    and R: "0 < N \<longrightarrow> (\<forall>i<n. ctr_R (st_ctr st0) ! i = ctr_Ystar (st_ctr st0) ! i -
              ((\<Sum>col\<leftarrow>ctr_Rmat (st_ctr st0). col ! i) - ctr_Rmat (st_ctr st0) ! 0 ! i))"
  shows "tree_loop E S [0..<t] st0 = Some st \<Longrightarrow> t \<le> N \<Longrightarrow>
      length (ctr_Rmat (st_ctr st)) = N \<and> ctr_nTrees (st_ctr st) = N \<and>
      ctr_n (st_ctr st) = n \<and> (\<forall>col\<in>set (ctr_Rmat (st_ctr st)). length col = n) \<and>
      length (ctr_R (st_ctr st)) = n \<and> length (ctr_fhat (st_ctr st)) = n \<and>
      ctr_Ystar (st_ctr st) = ctr_Ystar (st_ctr st0) \<and>
      drop t (ctr_Rmat (st_ctr st)) = drop t (ctr_Rmat (st_ctr st0)) \<and>
      (\<forall>i<n. ctr_fhat (st_ctr st) ! i = (\<Sum>col\<leftarrow>take t (ctr_Rmat (st_ctr st)). col ! i)) \<and>
      (t < N \<longrightarrow> (\<forall>i<n. ctr_R (st_ctr st) ! i = ctr_Ystar (st_ctr st) ! i -
              ((\<Sum>col\<leftarrow>ctr_Rmat (st_ctr st). col ! i) - ctr_Rmat (st_ctr st) ! t ! i)))"
proof (induction t arbitrary: st)
  case 0
  then have "st = st0" by simp
  with wf fh R show ?case by simp
next
  case (Suc t)
  from Suc.prems(1) obtain st1 where l: "tree_loop E S [0..<t] st0 = Some st1"
    and it: "tree_iter E S t st1 = Some st"
    unfolding tree_loop_Suc by (auto split: option.splits)
  from Suc.prems(2) have t: "t < N" "t \<le> N" by simp_all
  note ih = Suc.IH[OF l t(2)]
  from ih t(1) have R1: "\<forall>i<n. ctr_R (st_ctr st1) ! i = ctr_Ystar (st_ctr st1) ! i -
      ((\<Sum>col\<leftarrow>ctr_Rmat (st_ctr st1). col ! i) - ctr_Rmat (st_ctr st1) ! t ! i)"
    by blast
  from ih have wf1: "length (ctr_Rmat (st_ctr st1)) = N" "ctr_nTrees (st_ctr st1) = N"
      "ctr_n (st_ctr st1) = n" "\<forall>col\<in>set (ctr_Rmat (st_ctr st1)). length col = n"
      "length (ctr_R (st_ctr st1)) = n" "length (ctr_fhat (st_ctr st1)) = n"
      "length (ctr_Ystar (st_ctr st1)) = n"
    and fh1: "\<forall>i<n. ctr_fhat (st_ctr st1) ! i = (\<Sum>col\<leftarrow>take t (ctr_Rmat (st_ctr st1)). col ! i)"
    and Y1: "ctr_Ystar (st_ctr st1) = ctr_Ystar (st_ctr st0)"
    and d1: "drop t (ctr_Rmat (st_ctr st1)) = drop t (ctr_Rmat (st_ctr st0))"
    using wf(7) by simp_all
  note s = backfit_step[OF it t(1) wf1 fh1 R1]
  have "drop (Suc t) (ctr_Rmat (st_ctr st)) = drop (Suc t) (ctr_Rmat (st_ctr st0))"
  proof -
    have "drop (Suc t) (ctr_Rmat (st_ctr st1)) = drop 1 (drop t (ctr_Rmat (st_ctr st1)))"
      by simp
    also have "\<dots> = drop 1 (drop t (ctr_Rmat (st_ctr st0)))" by (simp only: d1)
    also have "\<dots> = drop (Suc t) (ctr_Rmat (st_ctr st0))" by simp
    finally show ?thesis using s(8) by simp
  qed
  with s Y1 show ?case by simp
qed

lemma tree_loop_keeps_earlier_columns:
  "tree_loop E S [a..<b] st = Some st' \<Longrightarrow>
   take a (ctr_Rmat (st_ctr st')) = take a (ctr_Rmat (st_ctr st))"
proof (induction b arbitrary: st')
  case 0
  then show ?case by simp
next
  case (Suc b)
  show ?case
  proof (cases "a \<le> b")
    case True
    then have "[a..<Suc b] = [a..<b] @ [b]" by simp
    with Suc.prems obtain st1 where l: "tree_loop E S [a..<b] st = Some st1"
      and it: "tree_iter E S b st1 = Some st'"
      by (auto simp: tree_loop_append split: option.splits)
    from tree_iter_frame(8)[OF it] obtain v
      where "ctr_Rmat (st_ctr st') = (ctr_Rmat (st_ctr st1))[b := v]" by blast
    with True have "take a (ctr_Rmat (st_ctr st')) = take a (ctr_Rmat (st_ctr st1))" by simp
    with Suc.IH[OF l] show ?thesis by simp
  next
    case False
    with Suc.prems show ?thesis by simp
  qed
qed

lemma sweep_reset_fields:
  assumes "sweep_reset c = Some c0"
  shows "ctr_Rmat c \<noteq> []" "ctr_Rmat c0 = ctr_Rmat c" "ctr_Ystar c0 = ctr_Ystar c"
    "ctr_n c0 = ctr_n c" "ctr_nTrees c0 = ctr_nTrees c"
    "ctr_R c0 = vadd (ctr_R c) (ctr_Rmat c ! 0)" "ctr_fhat c0 = map (\<lambda>x. 0) (ctr_fhat c)"
    "ctr_b c0 = ctr_b c" "ctr_burn c0 = ctr_burn c" "ctr_expProb c0 = ctr_expProb c"
    "ctr_modKappa c0 = ctr_modKappa c"
  using assms by (auto simp: sweep_reset_def split: if_splits)

lemma cols_except_set: "set (cols_except t cols) \<subseteq> set cols"
  by (auto simp: cols_except_def dest: in_set_takeD in_set_dropD)

text \<open>
  Claim C1. Let the running residual \<open>R\<close> at the start of a sweep be \<open>Ystar\<close> minus the
  sum of all columns of \<open>Rmat\<close> (the vectors of the state having \<open>n\<close> entries and \<open>Rmat\<close>
  having \<open>nTrees\<close> columns). Then at the start of every step \<open>t < nTrees\<close> of the loop
  over the tree pairs, \<open>R\<close> is \<open>Ystar\<close> minus the sum of the columns of \<open>Rmat\<close> other
  than column \<open>t\<close>, where the columns from \<open>t\<close> on are still those of the start of the
  sweep and every column \<open>s < t\<close> is the one step \<open>s\<close> wrote; \<open>Ystar\<close> is unchanged.
  After the loop, \<open>R\<close> is recomputed as \<open>Ystar\<close> minus the sum of all columns of \<open>Rmat\<close>,
  the total fit.
\<close>

theorem backfitting_residual_invariant:
  assumes reset: "sweep_reset (st_ctr st) = Some c0"
    and wf: "length (ctr_Rmat (st_ctr st)) = ctr_nTrees (st_ctr st)"
      "\<forall>col\<in>set (ctr_Rmat (st_ctr st)). length col = ctr_n (st_ctr st)"
      "length (ctr_Ystar (st_ctr st)) = ctr_n (st_ctr st)"
      "length (ctr_fhat (st_ctr st)) = ctr_n (st_ctr st)"
    and start: "ctr_R (st_ctr st) =
      vsub (ctr_Ystar (st_ctr st)) (vsum (ctr_n (st_ctr st)) (ctr_Rmat (st_ctr st)))"
  shows "(\<forall>t st_t. t < ctr_nTrees (st_ctr st) \<and>
            tree_loop E S [0..<t] (st\<lparr>st_ctr := c0\<rparr>) = Some st_t \<longrightarrow>
          ctr_R (st_ctr st_t) =
            vsub (ctr_Ystar (st_ctr st))
              (vsum (ctr_n (st_ctr st)) (cols_except t (ctr_Rmat (st_ctr st_t)))) \<and>
          ctr_Ystar (st_ctr st_t) = ctr_Ystar (st_ctr st) \<and>
          drop t (ctr_Rmat (st_ctr st_t)) = drop t (ctr_Rmat (st_ctr st)) \<and>
          (\<forall>s st_s. s < t \<and> tree_loop E S [0..<Suc s] (st\<lparr>st_ctr := c0\<rparr>) = Some st_s \<longrightarrow>
             ctr_Rmat (st_ctr st_t) ! s = ctr_Rmat (st_ctr st_s) ! s)) \<and>
         (\<forall>st_e. tree_loop E S [0..<ctr_nTrees (st_ctr st)] (st\<lparr>st_ctr := c0\<rparr>) = Some st_e \<longrightarrow>
          ctr_R (sweep_precalc (st_ctr st_e)) =
            vsub (ctr_Ystar (st_ctr st))
              (vsum (ctr_n (st_ctr st)) (ctr_Rmat (st_ctr st_e))))"
proof -
  let ?c = "st_ctr st"
  let ?n = "ctr_n ?c" and ?N = "ctr_nTrees ?c"
  let ?st0 = "st\<lparr>st_ctr := c0\<rparr>"
  note r = sweep_reset_fields[OF reset]
  from r(1) wf(1) have N: "0 < ?N" by (cases "ctr_Rmat ?c") auto
  have lsum: "length (vsum ?n (ctr_Rmat ?c)) = ?n" by (rule vsum_props(1)[OF wf(2)])
  have lR: "length (ctr_R ?c) = ?n" using start lsum wf(3) by simp
  have Rp: "ctr_R ?c ! i = ctr_Ystar ?c ! i - (\<Sum>col\<leftarrow>ctr_Rmat ?c. col ! i)" if "i < ?n" for i
    using start lsum wf(3) that vsum_props(2)[OF wf(2) that] by simp
  have l0: "length (ctr_Rmat ?c ! 0) = ?n" using wf(1,2) N by simp
  have wf0: "length (ctr_Rmat (st_ctr ?st0)) = ?N" "ctr_nTrees (st_ctr ?st0) = ?N"
      "ctr_n (st_ctr ?st0) = ?n" "\<forall>col\<in>set (ctr_Rmat (st_ctr ?st0)). length col = ?n"
      "length (ctr_R (st_ctr ?st0)) = ?n" "length (ctr_fhat (st_ctr ?st0)) = ?n"
      "length (ctr_Ystar (st_ctr ?st0)) = ?n"
    using r wf lR l0 by simp_all
  have fh0: "\<forall>i<?n. ctr_fhat (st_ctr ?st0) ! i = 0" using r(7) wf(4) by simp
  have R0: "0 < ?N \<longrightarrow> (\<forall>i<?n. ctr_R (st_ctr ?st0) ! i = ctr_Ystar (st_ctr ?st0) ! i -
      ((\<Sum>col\<leftarrow>ctr_Rmat (st_ctr ?st0). col ! i) - ctr_Rmat (st_ctr ?st0) ! 0 ! i))"
    using r lR l0 Rp by simp
  note inv = backfit_invariant[OF wf0 fh0 R0]
  show ?thesis
  proof (intro conjI allI impI)
    fix t st_t
    assume a: "t < ?N \<and> tree_loop E S [0..<t] ?st0 = Some st_t"
    then have t: "t < ?N" "t \<le> ?N" and l: "tree_loop E S [0..<t] ?st0 = Some st_t" by simp_all
    note i = inv[OF l t(2)]
    let ?M = "ctr_Rmat (st_ctr st_t)"
    from i have cols: "\<forall>col\<in>set ?M. length col = ?n" and lM: "length ?M = ?N"
      and lRt: "length (ctr_R (st_ctr st_t)) = ?n" by simp_all
    from cols cols_except_set[of t ?M] have ce: "\<forall>col\<in>set (cols_except t ?M). length col = ?n"
      by blast
    show Y: "ctr_Ystar (st_ctr st_t) = ctr_Ystar ?c" using i r(3) by simp
    show "drop t ?M = drop t (ctr_Rmat ?c)" using i r(2) by simp
    show "ctr_R (st_ctr st_t) = vsub (ctr_Ystar ?c) (vsum ?n (cols_except t ?M))"
    proof (rule nth_equalityI)
      show "length (ctr_R (st_ctr st_t)) = length (vsub (ctr_Ystar ?c) (vsum ?n (cols_except t ?M)))"
        using lRt wf(3) vsum_props(1)[OF ce] by simp
    next
      fix k assume "k < length (ctr_R (st_ctr st_t))"
      then have k: "k < ?n" using lRt by simp
      from i t(1) k have "ctr_R (st_ctr st_t) ! k = ctr_Ystar (st_ctr st_t) ! k -
          ((\<Sum>col\<leftarrow>?M. col ! k) - ?M ! t ! k)" by blast
      moreover have "(\<Sum>col\<leftarrow>cols_except t ?M. col ! k) = (\<Sum>col\<leftarrow>?M. col ! k) - ?M ! t ! k"
        using t(1) lM by (simp add: sum_list_map_except)
      ultimately show "ctr_R (st_ctr st_t) ! k = vsub (ctr_Ystar ?c) (vsum ?n (cols_except t ?M)) ! k"
        using k Y wf(3) vsum_props[OF ce] by simp
    qed
  next
    fix t st_t s st_s
    assume a: "t < ?N \<and> tree_loop E S [0..<t] ?st0 = Some st_t"
      and b: "s < t \<and> tree_loop E S [0..<Suc s] ?st0 = Some st_s"
    from b have eq: "[0..<t] = [0..<Suc s] @ [Suc s..<t]"
      by (metis Suc_leI le0 le_add_diff_inverse upt_add_eq_append)
    have "tree_loop E S [0..<t] ?st0 =
        (case tree_loop E S [0..<Suc s] ?st0 of None \<Rightarrow> None
         | Some st' \<Rightarrow> tree_loop E S [Suc s..<t] st')"
      by (subst eq) (rule tree_loop_append)
    with a b have "tree_loop E S [Suc s..<t] st_s = Some st_t"
      by (simp del: upt_Suc)
    from tree_loop_keeps_earlier_columns[OF this]
    have "take (Suc s) (ctr_Rmat (st_ctr st_t)) ! s = take (Suc s) (ctr_Rmat (st_ctr st_s)) ! s"
      by simp
    then show "ctr_Rmat (st_ctr st_t) ! s = ctr_Rmat (st_ctr st_s) ! s" by simp
  next
    fix st_e
    assume l: "tree_loop E S [0..<?N] ?st0 = Some st_e"
    note i = inv[OF l order_refl]
    let ?M = "ctr_Rmat (st_ctr st_e)"
    from i have cols: "\<forall>col\<in>set ?M. length col = ?n" and lM: "length ?M = ?N"
      and lf: "length (ctr_fhat (st_ctr st_e)) = ?n"
      and Y: "ctr_Ystar (st_ctr st_e) = ctr_Ystar ?c"
      and f: "\<forall>k<?n. ctr_fhat (st_ctr st_e) ! k = (\<Sum>col\<leftarrow>take ?N ?M. col ! k)"
      using r(3) by simp_all
    have "ctr_fhat (st_ctr st_e) = vsum ?n ?M"
    proof (rule nth_equalityI)
      show "length (ctr_fhat (st_ctr st_e)) = length (vsum ?n ?M)"
        using lf vsum_props(1)[OF cols] by simp
    next
      fix k assume "k < length (ctr_fhat (st_ctr st_e))"
      then have k: "k < ?n" using lf by simp
      with f lM vsum_props(2)[OF cols k]
      show "ctr_fhat (st_ctr st_e) ! k = vsum ?n ?M ! k" by simp
    qed
    then show "ctr_R (sweep_precalc (st_ctr st_e)) = vsub (ctr_Ystar ?c) (vsum ?n ?M)"
      using Y by (simp add: sweep_precalc_def)
  qed
qed

subsection \<open>The exposure-selection probabilities\<close>

lemma rDirichlet_loop_draws:
  "rDirichlet_loop S alpha out nrm g =
     (out @ fst (draws S (map (\<lambda>a. Rgamma a 1) alpha) g),
      nrm + sum_list (fst (draws S (map (\<lambda>a. Rgamma a 1) alpha) g)),
      snd (draws S (map (\<lambda>a. Rgamma a 1) alpha) g))"
  by (induction alpha arbitrary: out nrm g) (simp_all add: case_prod_beta Let_def)

lemma rDirichlet_draws:
  "rDirichlet S alpha g =
     (map (\<lambda>x. x / sum_list (fst (draws S (map (\<lambda>a. Rgamma a 1) alpha) g)))
        (fst (draws S (map (\<lambda>a. Rgamma a 1) alpha) g)),
      snd (draws S (map (\<lambda>a. Rgamma a 1) alpha) g))"
  by (simp add: rDirichlet_def rDirichlet_loop_draws)

lemma length_vinc [simp]: "length (vinc v i d) = length v"
  by (simp add: vinc_def)

lemma vinc_twice_nth:
  "i < length c \<Longrightarrow>
   vinc (vinc c m1 1) m2 1 ! i = c ! i + (if m1 = i then 1 else 0) + (if m2 = i then 1 else 0)"
  by (auto simp: vinc_def nth_list_update)

lemma count_list_take_update:
  "t < length xs \<Longrightarrow>
   count_list (take (Suc t) (xs[t := m])) i = count_list (take t xs) i + (if m = i then 1 else 0)"
  by (simp add: take_Suc_conv_app_nth)

lemma uvr_usage:
  "ctr_expCount (fst (update_variance_residuals S t ps ctr g)) =
     vinc (vinc (ctr_expCount ctr) (ps_m1 ps) 1) (ps_m2 ps) 1"
  "ctr_tree1Exp (fst (update_variance_residuals S t ps ctr g)) = (ctr_tree1Exp ctr)[t := ps_m1 ps]"
  "ctr_tree2Exp (fst (update_variance_residuals S t ps ctr g)) = (ctr_tree2Exp ctr)[t := ps_m2 ps]"
  by (simp_all add: update_variance_residuals_def Let_def case_prod_beta)

lemma tree_iter_usage:
  fixes E :: "('t, 'g) ext"
  assumes "tree_iter E S t st = Some st'"
  shows "\<exists>m1 m2. ctr_expCount (st_ctr st') = vinc (vinc (ctr_expCount (st_ctr st)) m1 1) m2 1 \<and>
           ctr_tree1Exp (st_ctr st') = (ctr_tree1Exp (st_ctr st))[t := m1] \<and>
           ctr_tree2Exp (st_ctr st') = (ctr_tree2Exp (st_ctr st))[t := m2]"
proof -
  from assms obtain tree1 tree2 ctr1 dgn1 g1 where
    m: "tdlmmTreeMCMC E S t (st_trees1 st ! t) (st_trees2 st ! t) (st_ctr st) (st_dgn st)
          (st_rng st) = Some (tree1, tree2, ctr1, dgn1, g1)"
    by (auto simp: tree_iter_def split: option.splits)
  from tdlmmTreeMCMC_ctr[OF m] obtain ps :: "'t pair_state" and g2
    where c1: "ctr1 = fst (update_variance_residuals S t ps (st_ctr st) g2)" by blast
  from assms m have "ctr_expCount (st_ctr st') = ctr_expCount ctr1"
    "ctr_tree1Exp (st_ctr st') = ctr_tree1Exp ctr1" "ctr_tree2Exp (st_ctr st') = ctr_tree2Exp ctr1"
    by (auto simp: tree_iter_def Let_def)
  then show ?thesis unfolding c1 uvr_usage by blast
qed

lemma tree_loop_usage:
  assumes "tree_loop E S [0..<t] st0 = Some st'"
    and "t \<le> length (ctr_tree1Exp (st_ctr st0))" "t \<le> length (ctr_tree2Exp (st_ctr st0))"
    and "\<forall>i<length (ctr_expCount (st_ctr st0)). ctr_expCount (st_ctr st0) ! i = 0"
  shows "length (ctr_expCount (st_ctr st')) = length (ctr_expCount (st_ctr st0)) \<and>
         length (ctr_tree1Exp (st_ctr st')) = length (ctr_tree1Exp (st_ctr st0)) \<and>
         length (ctr_tree2Exp (st_ctr st')) = length (ctr_tree2Exp (st_ctr st0)) \<and>
         (\<forall>i<length (ctr_expCount (st_ctr st0)).
            ctr_expCount (st_ctr st') ! i =
              real (count_list (take t (ctr_tree1Exp (st_ctr st'))) i +
                    count_list (take t (ctr_tree2Exp (st_ctr st'))) i))"
  using assms(1,2,3)
proof (induction t arbitrary: st')
  case 0
  with assms(4) show ?case by simp
next
  case (Suc t)
  from Suc.prems(1) obtain st1 where l: "tree_loop E S [0..<t] st0 = Some st1"
    and it: "tree_iter E S t st1 = Some st'"
    unfolding tree_loop_Suc by (auto split: option.splits)
  from Suc.prems have t: "t \<le> length (ctr_tree1Exp (st_ctr st0))"
    "t \<le> length (ctr_tree2Exp (st_ctr st0))" by simp_all
  note ih = Suc.IH[OF l t]
  from tree_iter_usage[OF it] obtain m1 m2
    where c: "ctr_expCount (st_ctr st') = vinc (vinc (ctr_expCount (st_ctr st1)) m1 1) m2 1"
      and e1: "ctr_tree1Exp (st_ctr st') = (ctr_tree1Exp (st_ctr st1))[t := m1]"
      and e2: "ctr_tree2Exp (st_ctr st') = (ctr_tree2Exp (st_ctr st1))[t := m2]"
    by blast
  from ih Suc.prems have t1: "t < length (ctr_tree1Exp (st_ctr st1))"
    and t2: "t < length (ctr_tree2Exp (st_ctr st1))" by simp_all
  have "ctr_expCount (st_ctr st') ! i =
      real (count_list (take (Suc t) (ctr_tree1Exp (st_ctr st'))) i +
            count_list (take (Suc t) (ctr_tree2Exp (st_ctr st'))) i)"
    if i: "i < length (ctr_expCount (st_ctr st0))" for i
  proof -
    from i ih have i1: "i < length (ctr_expCount (st_ctr st1))" by simp
    from ih i have "ctr_expCount (st_ctr st1) ! i =
        real (count_list (take t (ctr_tree1Exp (st_ctr st1))) i +
              count_list (take t (ctr_tree2Exp (st_ctr st1))) i)" by blast
    then show ?thesis
      unfolding c e1 e2 vinc_twice_nth[OF i1] count_list_take_update[OF t1]
        count_list_take_update[OF t2]
      by simp
  qed
  with ih show ?case by (simp add: c e1 e2)
qed

lemma tree_loop_frame:
  "tree_loop E S ts st = Some st' \<Longrightarrow>
   ctr_b (st_ctr st') = ctr_b (st_ctr st) \<and> ctr_burn (st_ctr st') = ctr_burn (st_ctr st) \<and>
   ctr_expProb (st_ctr st') = ctr_expProb (st_ctr st) \<and>
   ctr_modKappa (st_ctr st') = ctr_modKappa (st_ctr st)"
proof (induction ts arbitrary: st)
  case Nil
  then show ?case by simp
next
  case (Cons t ts)
  from Cons.prems obtain st1 where it: "tree_iter E S t st = Some st1"
    and l: "tree_loop E S ts st1 = Some st'"
    by (auto split: option.splits)
  from Cons.IH[OF l] tree_iter_frame(4,5,6,7)[OF it] show ?case by simp
qed

lemma tree_iter_config:
  fixes E :: "('t, 'g) ext"
  assumes "tree_iter E S t st = Some st'"
  shows "ctr_shrinkage (st_ctr st') = ctr_shrinkage (st_ctr st) \<and>
         ctr_interaction (st_ctr st') = ctr_interaction (st_ctr st) \<and>
         ctr_nExp (st_ctr st') = ctr_nExp (st_ctr st)"
proof -
  from assms obtain tree1 tree2 ctr1 dgn1 g1 where
    m: "tdlmmTreeMCMC E S t (st_trees1 st ! t) (st_trees2 st ! t) (st_ctr st) (st_dgn st)
          (st_rng st) = Some (tree1, tree2, ctr1, dgn1, g1)"
    by (auto simp: tree_iter_def split: option.splits)
  from tdlmmTreeMCMC_ctr[OF m] obtain ps :: "'t pair_state" and g2
    where c1: "ctr1 = fst (update_variance_residuals S t ps (st_ctr st) g2)" by blast
  have "ctr_shrinkage ctr1 = ctr_shrinkage (st_ctr st)"
    "ctr_interaction ctr1 = ctr_interaction (st_ctr st)" "ctr_nExp ctr1 = ctr_nExp (st_ctr st)"
    unfolding c1 by (simp_all add: update_variance_residuals_def Let_def case_prod_beta)
  moreover from assms m have "ctr_shrinkage (st_ctr st') = ctr_shrinkage ctr1"
    "ctr_interaction (st_ctr st') = ctr_interaction ctr1" "ctr_nExp (st_ctr st') = ctr_nExp ctr1"
    by (auto simp: tree_iter_def Let_def)
  ultimately show ?thesis by simp
qed

lemma tree_loop_config:
  "tree_loop E S ts st = Some st' \<Longrightarrow>
   ctr_shrinkage (st_ctr st') = ctr_shrinkage (st_ctr st) \<and>
   ctr_interaction (st_ctr st') = ctr_interaction (st_ctr st) \<and>
   ctr_nExp (st_ctr st') = ctr_nExp (st_ctr st)"
proof (induction ts arbitrary: st)
  case Nil
  then show ?case by simp
next
  case (Cons t ts)
  from Cons.prems obtain st1 where it: "tree_iter E S t st = Some st1"
    and l: "tree_loop E S ts st1 = Some st'"
    by (auto split: option.splits)
  from Cons.IH[OF l] tree_iter_config[OF it] show ?case by simp
qed

lemma fold_fst_invariant:
  assumes "\<And>x s. P (fst s) \<Longrightarrow> P (fst (f x s))" and "P (fst s)"
  shows "P (fst (fold f xs s))"
  using assms(2) by (induction xs arbitrary: s) (simp_all add: assms(1))

text \<open>The horseshoe draws write \<^verbatim>\<open>nu\<close>, \<^verbatim>\<open>muExp\<close> and \<^verbatim>\<open>muMix\<close> and nothing else.\<close>

lemma mix_shrink_writes:
  assumes "\<exists>me mm. fst s = c\<lparr>ctr_muExp := me, ctr_muMix := mm\<rparr>"
  shows "\<exists>me mm. fst (mix_shrink S sigmanu i j s) = c\<lparr>ctr_muExp := me, ctr_muMix := mm\<rparr>"
proof -
  from assms obtain me mm where s: "fst s = c\<lparr>ctr_muExp := me, ctr_muMix := mm\<rparr>" by blast
  show ?thesis
  proof (cases "j > i \<or> ctr_interaction (fst s) = 2")
    case True
    then have "fst (mix_shrink S sigmanu i j s) =
        c\<lparr>ctr_muExp := me, ctr_muMix := ctr_muMix (fst (mix_shrink S sigmanu i j s))\<rparr>"
      by (simp add: mix_shrink_def Let_def case_prod_beta s)
    then show ?thesis by blast
  next
    case False
    then have "fst (mix_shrink S sigmanu i j s) = fst s"
      by (simp add: mix_shrink_def Let_def case_prod_beta)
    with s show ?thesis by auto
  qed
qed

lemma exposure_shrink_writes:
  assumes "\<exists>me mm. fst s = c\<lparr>ctr_muExp := me, ctr_muMix := mm\<rparr>"
  shows "\<exists>me mm. fst (exposure_shrink S sigmanu i s) = c\<lparr>ctr_muExp := me, ctr_muMix := mm\<rparr>"
proof -
  let ?P = "\<lambda>c'. \<exists>me mm. c' = c\<lparr>ctr_muExp := me, ctr_muMix := mm\<rparr>"
  have f: "?P (fst (fold (mix_shrink S sigmanu i) js s'))" if "?P (fst s')" for js s'
    by (rule fold_fst_invariant[where P = ?P]) (use that mix_shrink_writes in blast)+
  from assms obtain me mm where s: "fst s = c\<lparr>ctr_muExp := me, ctr_muMix := mm\<rparr>" by blast
  let ?x = "fst (rHalfCauchyFC S (ctr_muExp (fst s) ! i) (ctr_totTermExp (fst s) ! i)
      (ctr_sumTermT2Exp (fst s) ! i / sigmanu) None (snd s))"
  let ?g = "snd (snd (rHalfCauchyFC S (ctr_muExp (fst s) ! i) (ctr_totTermExp (fst s) ! i)
      (ctr_sumTermT2Exp (fst s) ! i / sigmanu) None (snd s)))"
  let ?c' = "(fst s)\<lparr>ctr_muExp := (ctr_muExp (fst s))[i := ?x]\<rparr>"
  have "?c' = c\<lparr>ctr_muExp := (ctr_muExp (fst s))[i := ?x], ctr_muMix := mm\<rparr>"
    by (simp add: s)
  then have c': "?P ?c'" by blast
  have "fst (exposure_shrink S sigmanu i s) =
      (if ctr_interaction ?c' \<noteq> 0
       then fst (fold (mix_shrink S sigmanu i) [i..<ctr_nExp ?c'] (?c', ?g)) else ?c')"
    by (simp add: exposure_shrink_def Let_def case_prod_beta)
  with f[of "(?c', ?g)"] c' show ?thesis by (simp del: fold_simps split: if_splits)
qed

lemma sweep_shrinkage_writes:
  "\<exists>nu me mm. fst (sweep_shrinkage S ctr g) = ctr\<lparr>ctr_nu := nu, ctr_muExp := me, ctr_muMix := mm\<rparr>"
proof -
  let ?x = "fst (rHalfCauchyFC S (ctr_nu ctr) (ctr_totTerm ctr)
      (ctr_sumTermT2 ctr / ctr_sigma2 ctr) None g)"
  let ?g = "snd (snd (rHalfCauchyFC S (ctr_nu ctr) (ctr_totTerm ctr)
      (ctr_sumTermT2 ctr / ctr_sigma2 ctr) None g))"
  let ?c = "ctr\<lparr>ctr_nu := ?x\<rparr>"
  let ?P = "\<lambda>c'. \<exists>me mm. c' = ?c\<lparr>ctr_muExp := me, ctr_muMix := mm\<rparr>"
  have f: "?P (fst (fold (exposure_shrink S sigmanu) is s'))" if "?P (fst s')" for "is" s' sigmanu
    by (rule fold_fst_invariant[where P = ?P]) (use that exposure_shrink_writes in blast)+
  have c: "?P ?c"
    by (rule exI[of _ "ctr_muExp ctr"], rule exI[of _ "ctr_muMix ctr"]) simp
  have "fst (sweep_shrinkage S ctr g) =
      (if ctr_shrinkage ?c = 3 \<or> ctr_shrinkage ?c = 1
       then fst (fold (exposure_shrink S (ctr_sigma2 ?c * ctr_nu ?c)) [0..<ctr_nExp ?c] (?c, ?g))
       else ?c)"
    by (simp add: sweep_shrinkage_def Let_def case_prod_beta)
  with f[of "(?c, ?g)"] c have "?P (fst (sweep_shrinkage S ctr g))"
    by (simp del: fold_simps split: if_splits)
  then show ?thesis by blast
qed

lemma sweep_shrinkage_frame:
  "ctr_b (fst (sweep_shrinkage S ctr g)) = ctr_b ctr"
  "ctr_burn (fst (sweep_shrinkage S ctr g)) = ctr_burn ctr"
  "ctr_expProb (fst (sweep_shrinkage S ctr g)) = ctr_expProb ctr"
  "ctr_expCount (fst (sweep_shrinkage S ctr g)) = ctr_expCount ctr"
  "ctr_modKappa (fst (sweep_shrinkage S ctr g)) = ctr_modKappa ctr"
  "ctr_tree1Exp (fst (sweep_shrinkage S ctr g)) = ctr_tree1Exp ctr"
  "ctr_tree2Exp (fst (sweep_shrinkage S ctr g)) = ctr_tree2Exp ctr"
proof -
  from sweep_shrinkage_writes[of S ctr g] obtain nu me mm
    where "fst (sweep_shrinkage S ctr g) = ctr\<lparr>ctr_nu := nu, ctr_muExp := me, ctr_muMix := mm\<rparr>"
    by blast
  then show "ctr_b (fst (sweep_shrinkage S ctr g)) = ctr_b ctr"
    "ctr_burn (fst (sweep_shrinkage S ctr g)) = ctr_burn ctr"
    "ctr_expProb (fst (sweep_shrinkage S ctr g)) = ctr_expProb ctr"
    "ctr_expCount (fst (sweep_shrinkage S ctr g)) = ctr_expCount ctr"
    "ctr_modKappa (fst (sweep_shrinkage S ctr g)) = ctr_modKappa ctr"
    "ctr_tree1Exp (fst (sweep_shrinkage S ctr g)) = ctr_tree1Exp ctr"
    "ctr_tree2Exp (fst (sweep_shrinkage S ctr g)) = ctr_tree2Exp ctr"
    by simp_all
qed

lemma sweep_reset_usage:
  assumes "sweep_reset c = Some c0"
  shows "ctr_expCount c0 = map (\<lambda>x. 0) (ctr_expCount c)" "ctr_tree1Exp c0 = ctr_tree1Exp c"
    "ctr_tree2Exp c0 = ctr_tree2Exp c"
  using assms by (auto simp: sweep_reset_def split: if_splits)

lemma sweep_usage_counts:
  assumes est: "\<forall>c g. ctr_expCount (fst (ext_tdlmModelEst E c g)) = ctr_expCount c \<and>
                      ctr_tree1Exp (fst (ext_tdlmModelEst E c g)) = ctr_tree1Exp c \<and>
                      ctr_tree2Exp (fst (ext_tdlmModelEst E c g)) = ctr_tree2Exp c"
    and len: "length (ctr_tree1Exp (st_ctr st)) = ctr_nTrees (st_ctr st)"
      "length (ctr_tree2Exp (st_ctr st)) = ctr_nTrees (st_ctr st)"
    and pre: "sweep_before_expProb E S st = Some st1"
  shows "ctr_expCount (st_ctr st1) =
           map (\<lambda>i. real (usage_count (st_ctr st1) i)) [0..<length (ctr_expCount (st_ctr st))]"
proof -
  from pre obtain c0 st0 where r: "sweep_reset (st_ctr st) = Some c0"
    and l: "tree_loop E S [0..<ctr_nTrees c0] (st\<lparr>st_ctr := c0\<rparr>) = Some st0"
    and c1: "st_ctr st1 = fst (sweep_shrinkage S
                (fst (ext_tdlmModelEst E (sweep_precalc (st_ctr st0)) (st_rng st0)))
                (snd (ext_tdlmModelEst E (sweep_precalc (st_ctr st0)) (st_rng st0))))"
    by (auto simp: sweep_before_expProb_def Let_def case_prod_beta split: option.splits)
  note u0 = sweep_reset_usage[OF r]
  have n0: "ctr_nTrees c0 = ctr_nTrees (st_ctr st)" by (rule sweep_reset_fields(5)[OF r])
  have "length (ctr_expCount (st_ctr st0)) = length (ctr_expCount c0) \<and>
      length (ctr_tree1Exp (st_ctr st0)) = length (ctr_tree1Exp c0) \<and>
      length (ctr_tree2Exp (st_ctr st0)) = length (ctr_tree2Exp c0) \<and>
      (\<forall>i<length (ctr_expCount c0).
         ctr_expCount (st_ctr st0) ! i =
           real (count_list (take (ctr_nTrees c0) (ctr_tree1Exp (st_ctr st0))) i +
                 count_list (take (ctr_nTrees c0) (ctr_tree2Exp (st_ctr st0))) i))"
    using tree_loop_usage[OF l] u0 n0 len by simp
  then have L: "length (ctr_expCount (st_ctr st0)) = length (ctr_expCount (st_ctr st))"
    and U: "\<forall>i<length (ctr_expCount (st_ctr st)).
         ctr_expCount (st_ctr st0) ! i = real (usage_count (st_ctr st0) i)"
    using u0 n0 len by (simp_all add: usage_count_def)
  let ?e = "ext_tdlmModelEst E (sweep_precalc (st_ctr st0)) (st_rng st0)"
  from est have e: "ctr_expCount (fst ?e) = ctr_expCount (sweep_precalc (st_ctr st0))"
    "ctr_tree1Exp (fst ?e) = ctr_tree1Exp (sweep_precalc (st_ctr st0))"
    "ctr_tree2Exp (fst ?e) = ctr_tree2Exp (sweep_precalc (st_ctr st0))" by blast+
  have f: "ctr_expCount (st_ctr st1) = ctr_expCount (st_ctr st0)"
    "ctr_tree1Exp (st_ctr st1) = ctr_tree1Exp (st_ctr st0)"
    "ctr_tree2Exp (st_ctr st1) = ctr_tree2Exp (st_ctr st0)"
    unfolding c1 sweep_shrinkage_frame e by (simp_all add: sweep_precalc_def)
  have uc: "usage_count (st_ctr st1) = usage_count (st_ctr st0)"
    by (intro ext) (simp add: usage_count_def f)
  show ?thesis
    unfolding f(1) uc using L U by (intro nth_equalityI) simp_all
qed

text \<open>
  Claim C5. Let \<^verbatim>\<open>tdlmModelEst\<close> leave \<open>b\<close>, \<open>burn\<close>, \<open>expProb\<close>, \<open>modKappa\<close>, the usage
  counts \<open>expCount\<close> and the exposures of the trees as they are, let the state hold one
  exposure for every tree, and let the sweep with iteration counter \<open>b\<close> reach the
  update of the exposure-selection probabilities in the state \<open>st1\<close>. Then the sweep
  ends. When \<open>b > 1000\<close> or \<open>b\<close> exceeds half of \<open>burn\<close>, its \<open>expProb\<close> is a Dirichlet
  draw whose parameter for exposure \<open>i\<close> is the number of trees that use \<open>i\<close> in \<open>st1\<close>
  plus \<open>modKappa\<close>: one Gamma variate of that shape and scale \<open>1\<close> is requested for every
  exposure in turn, from the generator state of \<open>st1\<close>, and \<open>expProb\<close> is these
  variates divided by their sum. Otherwise \<open>expProb\<close> is the one the sweep started
  with, and nothing is drawn.
\<close>

theorem sweep_redraws_expProb_after_warmup:
  assumes est: "\<forall>c g. ctr_b (fst (ext_tdlmModelEst E c g)) = ctr_b c \<and>
                      ctr_burn (fst (ext_tdlmModelEst E c g)) = ctr_burn c \<and>
                      ctr_expProb (fst (ext_tdlmModelEst E c g)) = ctr_expProb c \<and>
                      ctr_modKappa (fst (ext_tdlmModelEst E c g)) = ctr_modKappa c \<and>
                      ctr_expCount (fst (ext_tdlmModelEst E c g)) = ctr_expCount c \<and>
                      ctr_tree1Exp (fst (ext_tdlmModelEst E c g)) = ctr_tree1Exp c \<and>
                      ctr_tree2Exp (fst (ext_tdlmModelEst E c g)) = ctr_tree2Exp c"
    and len: "length (ctr_tree1Exp (st_ctr st)) = ctr_nTrees (st_ctr st)"
      "length (ctr_tree2Exp (st_ctr st)) = ctr_nTrees (st_ctr st)"
    and pre: "sweep_before_expProb E S st = Some st1"
  shows "\<exists>st'. sweep E S st = Some st' \<and>
           (if ctr_b (st_ctr st) > 1000 \<or>
               real_of_int (ctr_b (st_ctr st)) > real_of_int (ctr_burn (st_ctr st)) / 2
            then (let reqs = map (\<lambda>i. Rgamma (real (usage_count (st_ctr st1) i) +
                                              ctr_modKappa (st_ctr st)) 1)
                               [0..<length (ctr_expCount (st_ctr st))];
                      xs = fst (draws S reqs (st_rng st1))
                  in ctr_expProb (st_ctr st') = map (\<lambda>x. x / sum_list xs) xs \<and>
                     st_rng st' = snd (draws S reqs (st_rng st1)))
            else ctr_expProb (st_ctr st') = ctr_expProb (st_ctr st) \<and>
                 st_rng st' = st_rng st1)"
proof -
  from pre obtain c0 st0 where r: "sweep_reset (st_ctr st) = Some c0"
    and l: "tree_loop E S [0..<ctr_nTrees c0] (st\<lparr>st_ctr := c0\<rparr>) = Some st0"
    and c1: "st_ctr st1 = fst (sweep_shrinkage S
                (fst (ext_tdlmModelEst E (sweep_precalc (st_ctr st0)) (st_rng st0)))
                (snd (ext_tdlmModelEst E (sweep_precalc (st_ctr st0)) (st_rng st0))))"
    by (auto simp: sweep_before_expProb_def Let_def case_prod_beta split: option.splits)
  note f0 = sweep_reset_fields(8,9,10,11)[OF r]
  from tree_loop_frame[OF l] f0
  have f1: "ctr_b (st_ctr st0) = ctr_b (st_ctr st)" "ctr_burn (st_ctr st0) = ctr_burn (st_ctr st)"
    "ctr_expProb (st_ctr st0) = ctr_expProb (st_ctr st)"
    "ctr_modKappa (st_ctr st0) = ctr_modKappa (st_ctr st)" by simp_all
  let ?e = "ext_tdlmModelEst E (sweep_precalc (st_ctr st0)) (st_rng st0)"
  from est have e: "ctr_b (fst ?e) = ctr_b (sweep_precalc (st_ctr st0))"
    "ctr_burn (fst ?e) = ctr_burn (sweep_precalc (st_ctr st0))"
    "ctr_expProb (fst ?e) = ctr_expProb (sweep_precalc (st_ctr st0))"
    "ctr_modKappa (fst ?e) = ctr_modKappa (sweep_precalc (st_ctr st0))" by blast+
  have f3: "ctr_b (st_ctr st1) = ctr_b (st_ctr st)" "ctr_burn (st_ctr st1) = ctr_burn (st_ctr st)"
    "ctr_expProb (st_ctr st1) = ctr_expProb (st_ctr st)"
    "ctr_modKappa (st_ctr st1) = ctr_modKappa (st_ctr st)"
    unfolding c1 sweep_shrinkage_frame e using f1 by (simp_all add: sweep_precalc_def)
  from est have est': "\<forall>c g. ctr_expCount (fst (ext_tdlmModelEst E c g)) = ctr_expCount c \<and>
                      ctr_tree1Exp (fst (ext_tdlmModelEst E c g)) = ctr_tree1Exp c \<and>
                      ctr_tree2Exp (fst (ext_tdlmModelEst E c g)) = ctr_tree2Exp c"
    by blast
  note u = sweep_usage_counts[OF est' len pre]
  have a: "map (\<lambda>c. c + ctr_modKappa (st_ctr st1)) (ctr_expCount (st_ctr st1)) =
      map (\<lambda>i. real (usage_count (st_ctr st1) i) + ctr_modKappa (st_ctr st))
        [0..<length (ctr_expCount (st_ctr st))]"
    by (subst u) (simp add: f3 comp_def)
  have m: "map (\<lambda>a. Rgamma a 1)
        (map (\<lambda>i. real (usage_count (st_ctr st1) i) + ctr_modKappa (st_ctr st))
           [0..<length (ctr_expCount (st_ctr st))]) =
      map (\<lambda>i. Rgamma (real (usage_count (st_ctr st1) i) + ctr_modKappa (st_ctr st)) 1)
        [0..<length (ctr_expCount (st_ctr st))]"
    by (simp add: comp_def)
  let ?reqs = "map (\<lambda>i. Rgamma (real (usage_count (st_ctr st1) i) + ctr_modKappa (st_ctr st)) 1)
      [0..<length (ctr_expCount (st_ctr st))]"
  have R: "rDirichlet S (map (\<lambda>c. c + ctr_modKappa (st_ctr st1)) (ctr_expCount (st_ctr st1)))
      (st_rng st1) =
    (map (\<lambda>x. x / sum_list (fst (draws S ?reqs (st_rng st1)))) (fst (draws S ?reqs (st_rng st1))),
     snd (draws S ?reqs (st_rng st1)))"
    by (simp only: rDirichlet_draws a m)
  show ?thesis
    using pre f3(1,2,3)
    by (simp add: sweep_def sweep_expProb_def Let_def case_prod_beta R)
qed

subsection \<open>Runs of the model on the example\<close>

lemma uvr_frame2:
  "ctr_stepProb (fst (update_variance_residuals S t ps ctr g)) = ctr_stepProb ctr"
  "ctr_diagnostics (fst (update_variance_residuals S t ps ctr g)) = ctr_diagnostics ctr"
  "ctr_shrinkage (fst (update_variance_residuals S t ps ctr g)) = ctr_shrinkage ctr"
  "ctr_tree1Exp (fst (update_variance_residuals S t ps ctr g)) = (ctr_tree1Exp ctr)[t := ps_m1 ps]"
  "ctr_tree2Exp (fst (update_variance_residuals S t ps ctr g)) = (ctr_tree2Exp ctr)[t := ps_m2 ps]"
  "ctr_interaction (fst (update_variance_residuals S t ps ctr g)) = ctr_interaction ctr"
  "ctr_muMix (fst (update_variance_residuals S t ps ctr g)) = ctr_muMix ctr"
  by (simp_all add: update_variance_residuals_def Let_def case_prod_beta)

lemma uvr_rng_recording:
  assumes "ctr_shrinkage ctr > 1"
  shows "\<exists>lg'. snd (update_variance_residuals recording t ps ctr (a # b # us, lg)) = (us, lg')"
  using assms
  by (simp add: update_variance_residuals_def Let_def case_prod_beta rHalfCauchyFC_def
      recording_def)

lemma tdlmmTreeMCMC_example:
  assumes sp: "ctr_stepProb ctr = [1/4, 1/4, 1/4, 1/4]" and dg: "ctr_diagnostics ctr"
    and sh: "ctr_shrinkage ctr > 1"
  shows "\<exists>ctr' lg'. tdlmmTreeMCMC (example_ext r) recording t () () ctr dgn
             (1/8 # 1/8 # a # b # us, lg) =
           Some ((), (), ctr',
                 dgn\<lparr>dgn_TreeAccept := dgn_TreeAccept dgn @
                   [[1, 0, 0, real (ctr_tree1Exp ctr ! t), 1, 0, r],
                    [2, 0, 0, real (ctr_tree2Exp ctr ! t), 1, 0, r]]\<rparr>,
                 (us, lg')) \<and>
           ctr_stepProb ctr' = ctr_stepProb ctr \<and> ctr_diagnostics ctr' = ctr_diagnostics ctr \<and>
           ctr_shrinkage ctr' = ctr_shrinkage ctr \<and> ctr_n ctr' = ctr_n ctr \<and>
           ctr_interaction ctr' = ctr_interaction ctr \<and> ctr_muMix ctr' = ctr_muMix ctr \<and>
           ctr_tree1Exp ctr' = ctr_tree1Exp ctr \<and> ctr_tree2Exp ctr' = ctr_tree2Exp ctr \<and>
           (ctr_n ctr = 2 \<and> pair_mixVar ctr (ctr_tree1Exp ctr ! t) (ctr_tree2Exp ctr ! t) \<noteq> 0
              \<longrightarrow> ctr_Rmat ctr' = (ctr_Rmat ctr)[t := [3, 3]])"
proof -
  let ?E = "example_ext r :: (unit, real list \<times> law list) ext"
  let ?nd = "\<lparr>nv_X = [1, 1], nv_ZtX = [2]\<rparr>"
  let ?ZtR = "tmult (ctr_Zw ctr) (ctr_R ctr)" and ?tv = "ctr_nu ctr * ctr_tau ctr ! t"
  let ?m1 = "ctr_tree1Exp ctr ! t" and ?m2 = "ctr_tree2Exp ctr ! t"
  let ?ps = "\<lparr>ps_tree1 = (), ps_tree2 = (), ps_m1 = ?m1, ps_m2 = ?m2,
      ps_m1Var = ctr_muExp ctr ! ?m1, ps_m2Var = ctr_muExp ctr ! ?m2,
      ps_mixVar = pair_mixVar ctr ?m1 ?m2,
      ps_term1 = ext_listTerminal ?E (), ps_term2 = ext_listTerminal ?E (),
      ps_mhr0 = mhr_default, ps_RtR = - 1.0, ps_RtZVgZtR = 0,
      ps_ratio = ext_uninit_ratio ?E (ctr_b ctr) t\<rparr>"
  let ?g = "(1/8 # 1/8 # a # b # us, lg)"
  have lt: "ext_listTerminal ?E () = [?nd]" and ur: "ext_uninit_ratio ?E (ctr_b ctr) t = r"
    by (simp_all add: example_ext_def)
  let ?p = "\<lambda>m mVar. \<lparr>p_tree = (), p_step = 0, p_stepMhr = 0, p_success = 0, p_newExp = m,
            p_newExpVar = mVar, p_newMixVar = pair_mixVar ctr ?m1 ?m2,
            p_newTerm = [?nd], p_newTree = None\<rparr>"
  have p1: "propose ?E recording ctr (ps_tree1 ?ps) (ps_term1 ?ps) (ps_m1 ?ps) (ps_m2 ?ps)
             (ps_m1Var ?ps) (ps_mixVar ?ps) ?g
           = Some (?p ?m1 (ctr_muExp ctr ! ?m1), (1/8 # a # b # us, lg @ [Runif 0 1]))"
    by (simp add: lt propose_example_grow[OF sp])
  from update_tree1_unsuccessful_row[OF p1 _ dg, of ?ZtR ?tv dgn]
  obtain ps1 g1 where u1: "update_tree1 ?E recording ctr ?ZtR ?tv ?ps dgn ?g =
      Some (ps1, dgn\<lparr>dgn_TreeAccept := dgn_TreeAccept dgn @
              [[1, 0, 0, real ?m1, 1, 0, r]]\<rparr>, g1)"
    and f1: "ps_ratio ps1 = r" "ps_tree2 ps1 = ()" "ps_term2 ps1 = [?nd]" "ps_m1 ps1 = ?m1"
      "ps_m2 ps1 = ?m2" "ps_m2Var ps1 = ctr_muExp ctr ! ?m2"
      "ps_mixVar ps1 = pair_mixVar ctr ?m1 ?m2"
    and h1: "ps_mhr0 ps1 = fst (mixMHR ?E [?nd] [?nd] ctr ?ZtR ?tv (ctr_muExp ctr ! ?m1)
        (ctr_muExp ctr ! ?m2) (pair_mixVar ctr ?m1 ?m2) () (ext_tempV_rows ?E () = 0)
        (1/8 # a # b # us, lg @ [Runif 0 1]))"
    and g1: "g1 = (1/8 # a # b # us, lg @ [Runif 0 1])"
    by (auto simp: lt ur mixMHR_example_rng)
  let ?dgn1 = "dgn\<lparr>dgn_TreeAccept := dgn_TreeAccept dgn @ [[1, 0, 0, real ?m1, 1, 0, r]]\<rparr>"
  have p2: "propose ?E recording ctr (ps_tree2 ps1) (ps_term2 ps1) (ps_m2 ps1) (ps_m1 ps1)
             (ps_m2Var ps1) (ps_mixVar ps1) g1
           = Some (?p ?m2 (ctr_muExp ctr ! ?m2), (a # b # us, lg @ [Runif 0 1] @ [Runif 0 1]))"
    by (simp add: f1 g1 propose_example_grow[OF sp])
  from update_tree2_unsuccessful_row[OF p2 _ dg, of ?ZtR ?tv ?dgn1]
  obtain ps2 where u2: "update_tree2 ?E recording ctr ?ZtR ?tv ps1 ?dgn1 g1 =
      Some (ps2, dgn\<lparr>dgn_TreeAccept := dgn_TreeAccept dgn @
              [[1, 0, 0, real ?m1, 1, 0, r], [2, 0, 0, real ?m2, 1, 0, r]]\<rparr>,
            (a # b # us, lg @ [Runif 0 1] @ [Runif 0 1]))"
    and f2: "ps_tree1 ps2 = ()" "ps_tree2 ps2 = ()"
    and h2: "ps_mhr0 ps2 = ps_mhr0 ps1" "ps_m1 ps2 = ?m1" "ps_m2 ps2 = ?m2"
    by (auto simp: f1)
  from uvr_rng_recording[OF sh, of t ps2 a b us "lg @ [Runif 0 1] @ [Runif 0 1]"]
  obtain lg' where lg': "snd (update_variance_residuals recording t ps2 ctr
      (a # b # us, lg @ [Runif 0 1] @ [Runif 0 1])) = (us, lg')" by blast
  let ?c' = "fst (update_variance_residuals recording t ps2 ctr
      (a # b # us, lg @ [Runif 0 1] @ [Runif 0 1]))"
  have "tdlmmTreeMCMC ?E recording t () () ctr dgn ?g =
      Some ((), (), ?c', dgn\<lparr>dgn_TreeAccept := dgn_TreeAccept dgn @
              [[1, 0, 0, real ?m1, 1, 0, r], [2, 0, 0, real ?m2, 1, 0, r]]\<rparr>, (us, lg'))"
    using u1 u2 lg' f2 by (simp add: tdlmmTreeMCMC_def Let_def case_prod_beta)
  moreover have "ctr_Rmat ?c' = (ctr_Rmat ctr)[t := [3, 3]]"
    if "ctr_n ctr = 2" "pair_mixVar ctr ?m1 ?m2 \<noteq> 0"
    using that h1 h2(1) by (simp add: uvr_frame(10) mixMHR_example_fit)
  ultimately show ?thesis by (simp add: uvr_frame uvr_frame2 h2)
qed

text \<open>
  Claim C4 asks for a sampler that is a function of the configuration and the random
  stream alone. \<^verbatim>\<open>tdlmmTreeMCMC\<close> declares \<^verbatim>\<open>double stepMhr, ratio;\<close> and assigns
  \<^verbatim>\<open>ratio\<close> only under \<^verbatim>\<open>if (success)\<close>, yet the row pushed to \<^verbatim>\<open>TreeAccept\<close> ends with
  \<^verbatim>\<open>ratio\<close> whatever \<^verbatim>\<open>success\<close> is (\<^verbatim>\<open>stepMhr\<close> and \<^verbatim>\<open>success\<close> are reset before each
  tree). On the example configuration with the same random stream, where no proposal
  is staged, the two rows of \<^verbatim>\<open>TreeAccept\<close> end with the content of the uninitialised
  variable: two runs that differ in nothing else return different traces.
\<close>

theorem TreeAccept_records_uninitialised_ratio:
  "(\<exists>ctr' g'. tdlmmTreeMCMC (example_ext 0) recording 0 () () example_ctr
       \<lparr>dgn_TreeAccept = []\<rparr> ([1/8, 1/8, 1/8, 1/8], []) =
     Some ((), (), ctr',
           \<lparr>dgn_TreeAccept = [[1, 0, 0, 0, 1, 0, 0], [2, 0, 0, 1, 1, 0, 0]]\<rparr>, g')) \<and>
   (\<exists>ctr' g'. tdlmmTreeMCMC (example_ext 1) recording 0 () () example_ctr
       \<lparr>dgn_TreeAccept = []\<rparr> ([1/8, 1/8, 1/8, 1/8], []) =
     Some ((), (), ctr',
           \<lparr>dgn_TreeAccept = [[1, 0, 0, 0, 1, 0, 1], [2, 0, 0, 1, 1, 0, 1]]\<rparr>, g'))"
proof -
  have sp: "ctr_stepProb example_ctr = [1/4, 1/4, 1/4, 1/4]" "ctr_diagnostics example_ctr"
    "ctr_shrinkage example_ctr > 1" "ctr_tree1Exp example_ctr ! 0 = 0"
    "ctr_tree2Exp example_ctr ! 0 = 1"
    by (simp_all add: example_ctr_def)
  from tdlmmTreeMCMC_example[OF sp(1-3), of 0 0 "\<lparr>dgn_TreeAccept = []\<rparr>" "1/8" "1/8" "[]" "[]"]
    tdlmmTreeMCMC_example[OF sp(1-3), of 1 0 "\<lparr>dgn_TreeAccept = []\<rparr>" "1/8" "1/8" "[]" "[]"]
  show ?thesis by (simp add: sp(4,5)) blast
qed

lemma tree_iter_example:
  fixes st :: "(unit, real list \<times> law list) mcmc"
  assumes sp: "ctr_stepProb (st_ctr st) = [1/4, 1/4, 1/4, 1/4]"
    and dg: "ctr_diagnostics (st_ctr st)" and sh: "ctr_shrinkage (st_ctr st) > 1"
    and g: "st_rng st = (1/8 # 1/8 # a # b # us, lg)"
  shows "\<exists>st' lg'. tree_iter (example_ext r) recording t st = Some st' \<and>
           st_rng st' = (us, lg') \<and>
           ctr_stepProb (st_ctr st') = [1/4, 1/4, 1/4, 1/4] \<and>
           ctr_diagnostics (st_ctr st') \<and> ctr_shrinkage (st_ctr st') > 1 \<and>
           ctr_n (st_ctr st') = ctr_n (st_ctr st) \<and>
           ctr_interaction (st_ctr st') = ctr_interaction (st_ctr st) \<and>
           ctr_muMix (st_ctr st') = ctr_muMix (st_ctr st) \<and>
           ctr_tree1Exp (st_ctr st') = ctr_tree1Exp (st_ctr st) \<and>
           ctr_tree2Exp (st_ctr st') = ctr_tree2Exp (st_ctr st) \<and>
           (ctr_n (st_ctr st) = 2 \<and>
              pair_mixVar (st_ctr st) (ctr_tree1Exp (st_ctr st) ! t)
                (ctr_tree2Exp (st_ctr st) ! t) \<noteq> 0
            \<longrightarrow> ctr_Rmat (st_ctr st') = (ctr_Rmat (st_ctr st))[t := [3, 3]])"
proof -
  from tdlmmTreeMCMC_example[OF sp dg sh, of r t "st_dgn st" a b us lg]
  obtain ctr' lg' dgn' where m: "tdlmmTreeMCMC (example_ext r) recording t () () (st_ctr st)
      (st_dgn st) (1/8 # 1/8 # a # b # us, lg) = Some ((), (), ctr', dgn', (us, lg'))"
    and f: "ctr_stepProb ctr' = ctr_stepProb (st_ctr st)"
      "ctr_diagnostics ctr' = ctr_diagnostics (st_ctr st)"
      "ctr_shrinkage ctr' = ctr_shrinkage (st_ctr st)"
      "ctr_n ctr' = ctr_n (st_ctr st)"
      "ctr_interaction ctr' = ctr_interaction (st_ctr st)"
      "ctr_muMix ctr' = ctr_muMix (st_ctr st)"
      "ctr_tree1Exp ctr' = ctr_tree1Exp (st_ctr st)"
      "ctr_tree2Exp ctr' = ctr_tree2Exp (st_ctr st)"
    and M: "ctr_n (st_ctr st) = 2 \<and>
              pair_mixVar (st_ctr st) (ctr_tree1Exp (st_ctr st) ! t)
                (ctr_tree2Exp (st_ctr st) ! t) \<noteq> 0
            \<longrightarrow> ctr_Rmat ctr' = (ctr_Rmat (st_ctr st))[t := [3, 3]]"
    by blast
  from m g have "tree_iter (example_ext r) recording t st =
      Some \<lparr>st_trees1 = (st_trees1 st)[t := ()], st_trees2 = (st_trees2 st)[t := ()],
            st_ctr = (if t + 1 < ctr_nTrees ctr'
               then ctr'\<lparr>ctr_fhat := vadd (ctr_fhat ctr') (ctr_Rmat ctr' ! t),
                         ctr_R := vadd (ctr_R ctr')
                           (vsub (ctr_Rmat ctr' ! (t + 1)) (ctr_Rmat ctr' ! t))\<rparr>
               else ctr'\<lparr>ctr_fhat := vadd (ctr_fhat ctr') (ctr_Rmat ctr' ! t)\<rparr>),
            st_dgn = dgn', st_rng = (us, lg')\<rparr>"
    by (simp add: tree_iter_def Let_def)
  then show ?thesis using f sp dg sh M by simp
qed

lemma example_reset:
  "\<exists>c0. sweep_reset (st_ctr (example_mcmc\<lparr>st_ctr := example_ctr\<lparr>ctr_burn := bu\<rparr>\<rparr>)) = Some c0 \<and>
      ctr_stepProb c0 = [1/4, 1/4, 1/4, 1/4] \<and> ctr_diagnostics c0 \<and> ctr_shrinkage c0 > 1 \<and>
      ctr_nTrees c0 = 2 \<and> ctr_n c0 = 2 \<and> ctr_interaction c0 = 1 \<and>
      ctr_muMix c0 = (\<lambda>i j. 1) \<and> ctr_tree1Exp c0 = [0, 0] \<and> ctr_tree2Exp c0 = [1, 1] \<and>
      ctr_Rmat c0 = [[0, 0], [0, 0]]"
  by (simp add: sweep_reset_def example_mcmc_def example_ctr_def)

lemma example_tree_loop_draws:
  fixes st0 :: "(unit, real list \<times> law list) mcmc"
  assumes c0: "ctr_stepProb (st_ctr st0) = [1/4, 1/4, 1/4, 1/4]"
    "ctr_diagnostics (st_ctr st0)" "ctr_shrinkage (st_ctr st0) > 1"
    and g0: "st_rng st0 = (1/8 # 1/8 # 1/8 # 1/8 # 1/8 # 1/8 # 1/8 # 1/8 # rest, [])"
    and d0: "ctr_n (st_ctr st0) = 2" "ctr_interaction (st_ctr st0) = 1"
      "ctr_muMix (st_ctr st0) = (\<lambda>i j. 1)" "ctr_tree1Exp (st_ctr st0) = [0, 0]"
      "ctr_tree2Exp (st_ctr st0) = [1, 1]" "ctr_Rmat (st_ctr st0) = [[0, 0], [0, 0]]"
  shows "\<exists>st1 st2. tree_loop (example_ext r) recording [0..<1] st0 = Some st1 \<and>
         ctr_Rmat (st_ctr st1) = [[3, 3], [0, 0]] \<and>
         tree_loop (example_ext r) recording [0..<2] st0 = Some st2 \<and>
         ctr_Rmat (st_ctr st2) = [[3, 3], [3, 3]] \<and>
         fst (st_rng st2) = rest \<and>
         ctr_tree1Exp (st_ctr st2) = [0, 0] \<and> ctr_tree2Exp (st_ctr st2) = [1, 1]"
proof -
  have m0: "pair_mixVar (st_ctr st0) (ctr_tree1Exp (st_ctr st0) ! 0)
      (ctr_tree2Exp (st_ctr st0) ! 0) \<noteq> 0"
    by (simp add: pair_mixVar_def d0)
  from tree_iter_example[OF c0, of "1/8" "1/8" "1/8 # 1/8 # 1/8 # 1/8 # rest" "[]" r 0] g0 d0(1) m0
  obtain st1 lg1
    where i1: "tree_iter (example_ext r) recording 0 st0 = Some st1"
      and f1: "st_rng st1 = (1/8 # 1/8 # 1/8 # 1/8 # rest, lg1)"
        "ctr_stepProb (st_ctr st1) = [1/4, 1/4, 1/4, 1/4]"
        "ctr_diagnostics (st_ctr st1)" "ctr_shrinkage (st_ctr st1) > 1"
      and d1: "ctr_n (st_ctr st1) = ctr_n (st_ctr st0)"
        "ctr_interaction (st_ctr st1) = ctr_interaction (st_ctr st0)"
        "ctr_muMix (st_ctr st1) = ctr_muMix (st_ctr st0)"
        "ctr_tree1Exp (st_ctr st1) = ctr_tree1Exp (st_ctr st0)"
        "ctr_tree2Exp (st_ctr st1) = ctr_tree2Exp (st_ctr st0)"
      and M1: "ctr_Rmat (st_ctr st1) = (ctr_Rmat (st_ctr st0))[0 := [3, 3]]"
    by auto
  have m1: "ctr_n (st_ctr st1) = 2 \<and> pair_mixVar (st_ctr st1) (ctr_tree1Exp (st_ctr st1) ! 1)
      (ctr_tree2Exp (st_ctr st1) ! 1) \<noteq> 0"
    by (simp add: pair_mixVar_def d0 d1)
  from tree_iter_example[OF f1(2,3,4,1), of r 1] m1 obtain st2 lg2
    where i2: "tree_iter (example_ext r) recording 1 st1 = Some st2"
      and M2: "ctr_Rmat (st_ctr st2) = (ctr_Rmat (st_ctr st1))[1 := [3, 3]]"
      and g2: "st_rng st2 = (rest, lg2)"
      and d2: "ctr_tree1Exp (st_ctr st2) = ctr_tree1Exp (st_ctr st1)"
        "ctr_tree2Exp (st_ctr st2) = ctr_tree2Exp (st_ctr st1)"
    by blast
  have "[0..<1] = [0::nat]" "[0..<2] = [0::nat, 1]" by (simp_all add: upt_rec)
  with i1 i2 M1 M2 d0(4,5,6) d1(4,5) g2 d2 show ?thesis by simp
qed

lemma example_tree_loop:
  fixes st0 :: "(unit, real list \<times> law list) mcmc"
  assumes c0: "ctr_stepProb (st_ctr st0) = [1/4, 1/4, 1/4, 1/4]"
    "ctr_diagnostics (st_ctr st0)" "ctr_shrinkage (st_ctr st0) > 1"
    and g0: "st_rng st0 = ([1/8, 1/8, 1/8, 1/8, 1/8, 1/8, 1/8, 1/8], [])"
    and d0: "ctr_n (st_ctr st0) = 2" "ctr_interaction (st_ctr st0) = 1"
      "ctr_muMix (st_ctr st0) = (\<lambda>i j. 1)" "ctr_tree1Exp (st_ctr st0) = [0, 0]"
      "ctr_tree2Exp (st_ctr st0) = [1, 1]" "ctr_Rmat (st_ctr st0) = [[0, 0], [0, 0]]"
  shows "\<exists>st1 st2. tree_loop (example_ext r) recording [0..<1] st0 = Some st1 \<and>
         ctr_Rmat (st_ctr st1) = [[3, 3], [0, 0]] \<and>
         tree_loop (example_ext r) recording [0..<2] st0 = Some st2 \<and>
         ctr_Rmat (st_ctr st2) = [[3, 3], [3, 3]]"
proof -
  from g0 have "st_rng st0 = (1/8 # 1/8 # 1/8 # 1/8 # 1/8 # 1/8 # 1/8 # 1/8 # [], [])" by simp
  from example_tree_loop_draws[OF c0 this d0, of r] show ?thesis by blast
qed

theorem backfitting_residual_invariant_witness:
  "\<exists>c0 st1 st2.
     sweep_reset (st_ctr example_mcmc) = Some c0 \<and>
     ctr_Ystar (st_ctr example_mcmc) = [1, 2] \<and>
     ctr_Rmat (st_ctr example_mcmc) = [[0, 0], [0, 0]] \<and>
     ctr_R (st_ctr example_mcmc) = [1, 2] \<and>
     ctr_R (st_ctr example_mcmc) =
       vsub (ctr_Ystar (st_ctr example_mcmc))
         (vsum (ctr_n (st_ctr example_mcmc)) (ctr_Rmat (st_ctr example_mcmc))) \<and>
     tree_loop (example_ext 0) recording [0..<1] (example_mcmc\<lparr>st_ctr := c0\<rparr>) = Some st1 \<and>
     ctr_Rmat (st_ctr st1) = [[3, 3], [0, 0]] \<and>
     ctr_R (st_ctr st1) =
       vsub (ctr_Ystar (st_ctr example_mcmc))
         (vsum (ctr_n (st_ctr example_mcmc)) (cols_except 1 (ctr_Rmat (st_ctr st1)))) \<and>
     ctr_R (st_ctr st1) = [- 2, - 1] \<and>
     tree_loop (example_ext 0) recording [0..<2] (example_mcmc\<lparr>st_ctr := c0\<rparr>) = Some st2 \<and>
     ctr_Rmat (st_ctr st2) = [[3, 3], [3, 3]] \<and>
     ctr_R (sweep_precalc (st_ctr st2)) =
       vsub (ctr_Ystar (st_ctr example_mcmc))
         (vsum (ctr_n (st_ctr example_mcmc)) (ctr_Rmat (st_ctr st2))) \<and>
     ctr_R (sweep_precalc (st_ctr st2)) = [- 5, - 4]"
proof -
  have e: "example_mcmc\<lparr>st_ctr := example_ctr\<lparr>ctr_burn := 0\<rparr>\<rparr> = example_mcmc"
    by (simp add: example_mcmc_def example_ctr_def)
  from example_reset[of 0] obtain c0 where r: "sweep_reset (st_ctr example_mcmc) = Some c0"
    and c0: "ctr_stepProb c0 = [1/4, 1/4, 1/4, 1/4]" "ctr_diagnostics c0" "ctr_shrinkage c0 > 1"
      "ctr_nTrees c0 = 2" "ctr_n c0 = 2" "ctr_interaction c0 = 1"
      "ctr_muMix c0 = (\<lambda>i j. 1)" "ctr_tree1Exp c0 = [0, 0]" "ctr_tree2Exp c0 = [1, 1]"
      "ctr_Rmat c0 = [[0, 0], [0, 0]]"
    unfolding e by blast
  have "\<exists>st1 st2. tree_loop (example_ext 0) recording [0..<1] (example_mcmc\<lparr>st_ctr := c0\<rparr>)
           = Some st1 \<and>
         ctr_Rmat (st_ctr st1) = [[3, 3], [0, 0]] \<and>
         tree_loop (example_ext 0) recording [0..<2] (example_mcmc\<lparr>st_ctr := c0\<rparr>) = Some st2 \<and>
         ctr_Rmat (st_ctr st2) = [[3, 3], [3, 3]]"
    by (rule example_tree_loop) (simp_all add: c0 example_mcmc_def)
  then obtain st1 st2
    where l1: "tree_loop (example_ext 0) recording [0..<1] (example_mcmc\<lparr>st_ctr := c0\<rparr>) = Some st1"
      and M1: "ctr_Rmat (st_ctr st1) = [[3, 3], [0, 0]]"
      and l2: "tree_loop (example_ext 0) recording [0..<2] (example_mcmc\<lparr>st_ctr := c0\<rparr>) = Some st2"
      and M2: "ctr_Rmat (st_ctr st2) = [[3, 3], [3, 3]]"
    by blast
  have wf: "length (ctr_Rmat (st_ctr example_mcmc)) = ctr_nTrees (st_ctr example_mcmc)"
    "\<forall>col\<in>set (ctr_Rmat (st_ctr example_mcmc)). length col = ctr_n (st_ctr example_mcmc)"
    "length (ctr_Ystar (st_ctr example_mcmc)) = ctr_n (st_ctr example_mcmc)"
    "length (ctr_fhat (st_ctr example_mcmc)) = ctr_n (st_ctr example_mcmc)"
    by (simp_all add: example_mcmc_def example_ctr_def)
  have v: "ctr_Ystar (st_ctr example_mcmc) = [1, 2]"
    "ctr_Rmat (st_ctr example_mcmc) = [[0, 0], [0, 0]]"
    "ctr_R (st_ctr example_mcmc) = [1, 2]" "ctr_n (st_ctr example_mcmc) = 2"
    by (simp_all add: example_mcmc_def example_ctr_def)
  have start: "ctr_R (st_ctr example_mcmc) =
       vsub (ctr_Ystar (st_ctr example_mcmc))
         (vsum (ctr_n (st_ctr example_mcmc)) (ctr_Rmat (st_ctr example_mcmc)))"
    by (simp add: v vsum_def vadd_def vsub_def numeral_2_eq_2)
  have N: "ctr_nTrees (st_ctr example_mcmc) = 2"
    by (simp add: example_mcmc_def example_ctr_def)
  note t = backfitting_residual_invariant[OF r wf start, of "example_ext 0" recording]
  from t l1 N have 1: "ctr_R (st_ctr st1) =
       vsub (ctr_Ystar (st_ctr example_mcmc))
         (vsum (ctr_n (st_ctr example_mcmc)) (cols_except 1 (ctr_Rmat (st_ctr st1))))"
    by simp
  then have r1: "ctr_R (st_ctr st1) = [- 2, - 1]"
    by (simp add: M1 v cols_except_def vsum_def vadd_def vsub_def numeral_2_eq_2)
  from t l2 N have 2: "ctr_R (sweep_precalc (st_ctr st2)) =
       vsub (ctr_Ystar (st_ctr example_mcmc))
         (vsum (ctr_n (st_ctr example_mcmc)) (ctr_Rmat (st_ctr st2)))"
    by simp
  then have r2: "ctr_R (sweep_precalc (st_ctr st2)) = [- 5, - 4]"
    by (simp add: M2 v vsum_def vadd_def vsub_def numeral_2_eq_2)
  from r v(1-3) start l1 M1 1 r1 l2 M2 2 r2 show ?thesis by blast
qed

lemma sweep_shrinkage_recording:
  assumes "ctr_shrinkage ctr = 3" "ctr_interaction ctr = 1" "ctr_nExp ctr = 2"
  shows "fst (snd (sweep_shrinkage recording ctr
           (a1 # a2 # a3 # a4 # a5 # a6 # a7 # a8 # us, lg))) = us"
proof -
  have u: "[0..<2] = [0::nat, 1]" "[Suc 0..<2] = [1::nat]" "[1..<2] = [1::nat]"
    by (simp_all add: upt_rec)
  show ?thesis
    using assms
    by (simp add: sweep_shrinkage_def exposure_shrink_def mix_shrink_def rHalfCauchyFC_def
        recording_def Let_def case_prod_beta u)
qed

lemma example_sweep_run:
  "\<exists>st1. sweep_before_expProb (example_ext r) recording
           (example_sweep\<lparr>st_ctr := example_ctr\<lparr>ctr_burn := bu\<rparr>\<rparr>) = Some st1 \<and>
         fst (st_rng st1) = [1, 3] \<and>
         ctr_tree1Exp (st_ctr st1) = [0, 0] \<and> ctr_tree2Exp (st_ctr st1) = [1, 1]"
proof -
  let ?st = "example_sweep\<lparr>st_ctr := example_ctr\<lparr>ctr_burn := bu\<rparr>\<rparr>"
  let ?E = "example_ext r :: (unit, real list \<times> law list) ext"
  have s: "st_ctr ?st = st_ctr (example_mcmc\<lparr>st_ctr := example_ctr\<lparr>ctr_burn := bu\<rparr>\<rparr>)"
    by simp
  from example_reset[of bu] obtain c0 where r: "sweep_reset (st_ctr ?st) = Some c0"
    and c0: "ctr_stepProb c0 = [1/4, 1/4, 1/4, 1/4]" "ctr_diagnostics c0" "ctr_shrinkage c0 > 1"
      "ctr_nTrees c0 = 2" "ctr_n c0 = 2" "ctr_interaction c0 = 1"
      "ctr_muMix c0 = (\<lambda>i j. 1)" "ctr_tree1Exp c0 = [0, 0]" "ctr_tree2Exp c0 = [1, 1]"
      "ctr_Rmat c0 = [[0, 0], [0, 0]]"
    unfolding s by blast
  from r have k: "ctr_shrinkage c0 = 3" "ctr_nExp c0 = 2"
    by (auto simp: sweep_reset_def example_sweep_def example_mcmc_def example_ctr_def
        split: if_splits)
  have "\<exists>st1 st2. tree_loop ?E recording [0..<1] (?st\<lparr>st_ctr := c0\<rparr>) = Some st1 \<and>
         ctr_Rmat (st_ctr st1) = [[3, 3], [0, 0]] \<and>
         tree_loop ?E recording [0..<2] (?st\<lparr>st_ctr := c0\<rparr>) = Some st2 \<and>
         ctr_Rmat (st_ctr st2) = [[3, 3], [3, 3]] \<and>
         fst (st_rng st2) = [1/8, 1/8, 1/8, 1/8, 1/8, 1/8, 1/8, 1/8, 1, 3] \<and>
         ctr_tree1Exp (st_ctr st2) = [0, 0] \<and> ctr_tree2Exp (st_ctr st2) = [1, 1]"
    by (rule example_tree_loop_draws) (simp_all add: c0 example_sweep_def example_mcmc_def)
  then obtain st2
    where l: "tree_loop ?E recording [0..<2] (?st\<lparr>st_ctr := c0\<rparr>) = Some st2"
      and g: "fst (st_rng st2) = [1/8, 1/8, 1/8, 1/8, 1/8, 1/8, 1/8, 1/8, 1, 3]"
      and e: "ctr_tree1Exp (st_ctr st2) = [0, 0]" "ctr_tree2Exp (st_ctr st2) = [1, 1]"
    by blast
  from tree_loop_config[OF l] k c0(6)
  have k2: "ctr_shrinkage (sweep_precalc (st_ctr st2)) = 3"
    "ctr_interaction (sweep_precalc (st_ctr st2)) = 1" "ctr_nExp (sweep_precalc (st_ctr st2)) = 2"
    by (simp_all add: sweep_precalc_def)
  let ?c3 = "fst (sweep_shrinkage recording (sweep_precalc (st_ctr st2)) (st_rng st2))"
  let ?g3 = "snd (sweep_shrinkage recording (sweep_precalc (st_ctr st2)) (st_rng st2))"
  from g have "st_rng st2 =
      (1/8 # 1/8 # 1/8 # 1/8 # 1/8 # 1/8 # 1/8 # 1/8 # [1, 3], snd (st_rng st2))"
    by (metis prod.collapse)
  with sweep_shrinkage_recording[OF k2, of "1/8" "1/8" "1/8" "1/8" "1/8" "1/8" "1/8" "1/8"
      "[1, 3]" "snd (st_rng st2)"]
  have g3: "fst ?g3 = [1, 3]" by simp
  have e3: "ctr_tree1Exp ?c3 = [0, 0]" "ctr_tree2Exp ?c3 = [1, 1]"
    unfolding sweep_shrinkage_frame using e by (simp_all add: sweep_precalc_def)
  have "sweep_before_expProb ?E recording ?st = Some (st2\<lparr>st_ctr := ?c3, st_rng := ?g3\<rparr>)"
    using r l c0(4) by (simp add: sweep_before_expProb_def Let_def case_prod_beta example_ext_def)
  with g3 e3 show ?thesis by simp
qed

theorem sweep_redraws_expProb_after_warmup_witness:
  "(\<exists>st1 st'. sweep_before_expProb (example_ext 0) recording example_sweep = Some st1 \<and>
      sweep (example_ext 0) recording example_sweep = Some st' \<and>
      ctr_b (st_ctr example_sweep) = 1 \<and> ctr_burn (st_ctr example_sweep) = 0 \<and>
      ctr_modKappa (st_ctr example_sweep) = 1 \<and>
      ctr_tree1Exp (st_ctr st1) = [0, 0] \<and> ctr_tree2Exp (st_ctr st1) = [1, 1] \<and>
      usage_count (st_ctr st1) 0 = 2 \<and> usage_count (st_ctr st1) 1 = 2 \<and>
      fst (st_rng st1) = [1, 3] \<and>
      ctr_expProb (st_ctr st') = [1/4, 3/4] \<and>
      st_rng st' = ([], snd (st_rng st1) @ [Rgamma 3 1, Rgamma 3 1])) \<and>
   (\<exists>st1 st'. sweep_before_expProb (example_ext 0) recording
                (example_sweep\<lparr>st_ctr := example_ctr\<lparr>ctr_burn := 10\<rparr>\<rparr>) = Some st1 \<and>
      sweep (example_ext 0) recording
        (example_sweep\<lparr>st_ctr := example_ctr\<lparr>ctr_burn := 10\<rparr>\<rparr>) = Some st' \<and>
      ctr_expProb (st_ctr st') = [1/2, 1/2] \<and> st_rng st' = st_rng st1 \<and>
      fst (st_rng st') = [1, 3])"
proof -
  let ?E = "example_ext 0 :: (unit, real list \<times> law list) ext"
  let ?st10 = "example_sweep\<lparr>st_ctr := example_ctr\<lparr>ctr_burn := 10\<rparr>\<rparr>"
  have e: "example_sweep\<lparr>st_ctr := example_ctr\<lparr>ctr_burn := 0\<rparr>\<rparr> = example_sweep"
    by (simp add: example_sweep_def example_mcmc_def example_ctr_def)
  have est: "\<forall>c g. ctr_b (fst (ext_tdlmModelEst ?E c g)) = ctr_b c \<and>
      ctr_burn (fst (ext_tdlmModelEst ?E c g)) = ctr_burn c \<and>
      ctr_expProb (fst (ext_tdlmModelEst ?E c g)) = ctr_expProb c \<and>
      ctr_modKappa (fst (ext_tdlmModelEst ?E c g)) = ctr_modKappa c \<and>
      ctr_expCount (fst (ext_tdlmModelEst ?E c g)) = ctr_expCount c \<and>
      ctr_tree1Exp (fst (ext_tdlmModelEst ?E c g)) = ctr_tree1Exp c \<and>
      ctr_tree2Exp (fst (ext_tdlmModelEst ?E c g)) = ctr_tree2Exp c"
    by (simp add: example_ext_def)
  from example_sweep_run[of 0 0] obtain st1
    where p1: "sweep_before_expProb ?E recording example_sweep = Some st1"
      and g1: "fst (st_rng st1) = [1, 3]"
      and x1: "ctr_tree1Exp (st_ctr st1) = [0, 0]" "ctr_tree2Exp (st_ctr st1) = [1, 1]"
    unfolding e by blast
  from example_sweep_run[of 0 10] obtain st2
    where p2: "sweep_before_expProb ?E recording ?st10 = Some st2"
      and g2: "fst (st_rng st2) = [1, 3]"
    by blast
  have b: "ctr_b (st_ctr example_sweep) = 1" "ctr_burn (st_ctr example_sweep) = 0"
    "ctr_modKappa (st_ctr example_sweep) = 1"
    "length (ctr_expCount (st_ctr example_sweep)) = 2"
    "length (ctr_tree1Exp (st_ctr example_sweep)) = ctr_nTrees (st_ctr example_sweep)"
    "length (ctr_tree2Exp (st_ctr example_sweep)) = ctr_nTrees (st_ctr example_sweep)"
    by (simp_all add: example_sweep_def example_mcmc_def example_ctr_def)
  have b10: "ctr_b (st_ctr ?st10) = 1" "ctr_burn (st_ctr ?st10) = 10"
    "ctr_expProb (st_ctr ?st10) = [1/2, 1/2]"
    "length (ctr_tree1Exp (st_ctr ?st10)) = ctr_nTrees (st_ctr ?st10)"
    "length (ctr_tree2Exp (st_ctr ?st10)) = ctr_nTrees (st_ctr ?st10)"
    by (simp_all add: example_ctr_def)
  have uc: "usage_count (st_ctr st1) 0 = 2" "usage_count (st_ctr st1) 1 = 2"
    by (simp_all add: usage_count_def x1)
  have u2: "[0..<2] = [0::nat, 1]" by (simp add: upt_rec)
  from g1 have r1: "st_rng st1 = ([1, 3], snd (st_rng st1))" by (metis prod.collapse)
  have d: "draws recording [Rgamma 3 1, Rgamma 3 1] ([1, 3], lg) =
      ([1, 3], ([], lg @ [Rgamma 3 1, Rgamma 3 1]))" for lg
    by (simp add: recording_def)
  have uc': "usage_count (st_ctr st1) (Suc 0) = 2" using uc(2) by simp
  have warm: "ctr_b (st_ctr example_sweep) > 1000 \<or>
      real_of_int (ctr_b (st_ctr example_sweep)) > real_of_int (ctr_burn (st_ctr example_sweep)) / 2"
    by (simp add: b)
  have reqs: "map (\<lambda>i. Rgamma (real (usage_count (st_ctr st1) i) +
                            ctr_modKappa (st_ctr example_sweep)) 1)
        [0..<length (ctr_expCount (st_ctr example_sweep))] = [Rgamma 3 1, Rgamma 3 1]"
    by (simp add: b u2 uc uc')
  have D: "draws recording [Rgamma 3 1, Rgamma 3 1] (st_rng st1) =
      ([1, 3], ([], snd (st_rng st1) @ [Rgamma 3 1, Rgamma 3 1]))"
    by (subst r1) (rule d)
  from sweep_redraws_expProb_after_warmup[OF est b(5,6) p1, unfolded if_P[OF warm] Let_def reqs D]
  obtain st' where s1: "sweep ?E recording example_sweep = Some st'"
    and w: "ctr_expProb (st_ctr st') = [1/4, 3/4] \<and>
            st_rng st' = ([], snd (st_rng st1) @ [Rgamma 3 1, Rgamma 3 1])"
    by auto
  have cold: "\<not> (ctr_b (st_ctr ?st10) > 1000 \<or>
      real_of_int (ctr_b (st_ctr ?st10)) > real_of_int (ctr_burn (st_ctr ?st10)) / 2)"
    by (simp add: example_ctr_def)
  from sweep_redraws_expProb_after_warmup[OF est b10(4,5) p2, unfolded if_not_P[OF cold]]
  obtain st'' where s2: "sweep ?E recording ?st10 = Some st''"
    and w2: "ctr_expProb (st_ctr st'') = [1/2, 1/2] \<and> st_rng st'' = st_rng st2"
    using b10(3) by auto
  from w2 g2 have g2': "fst (st_rng st'') = [1, 3]" by simp
  have A: "\<exists>st1 st'. sweep_before_expProb ?E recording example_sweep = Some st1 \<and>
      sweep ?E recording example_sweep = Some st' \<and>
      ctr_b (st_ctr example_sweep) = 1 \<and> ctr_burn (st_ctr example_sweep) = 0 \<and>
      ctr_modKappa (st_ctr example_sweep) = 1 \<and>
      ctr_tree1Exp (st_ctr st1) = [0, 0] \<and> ctr_tree2Exp (st_ctr st1) = [1, 1] \<and>
      usage_count (st_ctr st1) 0 = 2 \<and> usage_count (st_ctr st1) 1 = 2 \<and>
      fst (st_rng st1) = [1, 3] \<and>
      ctr_expProb (st_ctr st') = [1/4, 3/4] \<and>
      st_rng st' = ([], snd (st_rng st1) @ [Rgamma 3 1, Rgamma 3 1])"
    using p1 s1 b(1-3) x1 uc g1 w by blast
  have B: "\<exists>st1 st'. sweep_before_expProb ?E recording ?st10 = Some st1 \<and>
      sweep ?E recording ?st10 = Some st' \<and>
      ctr_expProb (st_ctr st') = [1/2, 1/2] \<and> st_rng st' = st_rng st1 \<and>
      fst (st_rng st') = [1, 3]"
    using p2 s2 w2 g2' by blast
  from A B show ?thesis by (rule conjI)
qed

end
